(* ===== verification/Gnmi_Prelude.thy ===== *)
theory Gnmi_Prelude
  imports Main "HOL-Library.AList" "HOL-Library.Char_ord" "HOL-Library.List_Lexorder"
begin

text \<open>
  What the components share: the parts of the Go language and of its standard library that the
  sources use, and generic lemmas about them.

  A Go string is a \<^typ>\<open>string\<close> (a list of bytes). A Go map with string keys is an association
  list whose keys are distinct (\<open>gomap_ok\<close>); reading a key is \<^const>\<open>map_of\<close>, writing one is
  \<^const>\<open>AList.update\<close> and \<open>delete\<close> is \<^const>\<open>AList.delete\<close>. Go leaves the order in which
  \<open>range\<close> visits a map open: where a result could depend on it, the model takes the order as an
  argument \<open>rng\<close>, a function that permutes the entries (\<open>range_order\<close>).

  White space and letter case (\<open>strings.TrimSpace\<close>, \<open>strings.ToLower\<close>) are modelled on ASCII.
\<close>

named_theorems go_simps \<open>how the Go library functions compute\<close>
named_theorems gomap_simps \<open>reading a map after it was written\<close>

section \<open>Maps\<close>

type_synonym 'v gomap = "(string \<times> 'v) list"

abbreviation gomap_ok :: "'v gomap \<Rightarrow> bool" where
  "gomap_ok m \<equiv> distinct (map fst m)"

definition range_order :: "('a list \<Rightarrow> 'a list) \<Rightarrow> bool" where
  "range_order rng \<longleftrightarrow> (\<forall>xs. set (rng xs) = set xs \<and> length (rng xs) = length xs)"

text \<open>Sorted keys of a map, as \<open>sort.Strings\<close> leaves them (byte-wise lexicographic order).\<close>

definition sorted_keys :: "'v gomap \<Rightarrow> string list" where
  "sorted_keys m = sort (map fst m)"

section \<open>Strings\<close>

definition hasPrefix :: "string \<Rightarrow> string \<Rightarrow> bool" where
  "hasPrefix s p \<longleftrightarrow> take (length p) s = p"

definition hasSuffix :: "string \<Rightarrow> string \<Rightarrow> bool" where
  "hasSuffix s p \<longleftrightarrow> length p \<le> length s \<and> drop (length s - length p) s = p"

definition trimPrefix :: "string \<Rightarrow> string \<Rightarrow> string" where
  "trimPrefix s p = (if hasPrefix s p then drop (length p) s else s)"

definition trimSuffix :: "string \<Rightarrow> string \<Rightarrow> string" where
  "trimSuffix s p = (if hasSuffix s p then take (length s - length p) s else s)"

text \<open>\<open>strings.Contains(s, sub)\<close>\<close>

fun contains :: "string \<Rightarrow> string \<Rightarrow> bool" where
  "contains [] sub \<longleftrightarrow> sub = []"
| "contains (c # s) sub \<longleftrightarrow> hasPrefix (c # s) sub \<or> contains s sub"

definition trimWhile :: "(char \<Rightarrow> bool) \<Rightarrow> string \<Rightarrow> string" where
  "trimWhile P s = rev (dropWhile P (rev (dropWhile P s)))"

text \<open>\<open>strings.Trim(s, " ")\<close> and \<open>strings.TrimSpace(s)\<close>.\<close>

definition trimBlanks :: "string \<Rightarrow> string" where
  "trimBlanks s = trimWhile (\<lambda>c. c = CHR '' '') s"

definition isSpace :: "char \<Rightarrow> bool" where
  "isSpace c \<longleftrightarrow> c = CHR '' '' \<or> (let n = (of_char c :: nat) in 9 \<le> n \<and> n \<le> 13)"

definition trimSpace :: "string \<Rightarrow> string" where
  "trimSpace s = trimWhile isSpace s"

definition lowerChar :: "char \<Rightarrow> char" where
  "lowerChar c = (let n = (of_char c :: nat) in if 65 \<le> n \<and> n \<le> 90 then char_of (n + 32) else c)"

definition toLower :: "string \<Rightarrow> string" where
  "toLower s = map lowerChar s"

text \<open>\<open>strings.Split(s, sep)\<close> for a separator of one byte: one field more than separators.\<close>

fun split :: "char \<Rightarrow> string \<Rightarrow> string list" where
  "split c [] = [[]]"
| "split c (x # xs) =
     (if x = c then [] # split c xs
      else (case split c xs of [] \<Rightarrow> [[x]] | f # fs \<Rightarrow> (x # f) # fs))"

text \<open>\<open>strings.Join(fields, sep)\<close>.\<close>

fun join :: "string \<Rightarrow> string list \<Rightarrow> string" where
  "join sep [] = []"
| "join sep [f] = f"
| "join sep (f # g # fs) = f @ sep @ join sep (g # fs)"

text \<open>
  \<open>strings.ReplaceAll(s, old, new)\<close> for a non-empty \<open>old\<close>: left to right, without overlap.
\<close>

function replaceAll :: "string \<Rightarrow> string \<Rightarrow> string \<Rightarrow> string" where
  "replaceAll old new [] = []"
| "replaceAll old new (x # xs) =
     (if old \<noteq> [] \<and> hasPrefix (x # xs) old
      then new @ replaceAll old new (drop (length old) (x # xs))
      else x # replaceAll old new xs)"
  by pat_completeness auto
termination
  by (relation "measure (\<lambda>(old, new, s). length s)") auto

text \<open>\<open>strings.LastIndex(s, c)\<close> for one byte; \<open>None\<close> is Go's \<open>-1\<close>.\<close>

fun lastIndex :: "string \<Rightarrow> char \<Rightarrow> nat option" where
  "lastIndex [] c = None"
| "lastIndex (x # xs) c =
     (case lastIndex xs c of Some i \<Rightarrow> Some (Suc i) | None \<Rightarrow> if x = c then Some 0 else None)"

section \<open>Numbers\<close>

definition digitChar :: "nat \<Rightarrow> char" where
  "digitChar d = char_of (48 + d)"

text \<open>\<open>strconv.FormatUint(n, 10)\<close> and \<open>strconv.Itoa(n)\<close>.\<close>

fun formatUint :: "nat \<Rightarrow> string" where
  "formatUint n = (if n < 10 then [digitChar n] else formatUint (n div 10) @ [digitChar (n mod 10)])"

declare formatUint.simps [simp del]

definition itoa :: "int \<Rightarrow> string" where
  "itoa i = (if i < 0 then CHR ''-'' # formatUint (nat (- i)) else formatUint (nat i))"

definition isDigit :: "char \<Rightarrow> bool" where
  "isDigit c \<longleftrightarrow> 48 \<le> (of_char c :: nat) \<and> (of_char c :: nat) \<le> 57"

definition digitVal :: "char \<Rightarrow> nat" where
  "digitVal c = (of_char c :: nat) - 48"

definition digitsVal :: "string \<Rightarrow> nat" where
  "digitsVal s = foldl (\<lambda>acc c. 10 * acc + digitVal c) 0 s"

text \<open>
  \<open>strconv.Atoi\<close>: an optional sign, then one or more digits, and a value that fits 64 bits.
\<close>

definition atoiBody :: "string \<Rightarrow> nat option" where
  "atoiBody s = (if s \<noteq> [] \<and> list_all isDigit s then Some (digitsVal s) else None)"

definition atoi :: "string \<Rightarrow> int option" where
  "atoi s =
     (case s of
        [] \<Rightarrow> None
      | c # cs \<Rightarrow>
          if c = CHR ''-'' then
            (case atoiBody cs of None \<Rightarrow> None
             | Some n \<Rightarrow> if n \<le> 2 ^ 63 then Some (- int n) else None)
          else
            (case atoiBody (if c = CHR ''+'' then cs else s) of None \<Rightarrow> None
             | Some n \<Rightarrow> if n < 2 ^ 63 then Some (int n) else None))"

section \<open>gRPC status codes\<close>

datatype code =
    Canceled | Unknown | InvalidArgument | DeadlineExceeded | NotFound | AlreadyExists
  | PermissionDenied | ResourceExhausted | FailedPrecondition | Aborted | OutOfRange
  | Unimplemented | Internal | Unavailable | DataLoss | Unauthenticated

section \<open>Lemmas on maps\<close>

lemma map_of_update [simp, gomap_simps]:
  "map_of (AList.update k v m) k' = (if k' = k then Some v else map_of m k')"
  by (simp add: update_conv')

lemma map_of_delete [simp, gomap_simps]:
  "map_of (AList.delete k m) k' = (if k' = k then None else map_of m k')"
  by (simp add: delete_conv')

lemma gomap_ok_update [simp, intro]: "gomap_ok m \<Longrightarrow> gomap_ok (AList.update k v m)"
  by (rule distinct_update)

lemma gomap_ok_delete [simp, intro]: "gomap_ok m \<Longrightarrow> gomap_ok (AList.delete k m)"
  by (rule distinct_delete)

lemma keys_update [gomap_simps]: "fst ` set (AList.update k v m) = insert k (fst ` set m)"
  by (induction m) auto

lemma keys_delete [gomap_simps]: "fst ` set (AList.delete k m) = fst ` set m - {k}"
  by (induction m) auto

lemma delete_absent: "k \<notin> fst ` set m \<Longrightarrow> AList.delete k m = m"
  by (induction m) (auto simp: image_iff)

lemma map_of_Some_in: "map_of m k = Some v \<Longrightarrow> k \<in> fst ` set m"
  by (force dest: map_of_SomeD)

lemma in_map_of_Some: "k \<in> fst ` set m \<Longrightarrow> \<exists>v. map_of m k = Some v"
  by (induction m) auto

lemma range_orderD: "range_order rng \<Longrightarrow> set (rng xs) = set xs"
  by (simp add: range_order_def)

lemma range_order_id [simp]: "range_order (\<lambda>xs. xs)"
  by (simp add: range_order_def)

lemma range_order_rev [simp]: "range_order rev"
  by (simp add: range_order_def)

lemma set_sorted_keys [simp]: "set (sorted_keys m) = fst ` set m"
  by (simp add: sorted_keys_def)

lemma sorted_keys_Nil_iff [simp]: "sorted_keys m = [] \<longleftrightarrow> m = []"
  by (metis set_sorted_keys image_is_empty set_empty)

lemma sorted_keys_Nil [simp]: "sorted_keys [] = []"
  by (simp add: sorted_keys_def)

lemma length_sorted_keys [simp]: "length (sorted_keys m) = length m"
  by (simp add: sorted_keys_def)

section \<open>Lemmas on strings\<close>

lemma hasPrefix_Nil [simp, go_simps]: "hasPrefix s []"
  by (simp add: hasPrefix_def)

lemma hasPrefix_append [simp, go_simps]: "hasPrefix (p @ s) p"
  by (simp add: hasPrefix_def)

lemma hasPrefix_iff: "hasPrefix s p \<longleftrightarrow> (\<exists>t. s = p @ t)"
  by (metis append_take_drop_id hasPrefix_append hasPrefix_def)

lemma hasSuffix_iff: "hasSuffix s p \<longleftrightarrow> (\<exists>t. s = t @ p)"
proof
  assume "hasSuffix s p"
  then have "s = take (length s - length p) s @ p"
    by (metis append_take_drop_id hasSuffix_def)
  then show "\<exists>t. s = t @ p" ..
next
  assume "\<exists>t. s = t @ p"
  then show "hasSuffix s p" by (auto simp: hasSuffix_def)
qed

lemma trimPrefix_append [simp, go_simps]: "trimPrefix (p @ s) p = s"
  by (simp add: trimPrefix_def)

lemma trimPrefix_none [go_simps]: "\<not> hasPrefix s p \<Longrightarrow> trimPrefix s p = s"
  by (simp add: trimPrefix_def)

lemma split_nonempty [simp]: "split c s \<noteq> []"
  by (induction s) (auto split: list.splits)

lemma length_split: "length (split c s) = Suc (count_list s c)"
proof (induction s)
  case (Cons x xs)
  then show ?case by (cases "split c xs") auto
qed simp

text \<open>Splitting a joined list gives the fields back, when none of them holds the separator.\<close>

lemma split_field [simp]: "c \<notin> set f \<Longrightarrow> split c f = [f]"
  by (induction f) auto

lemma split_append_sep: "c \<notin> set f \<Longrightarrow> split c (f @ c # s) = f # split c s"
  by (induction f) auto

lemma split_join:
  "fs \<noteq> [] \<Longrightarrow> \<forall>f \<in> set fs. c \<notin> set f \<Longrightarrow> split c (join [c] fs) = fs"
proof (induction "[c]" fs rule: join.induct)
  case (3 f g fs)
  then show ?case by (simp add: split_append_sep)
qed auto

lemma join_split: "join [c] (split c s) = s"
proof (induction s)
  case (Cons x xs)
  then show ?case
    by (cases "split c xs"; cases "tl (split c xs)") (auto simp: neq_Nil_conv)
qed simp

lemma map_of_rev_distinct: "distinct (map fst m) \<Longrightarrow> map_of (rev m) = map_of m"
proof (induction m)
  case (Cons kv m)
  then have "map_of m (fst kv) = None" by (simp add: map_of_eq_None_iff)
  with Cons show ?case by (auto simp: map_add_def fun_eq_iff split: option.splits)
qed simp

lemma replaceAll_absent:
  "old \<noteq> [] \<Longrightarrow> hd old \<notin> set s \<Longrightarrow> replaceAll old new s = s"
proof (induction s)
  case (Cons x xs)
  then have "\<not> hasPrefix (x # xs) old"
    by (cases old) (auto simp: hasPrefix_def)
  with Cons show ?case by simp
qed simp

lemma lastIndex_None: "lastIndex s c = None \<longleftrightarrow> c \<notin> set s"
  by (induction s) (auto split: option.splits)

lemma lastIndex_Some:
  "lastIndex s c = Some i \<Longrightarrow> i < length s \<and> s ! i = c \<and> c \<notin> set (drop (Suc i) s)"
proof (induction s arbitrary: i)
  case (Cons x xs)
  show ?case
  proof (cases "lastIndex xs c")
    case None
    then have "c \<notin> set xs" by (simp add: lastIndex_None)
    with None Cons.prems show ?thesis by (simp split: if_splits)
  next
    case (Some j)
    with Cons.IH [of j] Cons.prems show ?thesis by auto
  qed
qed simp

section \<open>Lemmas on numbers\<close>

lemma of_char_digitChar [simp]: "d < 10 \<Longrightarrow> (of_char (digitChar d) :: nat) = 48 + d"
  by (simp add: digitChar_def)

lemma isDigit_digitChar [simp]: "d < 10 \<Longrightarrow> isDigit (digitChar d)"
  by (simp add: isDigit_def)

lemma digitVal_digitChar [simp]: "d < 10 \<Longrightarrow> digitVal (digitChar d) = d"
  by (simp add: digitVal_def)

lemma digitsVal_snoc [simp]: "digitsVal (s @ [c]) = 10 * digitsVal s + digitVal c"
  by (simp add: digitsVal_def)

lemma formatUint_nonempty [simp]: "formatUint n \<noteq> []"
  by (subst formatUint.simps) simp

lemma formatUint_digits: "list_all isDigit (formatUint n)"
proof (induction n rule: formatUint.induct)
  case (1 n)
  then show ?case by (subst formatUint.simps) auto
qed

lemma digitsVal_formatUint [simp]: "digitsVal (formatUint n) = n"
proof (induction n rule: formatUint.induct)
  case (1 n)
  show ?case
  proof (cases "n < 10")
    case True
    then show ?thesis by (subst formatUint.simps) (simp add: digitsVal_def)
  next
    case False
    with 1 show ?thesis by (subst formatUint.simps) simp
  qed
qed

lemma formatUint_inject [simp]: "formatUint m = formatUint n \<longleftrightarrow> m = n"
  by (metis digitsVal_formatUint)

lemma isDigit_not_sign [simp]: "\<not> isDigit (CHR ''-'')" "\<not> isDigit (CHR ''+'')"
  by (simp_all add: isDigit_def)

lemma atoi_formatUint: "n < 2 ^ 63 \<Longrightarrow> atoi (formatUint n) = Some (int n)"
proof -
  assume n: "n < 2 ^ 63"
  obtain c cs where s: "formatUint n = c # cs" by (cases "formatUint n") auto
  with formatUint_digits [of n] have "isDigit c" by simp
  then have "c \<noteq> CHR ''-''" and "c \<noteq> CHR ''+''" by auto
  then show ?thesis
    using n s formatUint_digits [of n] digitsVal_formatUint [of n]
    by (simp add: atoi_def atoiBody_def)
qed

end
