(* ===== verification/Gnmi_Proto.thy ===== *)
theory Gnmi_Proto
  imports Gnmi_Prelude
begin

text \<open>
  The protocol messages the sources read, with the fields they read: gNMI paths
  (\<open>gnmipb.Path\<close>, \<open>gnmipb.PathElem\<close>) and the gNSI path authorization policy (\<open>pathzpb\<close>). An unset
  message reads as its default value through Go's getters, so an unset path is one with no elements.
  Enumerations are open in protobuf: \<open>MODE_OTHER\<close> and \<open>ACTION_OTHER\<close> are the numbers without a name.

  A path flattens into tokens (\<open>toks\<close>): the name of each element, then its keys in alphabetical order.
\<close>

record PathElem =
  elem_name :: string
  elem_key :: "string gomap"

record Path =
  path_origin :: string
  path_target :: string
  path_elem :: "PathElem list"

datatype Action = ACTION_UNSPECIFIED | ACTION_DENY | ACTION_PERMIT | ACTION_OTHER int

datatype Mode = MODE_UNSPECIFIED | MODE_READ | MODE_WRITE | MODE_OTHER int

datatype Principal = PUser string | PGroup string | PUnset

record AuthorizationRule =
  rule_id :: string
  rule_principal :: Principal
  rule_path :: "PathElem list"
  rule_action :: Action
  rule_mode :: Mode

record PathzGroup =
  group_name :: string
  group_users :: "string list"

record AuthorizationPolicy =
  policy_rules :: "AuthorizationRule list"
  policy_groups :: "PathzGroup list"

section \<open>Tokens of a path\<close>

datatype tok = NameT string | KeyT string string

definition keyToks :: "string gomap \<Rightarrow> string list \<Rightarrow> tok list" where
  "keyToks m ks = map (\<lambda>k. KeyT k (the (map_of m k))) ks"

definition elemToks :: "PathElem \<Rightarrow> tok list" where
  "elemToks e = NameT (elem_name e) # keyToks (elem_key e) (sorted_keys (elem_key e))"

definition toks :: "PathElem list \<Rightarrow> tok list" where
  "toks p = concat (map elemToks p)"

lemma toks_Nil [simp]: "toks [] = []"
  by (simp add: toks_def)

lemma toks_Cons [simp]: "toks (e # p) = elemToks e @ toks p"
  by (simp add: toks_def)

lemma toks_append [simp]: "toks (p @ q) = toks p @ toks q"
  by (simp add: toks_def)

lemma toks_Nil_iff [simp]: "toks p = [] \<longleftrightarrow> p = []"
  by (cases p) (auto simp: elemToks_def)

lemma keyToks_Nil [simp]: "keyToks m [] = []"
  by (simp add: keyToks_def)

lemma keyToks_Cons [simp]: "keyToks m (k # ks) = KeyT k (the (map_of m k)) # keyToks m ks"
  by (simp add: keyToks_def)

lemma toks_drop:
  "i < length p \<Longrightarrow> toks (drop i p) = elemToks (p ! i) @ toks (drop (Suc i) p)"
  by (simp add: Cons_nth_drop_Suc [symmetric])

end
