(* ===== verification/Pathz_Spec.thy ===== *)
theory Pathz_Spec
  imports Pathz_Authorizer
begin

text \<open>
  The specification of path authorization and the proof that the tree of
  \<^verbatim>\<open>Pathz_Authorizer\<close> implements it, in three steps: \<open>authorize\<close> and \<open>insertPath\<close> with their
  indices are a walk and an insertion along the tokens of a path; a walk returns what the first
  decided node among the candidate paths says; and what a node says is what the rules with its path
  say.
\<close>

section \<open>Specification\<close>

fun candidates :: "tok list \<Rightarrow> tok list list" where
  "candidates [] = [[]]"
| "candidates (NameT n # ts) = map ((#) (NameT n)) (candidates ts) @ [[]]"
| "candidates (KeyT k v # ts) =
     map ((#) (KeyT k v)) (candidates ts) @ map ((#) (KeyT k wildCard)) (candidates ts) @ [[]]"

definition strongest :: "Action set \<Rightarrow> Action" where
  "strongest as = (if ACTION_DENY \<in> as then ACTION_DENY
                   else if ACTION_PERMIT \<in> as then ACTION_PERMIT else ACTION_UNSPECIFIED)"

definition userActions ::
  "AuthorizationRule list \<Rightarrow> string \<Rightarrow> Mode \<Rightarrow> tok list \<Rightarrow> Action set" where
  "userActions rs user mode p =
     rule_action ` {r \<in> set rs. toks (rule_path r) = p \<and> rule_mode r = mode \<and> rule_principal r = PUser user}"

definition inGroup :: "PathzGroup list \<Rightarrow> string \<Rightarrow> string \<Rightarrow> bool" where
  "inGroup gp g user \<longleftrightarrow> (\<exists>x \<in> set gp. group_name x = g \<and> user \<in> set (group_users x))"

definition groupActions ::
  "AuthorizationRule list \<Rightarrow> PathzGroup list \<Rightarrow> string \<Rightarrow> Mode \<Rightarrow> tok list \<Rightarrow> Action set" where
  "groupActions rs gp user mode p =
     rule_action ` {r \<in> set rs. toks (rule_path r) = p \<and> rule_mode r = mode \<and>
                      (\<exists>g. rule_principal r = PGroup g \<and> inGroup gp g user)}"

definition pathDecision ::
  "AuthorizationPolicy \<Rightarrow> string \<Rightarrow> Mode \<Rightarrow> tok list \<Rightarrow> Action" where
  "pathDecision pol user mode p =
     (let a = strongest (userActions (policy_rules pol) user mode p) in
      if a \<noteq> ACTION_UNSPECIFIED then a
      else strongest (groupActions (policy_rules pol) (policy_groups pol) user mode p))"

definition authz_spec ::
  "AuthorizationPolicy \<Rightarrow> string \<Rightarrow> Mode \<Rightarrow> tok list \<Rightarrow> Action" where
  "authz_spec pol user mode ts =
     (case find (\<lambda>p. pathDecision pol user mode p \<noteq> ACTION_UNSPECIFIED) (candidates ts) of
        None \<Rightarrow> ACTION_UNSPECIFIED
      | Some p \<Rightarrow> pathDecision pol user mode p)"

text \<open>Rules the specification covers: named keys, and an action of the protocol.\<close>

definition valid_rule :: "AuthorizationRule \<Rightarrow> bool" where
  "valid_rule r \<longleftrightarrow>
     (\<forall>e \<in> set (rule_path r). '''' \<notin> fst ` set (elem_key e)) \<and>
     rule_action r \<in> {ACTION_UNSPECIFIED, ACTION_DENY, ACTION_PERMIT}"

section \<open>The tree along tokens\<close>

fun child :: "gnmiAuthzNode \<Rightarrow> tok \<Rightarrow> gnmiAuthzNode option" where
  "child n (NameT s) = map_of (node_nameNext n) s"
| "child n (KeyT k v) = (if node_key n = k then map_of (node_keyNext n) v else None)"

fun nodeAt :: "gnmiAuthzNode \<Rightarrow> tok list \<Rightarrow> gnmiAuthzNode option" where
  "nodeAt n [] = Some n"
| "nodeAt n (t # ts) = (case child n t of None \<Rightarrow> None | Some c \<Rightarrow> nodeAt c ts)"

fun walk ::
  "(permission gomap \<Rightarrow> permission gomap) \<Rightarrow> stringSet gomap \<Rightarrow> string \<Rightarrow> Mode \<Rightarrow> gnmiAuthzNode \<Rightarrow> tok list \<Rightarrow> Result"
where
  "walk rng gs user mode n [] = nodeResult rng gs user mode n"
| "walk rng gs user mode n (NameT s # ts) =
     (let r = (case child n (NameT s) of None \<Rightarrow> unspecified | Some c \<Rightarrow> walk rng gs user mode c ts)
      in if decided r then r else nodeResult rng gs user mode n)"
| "walk rng gs user mode n (KeyT k v # ts) =
     (let r1 = (case child n (KeyT k v) of None \<Rightarrow> unspecified | Some c \<Rightarrow> walk rng gs user mode c ts) in
      if decided r1 then r1
      else
        (let r2 = (case child n (KeyT k wildCard) of
                     None \<Rightarrow> unspecified | Some c \<Rightarrow> walk rng gs user mode c ts)
         in if decided r2 then r2 else nodeResult rng gs user mode n))"

text \<open>The tokens still to walk when \<open>authorize\<close> or \<open>insertPath\<close> is at the given indices.\<close>

definition pending :: "PathElem list \<Rightarrow> nat \<Rightarrow> string list \<Rightarrow> nat \<Rightarrow> tok list" where
  "pending path nameIdx keys keyIdx =
     (if keys = [] then toks (drop nameIdx path)
      else keyToks (elem_key (path ! nameIdx)) (drop keyIdx keys) @ toks (drop (Suc nameIdx) path))"

definition indices_ok :: "PathElem list \<Rightarrow> nat \<Rightarrow> string list \<Rightarrow> nat \<Rightarrow> bool" where
  "indices_ok path nameIdx keys keyIdx \<longleftrightarrow>
     keys = [] \<or>
     nameIdx < length path \<and> keyIdx < length keys \<and> keys = sorted_keys (elem_key (path ! nameIdx))"

fun ins :: "AuthorizationRule \<Rightarrow> tok list \<Rightarrow> gnmiAuthzNode \<Rightarrow> pathz_error + gnmiAuthzNode" where
  "ins r [] n = insertLeaf r n"
| "ins r (NameT s # ts) (Node us grps rl nameNext key keyNext) =
     (case ins r ts (childOrNew nameNext s) of
        Inl e \<Rightarrow> Inl e
      | Inr c \<Rightarrow> Inr (Node us grps rl (AList.update s c nameNext) key keyNext))"
| "ins r (KeyT k v # ts) (Node us grps rl nameNext key keyNext) =
     (if key \<noteq> '''' \<and> key \<noteq> k then Inl (KeyMismatch key)
      else
        (case ins r ts (childOrNew keyNext v) of
           Inl e \<Rightarrow> Inl e
         | Inr c \<Rightarrow> Inr (Node us grps rl nameNext k (AList.update v c keyNext))))"

section \<open>Indices and tokens\<close>

lemma not_decided_unspecified [simp]: "\<not> decided unspecified"
  by (simp add: decided_def unspecified_def)

lemma sorted_keys_lookup:
  "j < length (sorted_keys m) \<Longrightarrow> \<exists>v. map_of m (sorted_keys m ! j) = Some v"
  using nth_mem [of j "sorted_keys m"] by (auto intro: in_map_of_Some)

lemma pending_start [simp]: "pending path 0 [] j = toks path"
  by (simp add: pending_def)

lemma pending_end: "length path \<le> i \<Longrightarrow> indices_ok path i ks j \<Longrightarrow> pending path i ks j = []"
  by (auto simp: pending_def indices_ok_def)

lemma pending_name:
  assumes "i < length path"
  shows "pending path i [] j =
     NameT (elem_name (path ! i)) #
     (if elem_key (path ! i) = [] then pending path (i + 1) [] 0
      else pending path i (sorted_keys (elem_key (path ! i))) 0)"
  using assms by (simp add: pending_def toks_drop elemToks_def)

lemma pending_key:
  assumes "keys \<noteq> []" and "indices_ok path i keys j"
  shows "pending path i keys j =
     KeyT (keys ! j) (the (map_of (elem_key (path ! i)) (keys ! j))) #
     (if j + 1 = length keys then pending path (i + 1) [] 0 else pending path i keys (j + 1))"
proof -
  from assms have "drop j keys = keys ! j # drop (Suc j) keys"
    by (auto simp: indices_ok_def Cons_nth_drop_Suc)
  with assms show ?thesis by (simp add: pending_def)
qed

lemma indices_ok_Nil [simp]: "indices_ok path i [] j"
  by (simp add: indices_ok_def)

lemma indices_ok_name:
  "i < length path \<Longrightarrow> elem_key (path ! i) \<noteq> [] \<Longrightarrow>
   indices_ok path i (sorted_keys (elem_key (path ! i))) 0"
  by (auto simp: indices_ok_def)

lemma indices_ok_key:
  "indices_ok path i keys j \<Longrightarrow> keys \<noteq> [] \<Longrightarrow> j + 1 \<noteq> length keys \<Longrightarrow> indices_ok path i keys (j + 1)"
  by (auto simp: indices_ok_def)

lemma authorize_walk:
  "indices_ok path i keys j \<Longrightarrow>
   authorize rng (Some n) user path mode i keys j gs =
   walk rng gs user mode n (pending path i keys j)"
proof (induction "length (pending path i keys j)" arbitrary: n i keys j rule: less_induct)
  case less
  note unfold = authorize.simps(2) [of rng n user path mode i keys j gs]
  show ?case
  proof (cases "length path \<le> i")
    case True
    with less.prems show ?thesis by (simp add: unfold pending_end)
  next
    case in_path: False
    show ?thesis
    proof (cases "keys = []")
      case name: True
      let ?ks = "elem_key (path ! i)"
      let ?rest = "if ?ks = [] then pending path (i + 1) [] 0 else pending path i (sorted_keys ?ks) 0"
      have p: "pending path i keys j = NameT (elem_name (path ! i)) # ?rest"
        using in_path name pending_name by simp
      have "(if ?ks = [] then authorize rng (Some c) user path mode (i + 1) [] 0 gs
             else authorize rng (Some c) user path mode i (sorted_keys ?ks) 0 gs) =
            walk rng gs user mode c ?rest" for c
        using less.hyps [of "i + 1" "[]" 0 c] less.hyps [of i "sorted_keys ?ks" 0 c] p in_path indices_ok_name
        by auto
      then show ?thesis
        using in_path name unfolding unfold p
        by (cases "?ks = []") (simp_all add: Let_def split: option.split)
    next
      case key: False
      with less.prems have j: "j < length keys" and keys: "keys = sorted_keys (elem_key (path ! i))"
        by (auto simp: indices_ok_def)
      obtain v where v: "map_of (elem_key (path ! i)) (keys ! j) = Some v"
        using j keys sorted_keys_lookup by metis
      let ?rest = "if j + 1 = length keys then pending path (i + 1) [] 0 else pending path i keys (j + 1)"
      have p: "pending path i keys j = KeyT (keys ! j) v # ?rest"
        using pending_key [OF key less.prems] v by simp
      have "authorize rng (Some c) user path mode (if j + 1 = length keys then i + 1 else i)
              (if j + 1 = length keys then [] else keys) (if j + 1 = length keys then 0 else j + 1) gs =
            walk rng gs user mode c ?rest" for c
        using less.hyps [of "i + 1" "[]" 0 c] less.hyps [of i keys "j + 1" c] p
          indices_ok_key [OF less.prems key]
        by auto
      then show ?thesis
        using in_path key j v unfolding unfold p
        by (cases "j + 1 = length keys") (simp_all add: Let_def split: option.split)
    qed
  qed
qed

lemma insertPath_ins:
  "indices_ok (rule_path r) i keys j \<Longrightarrow>
   insertPath r i keys j (Some n) = ins r (pending (rule_path r) i keys j) n"
proof (induction "length (pending (rule_path r) i keys j)" arbitrary: n i keys j rule: less_induct)
  case less
  obtain us grps rl nameNext k keyNext where n: "n = Node us grps rl nameNext k keyNext"
    by (cases n)
  let ?path = "rule_path r"
  note unfold = insertPath.simps(2) [of r i keys j us grps rl nameNext k keyNext]
  show ?case
  proof (cases "length ?path \<le> i")
    case True
    with less.prems show ?thesis by (simp add: n unfold pending_end)
  next
    case in_path: False
    show ?thesis
    proof (cases "keys = []")
      case name: True
      let ?ks = "elem_key (?path ! i)"
      let ?rest = "if ?ks = [] then pending ?path (i + 1) [] 0 else pending ?path i (sorted_keys ?ks) 0"
      have p: "pending ?path i keys j = NameT (elem_name (?path ! i)) # ?rest"
        using in_path name pending_name by simp
      have "insertPath r (if ?ks = [] then i + 1 else i) (if ?ks = [] then [] else sorted_keys ?ks) 0 (Some c)
            = ins r ?rest c" for c
        using less.hyps [of "i + 1" "[]" 0 c] less.hyps [of i "sorted_keys ?ks" 0 c] p in_path indices_ok_name
        by auto
      then show ?thesis
        using in_path name unfolding n unfold p
        by (cases "?ks = []") (simp_all add: Let_def)
    next
      case key: False
      with less.prems have j: "j < length keys" and keys: "keys = sorted_keys (elem_key (?path ! i))"
        by (auto simp: indices_ok_def)
      obtain v where v: "map_of (elem_key (?path ! i)) (keys ! j) = Some v"
        using j keys sorted_keys_lookup by metis
      let ?rest = "if j + 1 = length keys then pending ?path (i + 1) [] 0 else pending ?path i keys (j + 1)"
      have p: "pending ?path i keys j = KeyT (keys ! j) v # ?rest"
        using pending_key [OF key less.prems] v by simp
      have "insertPath r (if j + 1 = length keys then i + 1 else i)
              (if j + 1 = length keys then [] else keys) (if j + 1 = length keys then 0 else j + 1) (Some c)
            = ins r ?rest c" for c
        using less.hyps [of "i + 1" "[]" 0 c] less.hyps [of i keys "j + 1" c] p
          indices_ok_key [OF less.prems key]
        by auto
      then show ?thesis
        using in_path key j v unfolding n unfold p
        by (cases "j + 1 = length keys") (simp_all add: Let_def)
    qed
  qed
qed

section \<open>What a walk returns\<close>

text \<open>What the node of a path says; a path without a node says nothing.\<close>

definition resultAt ::
  "(permission gomap \<Rightarrow> permission gomap) \<Rightarrow> stringSet gomap \<Rightarrow> string \<Rightarrow> Mode \<Rightarrow> gnmiAuthzNode \<Rightarrow> tok list \<Rightarrow> Result"
where
  "resultAt rng gs user mode n p =
     (case nodeAt n p of None \<Rightarrow> unspecified | Some m \<Rightarrow> nodeResult rng gs user mode m)"

lemma resultAt_Nil [simp]: "resultAt rng gs user mode n [] = nodeResult rng gs user mode n"
  by (simp add: resultAt_def)

lemma resultAt_Cons [simp]:
  "resultAt rng gs user mode n (t # p) =
     (case child n t of None \<Rightarrow> unspecified | Some c \<Rightarrow> resultAt rng gs user mode c p)"
  by (simp add: resultAt_def split: option.split)

lemma find_append: "find P (xs @ ys) = (case find P xs of None \<Rightarrow> find P ys | Some x \<Rightarrow> Some x)"
  by (induction xs) auto

lemma find_map: "find P (map f xs) = map_option f (find (P \<circ> f) xs)"
  by (induction xs) auto

lemma find_False: "find (\<lambda>x. False) xs = None"
  by (induction xs) auto

lemma find_Some_holds: "find P xs = Some x \<Longrightarrow> P x \<and> x \<in> set xs"
  by (induction xs) (auto split: if_splits)

lemma candidates_nonempty: "[] \<in> set (candidates ts)"
  by (induction ts rule: candidates.induct) auto

lemma none_decided:
  "find (\<lambda>p. decided (resultAt rng gs user mode n p)) (candidates ts) = None \<Longrightarrow>
   \<not> decided (nodeResult rng gs user mode n)"
  using candidates_nonempty [of ts] by (auto simp: find_None_iff)

text \<open>
  A walk returns the result of the first candidate path that decides. When none does, it returns
  what the node it started from says.
\<close>

lemma walk_first:
  "walk rng gs user mode n ts =
     (case find (\<lambda>p. decided (resultAt rng gs user mode n p)) (candidates ts) of
        None \<Rightarrow> nodeResult rng gs user mode n
      | Some p \<Rightarrow> resultAt rng gs user mode n p)"
proof (induction ts arbitrary: n rule: candidates.induct)
  case 1
  show ?case by simp
next
  case (2 s ts)
  show ?case
  proof (cases "child n (NameT s)")
    case None
    then show ?thesis by (simp add: find_append find_map comp_def find_False)
  next
    case (Some c)
    with 2 [of c] show ?thesis
      by (auto simp: find_append find_map comp_def Let_def dest: find_Some_holds none_decided split: option.splits)
  qed
next
  case (3 k v ts)
  show ?case
  proof (cases "child n (KeyT k v)")
    case None
    then show ?thesis
      using 3
      by (cases "child n (KeyT k wildCard)")
        (auto simp: find_append find_map comp_def Let_def find_False dest: find_Some_holds none_decided split: option.splits)
  next
    case (Some c)
    then show ?thesis
      using 3
      by (cases "child n (KeyT k wildCard)")
        (auto simp: find_append find_map comp_def Let_def find_False dest: find_Some_holds none_decided split: option.splits)
  qed
qed

section \<open>What the nodes hold\<close>

type_synonym info = "permission gomap \<times> permission gomap \<times> string"

definition infoAt :: "gnmiAuthzNode \<Rightarrow> tok list \<Rightarrow> info" where
  "infoAt n p =
     (case nodeAt n p of None \<Rightarrow> ([], [], '''')
      | Some m \<Rightarrow> (node_users m, node_groups m, node_rule m))"

text \<open>A node that has keyed successors has the name of their key.\<close>

definition keyed_ok :: "gnmiAuthzNode \<Rightarrow> bool" where
  "keyed_ok n \<longleftrightarrow> (\<forall>p m. nodeAt n p = Some m \<longrightarrow> node_key m = '''' \<longrightarrow> node_keyNext m = [])"

fun leafInfo :: "AuthorizationRule \<Rightarrow> info \<Rightarrow> info" where
  "leafInfo r (us, grps, rl) =
     (case rule_principal r of
        PUser u \<Rightarrow> (addPermission r u us, grps, printPath (rule_path r))
      | PGroup g \<Rightarrow> (us, addPermission r g grps, printPath (rule_path r))
      | PUnset \<Rightarrow> (us, grps, rl))"

lemma infoAt_Nil [simp]: "infoAt (Node us grps rl nn k kn) [] = (us, grps, rl)"
  by (simp add: infoAt_def)

lemma infoAt_Cons [simp]:
  "infoAt n (t # p) = (case child n t of None \<Rightarrow> ([], [], '''') | Some c \<Rightarrow> infoAt c p)"
  by (simp add: infoAt_def split: option.split)

lemma child_emptyNode [simp]: "child emptyNode t = None"
  by (cases t) (simp_all add: emptyNode_def)

lemma infoAt_emptyNode [simp]: "infoAt emptyNode p = ([], [], '''')"
proof (cases p)
  case Nil
  then show ?thesis by (simp add: emptyNode_def)
qed simp

lemma keyed_ok_iff:
  "keyed_ok n \<longleftrightarrow>
     (node_key n = '''' \<longrightarrow> node_keyNext n = []) \<and> (\<forall>t c. child n t = Some c \<longrightarrow> keyed_ok c)"
  (is "_ \<longleftrightarrow> ?here \<and> ?below")
proof
  assume n: "keyed_ok n"
  have "nodeAt n [] = Some n" by simp
  with n have ?here unfolding keyed_ok_def by blast
  moreover have ?below
  proof (intro allI impI)
    fix t c
    assume "child n t = Some c"
    then have "nodeAt n (t # p) = nodeAt c p" for p by simp
    with n show "keyed_ok c" unfolding keyed_ok_def by metis
  qed
  ultimately show "?here \<and> ?below" ..
next
  assume *: "?here \<and> ?below"
  show "keyed_ok n"
    unfolding keyed_ok_def
  proof (intro allI impI)
    fix p m
    assume "nodeAt n p = Some m" "node_key m = ''''"
    with * show "node_keyNext m = []"
      by (cases p) (auto simp: keyed_ok_def split: option.splits)
  qed
qed

lemma keyed_ok_emptyNode [simp]: "keyed_ok emptyNode"
proof -
  have "node_keyNext emptyNode = []" by (simp add: emptyNode_def)
  then show ?thesis by (subst keyed_ok_iff) simp
qed

lemma keyed_ok_child: "keyed_ok n \<Longrightarrow> child n t = Some c \<Longrightarrow> keyed_ok c"
  by (subst (asm) keyed_ok_iff) blast

lemma keyed_ok_childOrNew_name [intro]: "keyed_ok (Node us grps rl nn k kn) \<Longrightarrow> keyed_ok (childOrNew nn s)"
  using keyed_ok_child [of "Node us grps rl nn k kn" "NameT s"]
  by (auto simp: childOrNew_def split: option.split)

lemma keyed_ok_childOrNew_key [intro]: "keyed_ok (Node us grps rl nn k kn) \<Longrightarrow> keyed_ok (childOrNew kn v)"
  using keyed_ok_child [of "Node us grps rl nn k kn" "KeyT k v"]
  by (auto simp: childOrNew_def split: option.split)

lemma infoAt_childOrNew:
  "infoAt (childOrNew m v) p = (case map_of m v of None \<Rightarrow> ([], [], '''') | Some c \<Rightarrow> infoAt c p)"
  by (simp add: childOrNew_def split: option.split)

lemma insertLeaf_infoAt:
  assumes "insertLeaf r n = Inr n'" and "keyed_ok n"
  shows "keyed_ok n' \<and> (\<forall>p. infoAt n' p = (if p = [] then leafInfo r (infoAt n p) else infoAt n p))"
proof -
  obtain us grps rl nn k kn where n: "n = Node us grps rl nn k kn" by (cases n)
  from assms(1) obtain us' grps' rl' where n': "n' = Node us' grps' rl' nn k kn"
    and leaf: "leafInfo r (us, grps, rl) = (us', grps', rl')"
    by (auto simp: n insertLeaf_def Let_def split: Principal.splits)
  have same: "child n' t = child n t" for t by (cases t) (simp_all add: n n')
  have "keyed_ok n'"
    unfolding keyed_ok_iff [of n'] same
    using assms(2) unfolding keyed_ok_iff [of n] by (simp add: n n')
  moreover have "infoAt n' p = (if p = [] then leafInfo r (infoAt n p) else infoAt n p)" for p
    using leaf same by (cases p) (simp_all add: n n' del: leafInfo.simps child.simps)
  ultimately show ?thesis by blast
qed

lemma ins_infoAt:
  assumes "ins r ts n = Inr n'" and "keyed_ok n" and "\<forall>k v. KeyT k v \<in> set ts \<longrightarrow> k \<noteq> ''''"
  shows "keyed_ok n' \<and> (\<forall>p. infoAt n' p = (if p = ts then leafInfo r (infoAt n p) else infoAt n p))"
  using assms
proof (induction r ts n arbitrary: n' rule: ins.induct)
  case (1 r n)
  then show ?case using insertLeaf_infoAt by simp
next
  case (2 r s ts us grps rl nn k kn)
  let ?n = "Node us grps rl nn k kn"
  from "2.prems"(1) obtain c where c: "ins r ts (childOrNew nn s) = Inr c"
    and n': "n' = Node us grps rl (AList.update s c nn) k kn"
    by (auto split: sum.splits)
  from "2.IH" [OF c keyed_ok_childOrNew_name [OF "2.prems"(2)]] "2.prems"(3) have IH: "keyed_ok c"
    "\<And>p. infoAt c p = (if p = ts then leafInfo r (infoAt (childOrNew nn s) p) else infoAt (childOrNew nn s) p)"
    by auto
  have ch: "child n' t = (if t = NameT s then Some c else child ?n t)" for t
    by (cases t) (auto simp: n')
  have "keyed_ok n'"
    unfolding keyed_ok_iff [of n'] ch
    using "2.prems"(2) IH(1) unfolding keyed_ok_iff [of ?n] by (auto simp: n')
  moreover have "infoAt n' p = (if p = NameT s # ts then leafInfo r (infoAt ?n p) else infoAt ?n p)" for p
    using IH(2) ch
    by (cases p) (auto simp: n' infoAt_childOrNew simp del: leafInfo.simps split: option.splits)
  ultimately show ?case by blast
next
  case (3 r k v ts us grps rl nn key kn)
  let ?n = "Node us grps rl nn key kn"
  from "3.prems"(1) obtain c where c: "ins r ts (childOrNew kn v) = Inr c"
    and n': "n' = Node us grps rl nn k (AList.update v c kn)" and key: "key = '''' \<or> key = k"
    by (auto split: sum.splits if_splits)
  from "3.prems"(2,3) key have kn: "key \<noteq> k \<Longrightarrow> kn = []" and k: "k \<noteq> ''''"
    by (auto simp: keyed_ok_iff [of ?n])
  from "3.prems"(3) have ts: "\<forall>k v. KeyT k v \<in> set ts \<longrightarrow> k \<noteq> []"
    by (simp only: list.set insert_iff) blast
  from "3.IH" [OF _ c keyed_ok_childOrNew_key [OF "3.prems"(2)] ts] key have IH: "keyed_ok c"
    "\<And>p. infoAt c p = (if p = ts then leafInfo r (infoAt (childOrNew kn v) p) else infoAt (childOrNew kn v) p)"
    by auto
  have ch: "child n' t = (if t = KeyT k v then Some c else child ?n t)" for t
    using kn by (cases t) (auto simp: n')
  have "keyed_ok n'"
    unfolding keyed_ok_iff [of n'] ch
    using "3.prems"(2) IH(1) k unfolding keyed_ok_iff [of ?n] by (auto simp: n')
  moreover have "infoAt n' p = (if p = KeyT k v # ts then leafInfo r (infoAt ?n p) else infoAt ?n p)" for p
    using IH(2) ch kn key
    by (cases p) (auto simp: n' infoAt_childOrNew simp del: leafInfo.simps split: option.splits)
  ultimately show ?case by blast
qed

section \<open>What the rules put into the nodes\<close>

definition rulesInfo :: "AuthorizationRule list \<Rightarrow> info" where
  "rulesInfo qs = foldl (\<lambda>i r. leafInfo r i) ([], [], '''') qs"

definition permAction :: "Mode \<Rightarrow> permission \<Rightarrow> Action" where
  "permAction mode p = ra_action (if mode = MODE_READ then perm_read p else perm_write p)"

definition actionOf :: "Mode \<Rightarrow> permission gomap \<Rightarrow> string \<Rightarrow> Action" where
  "actionOf mode m who =
     (case map_of m who of None \<Rightarrow> ACTION_UNSPECIFIED | Some p \<Rightarrow> permAction mode p)"

definition named_action :: "Action \<Rightarrow> bool" where
  "named_action a \<longleftrightarrow> a \<in> {ACTION_UNSPECIFIED, ACTION_DENY, ACTION_PERMIT}"

definition access_mode :: "Mode \<Rightarrow> bool" where
  "access_mode mode \<longleftrightarrow> mode = MODE_READ \<or> mode = MODE_WRITE"

lemma strongest_empty [simp]: "strongest {} = ACTION_UNSPECIFIED"
  by (simp add: strongest_def)

lemma strongest_insert:
  "named_action a \<Longrightarrow>
   strongest (insert a S) =
     (if a = ACTION_UNSPECIFIED \<or> strongest S = ACTION_DENY then strongest S else a)"
  by (auto simp: strongest_def named_action_def)

lemma strongest_insert_unspecified [simp]: "strongest (insert ACTION_UNSPECIFIED S) = strongest S"
  by (simp add: strongest_def)

lemma strongest_cong:
  assumes "A \<subseteq> B" and "B \<subseteq> insert ACTION_UNSPECIFIED A"
  shows "strongest A = strongest B"
proof -
  have "a \<in> A \<longleftrightarrow> a \<in> B" if "a \<noteq> ACTION_UNSPECIFIED" for a using assms that by blast
  then show ?thesis by (simp add: strongest_def)
qed

lemma named_action_strongest [simp]: "named_action (strongest S)"
  by (simp add: strongest_def named_action_def)

lemma valid_rule_action [simp]: "valid_rule r \<Longrightarrow> named_action (rule_action r)"
  by (simp add: valid_rule_def named_action_def)

lemma insertRules_infoAt:
  assumes "insertRules rs n = Inr n'" and "keyed_ok n" and "\<forall>r \<in> set rs. valid_rule r"
  shows "infoAt n' p = foldl (\<lambda>i r. leafInfo r i) (infoAt n p) (filter (\<lambda>r. toks (rule_path r) = p) rs)"
  using assms
proof (induction rs arbitrary: n)
  case (Cons r rs)
  from Cons.prems(1) obtain m where m: "insertPath r 0 [] 0 (Some n) = Inr m"
    and n': "insertRules rs m = Inr n'"
    by (auto split: sum.splits)
  from m have "ins r (toks (rule_path r)) n = Inr m"
    by (simp add: insertPath_ins)
  moreover have "\<forall>k v. KeyT k v \<in> set (toks (rule_path r)) \<longrightarrow> k \<noteq> ''''"
    using Cons.prems(3) by (force simp: valid_rule_def toks_def elemToks_def keyToks_def)
  ultimately have "keyed_ok m"
    and "\<And>p. infoAt m p = (if p = toks (rule_path r) then leafInfo r (infoAt n p) else infoAt n p)"
    using ins_infoAt Cons.prems(2) by blast+
  with Cons.IH [OF n'] Cons.prems(3) show ?case by auto
qed simp

lemma createPolicies_infoAt:
  "createPolicies rs = Inr root \<Longrightarrow> \<forall>r \<in> set rs. valid_rule r \<Longrightarrow>
   infoAt root p = rulesInfo (filter (\<lambda>r. toks (rule_path r) = p) rs)"
  using insertRules_infoAt [of rs emptyNode root p]
  by (auto simp: createPolicies_def rulesInfo_def split: if_splits)

lemma actionOf_addPermission:
  assumes "access_mode mode"
  shows "actionOf mode (addPermission r who m) w =
     (if w = who \<and> rule_mode r = mode \<and> rule_action r \<noteq> ACTION_UNSPECIFIED
         \<and> actionOf mode m w \<noteq> ACTION_DENY
      then rule_action r else actionOf mode m w)"
  using assms
  by (auto simp: actionOf_def addPermission_def updatePermission_def updateRuleAction_def
      permAction_def access_mode_def noPermission_def Let_def split: option.splits Mode.splits)

lemma addPermission_nonempty [simp]: "addPermission r who m \<noteq> []"
  by (simp add: addPermission_def Let_def update_nonempty)

lemma gomap_ok_addPermission [simp]: "gomap_ok m \<Longrightarrow> gomap_ok (addPermission r who m)"
  by (simp add: addPermission_def Let_def gomap_ok_update)

lemma printPath_nonempty [simp]: "printPath p \<noteq> ''''"
  by (simp add: printPath_def Let_def)

lemma rulesInfo_snoc [simp]: "rulesInfo (qs @ [r]) = leafInfo r (rulesInfo qs)"
  by (simp add: rulesInfo_def)

definition ruleActions :: "AuthorizationRule list \<Rightarrow> Mode \<Rightarrow> Principal \<Rightarrow> Action set" where
  "ruleActions qs mode pr = rule_action ` {r \<in> set qs. rule_mode r = mode \<and> rule_principal r = pr}"

lemma ruleActions_snoc:
  "ruleActions (qs @ [r]) mode pr =
     (if rule_mode r = mode \<and> rule_principal r = pr then insert (rule_action r) (ruleActions qs mode pr)
      else ruleActions qs mode pr)"
  by (auto simp: ruleActions_def)

lemma rulesInfo_ok:
  "rulesInfo qs = (us, grps, rl) \<Longrightarrow>
   gomap_ok us \<and> gomap_ok grps \<and> (us \<noteq> [] \<or> grps \<noteq> [] \<longrightarrow> rl \<noteq> '''')"
proof (induction qs arbitrary: us grps rl rule: rev_induct)
  case Nil
  then show ?case by (simp add: rulesInfo_def)
next
  case (snoc r qs)
  obtain us' grps' rl' where i: "rulesInfo qs = (us', grps', rl')" by (cases "rulesInfo qs") auto
  with snoc.IH [OF i] snoc.prems show ?case
    by (auto split: Principal.splits)
qed

lemma rulesInfo_actions:
  assumes "access_mode mode"
  shows "rulesInfo qs = (us, grps, rl) \<Longrightarrow> \<forall>r \<in> set qs. valid_rule r \<Longrightarrow>
     actionOf mode us u = strongest (ruleActions qs mode (PUser u)) \<and>
     actionOf mode grps g = strongest (ruleActions qs mode (PGroup g))"
proof (induction qs arbitrary: us grps rl rule: rev_induct)
  case Nil
  then show ?case by (simp add: rulesInfo_def actionOf_def ruleActions_def)
next
  case (snoc r qs)
  obtain us' grps' rl' where i: "rulesInfo qs = (us', grps', rl')" by (cases "rulesInfo qs") auto
  from snoc.prems have "valid_rule r" by simp
  with snoc.IH [OF i] snoc.prems i assms show ?case
    by (auto simp: ruleActions_snoc strongest_insert actionOf_addPermission split: Principal.splits)
qed

section \<open>What a node says\<close>

definition memberOf :: "stringSet gomap \<Rightarrow> string \<Rightarrow> string \<Rightarrow> bool" where
  "memberOf gs g user \<longleftrightarrow> (\<exists>ms. map_of gs g = Some ms \<and> map_of ms user \<noteq> None)"

lemma updateResult_ignoring_access:
  "access_mode mode \<Longrightarrow>
   updateResult_ignoring r p mode rule =
     (if res_Action r = ACTION_DENY \<or> permAction mode p = ACTION_UNSPECIFIED then r
      else \<lparr>res_Action = permAction mode p,
            res_RuleId = ra_ruleId (if mode = MODE_READ then perm_read p else perm_write p),
            res_MatchedRule = rule\<rparr>)"
  by (auto simp: updateResult_ignoring_def updateResult_def access_mode_def permAction_def)

text \<open>The groups of a node give their strongest action; the first that denies ends the search.\<close>

lemma checkGroups_action:
  assumes "access_mode mode" and "rule \<noteq> ''''"
  shows "\<forall>(g, p) \<in> set gl. named_action (permAction mode p) \<Longrightarrow>
     res_Action ret \<in> {ACTION_UNSPECIFIED, ACTION_PERMIT} \<Longrightarrow>
     (res_Action ret \<noteq> ACTION_UNSPECIFIED \<longrightarrow> res_MatchedRule ret \<noteq> '''') \<Longrightarrow>
     res_Action (checkGroups gs user mode rule gl ret) =
       strongest (insert (res_Action ret) {permAction mode p | g p. (g, p) \<in> set gl \<and> memberOf gs g user}) \<and>
     (res_Action (checkGroups gs user mode rule gl ret) \<noteq> ACTION_UNSPECIFIED \<longrightarrow>
      res_MatchedRule (checkGroups gs user mode rule gl ret) \<noteq> '''')"
proof (induction gl arbitrary: ret)
  case Nil
  then show ?case by (auto simp: strongest_def)
next
  case (Cons gp rest)
  obtain grp perm where gp [simp]: "gp = (grp, perm)" by (cases gp)
  let ?S = "{permAction mode p | g p. (g, p) \<in> set rest \<and> memberOf gs g user}"
  let ?T = "{permAction mode p | g p. (g, p) \<in> set ((grp, perm) # rest) \<and> memberOf gs g user}"
  have T: "?T = (if memberOf gs grp user then insert (permAction mode perm) ?S else ?S)"
    by auto
  show ?case
  proof (cases "memberOf gs grp user")
    case False
    with Cons.IH Cons.prems T show ?thesis
      by (auto simp: memberOf_def split: option.splits)
  next
    case True
    then obtain ms x where ms: "map_of gs grp = Some ms" "map_of ms user = Some x"
      by (auto simp: memberOf_def)
    let ?ret = "updateResult_ignoring ret perm mode rule"
    from Cons.prems have named: "named_action (permAction mode perm)" by auto
    have ret: "?ret = (if permAction mode perm = ACTION_UNSPECIFIED then ret
                       else \<lparr>res_Action = permAction mode perm,
                             res_RuleId = ra_ruleId (if mode = MODE_READ then perm_read perm else perm_write perm),
                             res_MatchedRule = rule\<rparr>)"
      using Cons.prems assms updateResult_ignoring_access by auto
    show ?thesis
    proof (cases "permAction mode perm = ACTION_DENY")
      case deny: True
      with ms ret assms True T show ?thesis by (simp add: strongest_def)
    next
      case False
      with named ret Cons.prems have not_deny: "res_Action ?ret \<in> {ACTION_UNSPECIFIED, ACTION_PERMIT}"
        "res_Action ?ret \<noteq> ACTION_UNSPECIFIED \<longrightarrow> res_MatchedRule ?ret \<noteq> ''''"
        using assms by (auto simp: named_action_def)
      then have "checkGroups gs user mode rule ((grp, perm) # rest) ret = checkGroups gs user mode rule rest ?ret"
        using ms by auto
      moreover have "strongest (insert (res_Action ?ret) ?S) = strongest (insert (res_Action ret) ?T)"
        using True False named ret Cons.prems(2) unfolding T
        by (auto simp: strongest_def named_action_def)
      ultimately show ?thesis
        using Cons.IH [of ?ret] not_deny Cons.prems(1) by simp
    qed
  qed
qed

lemma nodeResult_user:
  assumes "access_mode mode" and "node_users n \<noteq> [] \<longrightarrow> node_rule n \<noteq> []"
    and "actionOf mode (node_users n) user \<noteq> ACTION_UNSPECIFIED"
  shows "res_Action (nodeResult rng gs user mode n) = actionOf mode (node_users n) user"
    and "res_MatchedRule (nodeResult rng gs user mode n) \<noteq> []"
  using assms
  by (auto simp: nodeResult_def actionOf_def updateResult_ignoring_access unspecified_def Let_def
      split: option.splits)

lemma nodeResult_groups:
  assumes "access_mode mode" and "actionOf mode (node_users n) user = ACTION_UNSPECIFIED"
  shows "nodeResult rng gs user mode n =
         checkGroups gs user mode (node_rule n) (rng (node_groups n)) unspecified"
proof -
  have "res_Action unspecified = ACTION_UNSPECIFIED" by (simp add: unspecified_def)
  with assms show ?thesis
    by (auto simp: nodeResult_def actionOf_def updateResult_ignoring_access Let_def split: option.splits)
qed

lemma nodeResult_action:
  assumes mode: "access_mode mode" and rng: "range_order rng"
    and grps: "gomap_ok (node_groups n)"
    and rule: "node_users n \<noteq> [] \<or> node_groups n \<noteq> [] \<longrightarrow> node_rule n \<noteq> ''''"
    and named: "\<And>g. named_action (actionOf mode (node_groups n) g)"
  shows "res_Action (nodeResult rng gs user mode n) =
      (if actionOf mode (node_users n) user \<noteq> ACTION_UNSPECIFIED then actionOf mode (node_users n) user
       else strongest {actionOf mode (node_groups n) g | g. memberOf gs g user})"
    and "decided (nodeResult rng gs user mode n) \<longleftrightarrow>
         res_Action (nodeResult rng gs user mode n) \<noteq> ACTION_UNSPECIFIED"
proof -
  let ?gl = "rng (node_groups n)"
  have gl: "set ?gl = set (node_groups n)" using rng by (rule range_orderD)
  have act: "(g, p) \<in> set ?gl \<longleftrightarrow> map_of (node_groups n) g = Some p" for g p
    using gl grps by simp
  have empty: "node_groups n = [] \<Longrightarrow> ?gl = []" using gl by simp
  have named': "\<forall>(g, p) \<in> set ?gl. named_action (permAction mode p)"
    using named act by (auto simp: actionOf_def split: option.splits)
      (metis option.simps(5))
  have same: "strongest {permAction mode p | g p. (g, p) \<in> set ?gl \<and> memberOf gs g user} =
        strongest {actionOf mode (node_groups n) g | g. memberOf gs g user}"
    (is "strongest ?A = strongest ?B")
  proof -
    have "?A \<subseteq> ?B" using act by (force simp: actionOf_def)
    moreover have "?B \<subseteq> insert ACTION_UNSPECIFIED ?A"
    proof
      fix a
      assume "a \<in> ?B"
      then obtain g where "a = actionOf mode (node_groups n) g" "memberOf gs g user" by blast
      then show "a \<in> insert ACTION_UNSPECIFIED ?A"
        using act by (cases "map_of (node_groups n) g") (auto simp: actionOf_def)
    qed
    ultimately show ?thesis by (rule strongest_cong)
  qed
  have groups: "res_Action (checkGroups gs user mode (node_rule n) ?gl unspecified) =
        strongest {actionOf mode (node_groups n) g | g. memberOf gs g user} \<and>
      (res_Action (checkGroups gs user mode (node_rule n) ?gl unspecified) \<noteq> ACTION_UNSPECIFIED \<longrightarrow>
       res_MatchedRule (checkGroups gs user mode (node_rule n) ?gl unspecified) \<noteq> '''')"
  proof (cases "node_groups n = []")
    case True
    then show ?thesis using empty same by (auto simp: unspecified_def strongest_def)
  next
    case False
    with rule have "node_rule n \<noteq> ''''" by blast
    from checkGroups_action [OF mode this named', of unspecified gs user]
    show ?thesis by (simp add: unspecified_def same)
  qed
  show "res_Action (nodeResult rng gs user mode n) =
      (if actionOf mode (node_users n) user \<noteq> ACTION_UNSPECIFIED then actionOf mode (node_users n) user
       else strongest {actionOf mode (node_groups n) g | g. memberOf gs g user})"
    using nodeResult_user [OF mode _, of n user rng gs] nodeResult_groups [OF mode, of n user rng gs] groups rule
    by auto
  show "decided (nodeResult rng gs user mode n) \<longleftrightarrow>
         res_Action (nodeResult rng gs user mode n) \<noteq> ACTION_UNSPECIFIED"
    using nodeResult_user [OF mode _, of n user rng gs] nodeResult_groups [OF mode, of n user rng gs] groups rule
    unfolding decided_def by (cases "actionOf mode (node_users n) user = ACTION_UNSPECIFIED") auto
qed

section \<open>Groups\<close>

lemma memberOf_addMember: "memberOf (addMember g gs x) g' u \<longleftrightarrow> memberOf gs g' u \<or> g' = g \<and> u = x"
  by (auto simp: memberOf_def addMember_def split: option.splits)

lemma memberOf_addMembers:
  "memberOf (foldl (addMember g) gs us) g' u \<longleftrightarrow> memberOf gs g' u \<or> g' = g \<and> u \<in> set us"
  by (induction us arbitrary: gs) (auto simp: memberOf_addMember)

lemma memberOf_addGroup:
  "memberOf (addGroup gs x) g u \<longleftrightarrow> memberOf gs g u \<or> g = group_name x \<and> u \<in> set (group_users x)"
proof -
  have "memberOf (case map_of gs h of None \<Rightarrow> AList.update h [] gs | Some _ \<Rightarrow> gs) g u \<longleftrightarrow> memberOf gs g u" for h
    by (auto simp: memberOf_def split: option.splits)
  then show ?thesis by (simp add: addGroup_def memberOf_addMembers)
qed

lemma memberOf_createGroups: "memberOf (createGroups gp) g u \<longleftrightarrow> inGroup gp g u"
proof (induction gp rule: rev_induct)
  case Nil
  then show ?case by (simp add: createGroups_def inGroup_def memberOf_def)
next
  case (snoc x gp)
  then show ?case by (auto simp: createGroups_def memberOf_addGroup inGroup_def)
qed

section \<open>The tree implements the specification\<close>

lemma ruleActions_path:
  "ruleActions (filter (\<lambda>r. toks (rule_path r) = p) rs) mode (PUser user) = userActions rs user mode p"
  by (auto simp: ruleActions_def userActions_def)

lemma strongest_eq_DENY: "ACTION_DENY = strongest S \<longleftrightarrow> ACTION_DENY \<in> S"
  by (simp add: strongest_def)

lemma strongest_eq_PERMIT: "ACTION_PERMIT = strongest S \<longleftrightarrow> ACTION_PERMIT \<in> S \<and> ACTION_DENY \<notin> S"
  by (simp add: strongest_def)

lemma strongest_union: "strongest (\<Union>i \<in> I. A i) = strongest {strongest (A i) | i. i \<in> I}"
proof -
  have deny: "ACTION_DENY \<in> {strongest (A i) | i. i \<in> I} \<longleftrightarrow> ACTION_DENY \<in> (\<Union>i \<in> I. A i)"
    by (simp add: strongest_eq_DENY) blast
  have "ACTION_PERMIT \<in> {strongest (A i) | i. i \<in> I} \<longleftrightarrow> ACTION_PERMIT \<in> (\<Union>i \<in> I. A i)"
    if "ACTION_DENY \<notin> (\<Union>i \<in> I. A i)"
    using that by (simp add: strongest_eq_PERMIT) blast
  with deny show ?thesis
    unfolding strongest_def [of "\<Union>i \<in> I. A i"] strongest_def [of "{strongest (A i) | i. i \<in> I}"]
    by simp
qed

lemma resultAt_pathDecision:
  assumes root: "createPolicies (policy_rules pol) = Inr root"
    and valid: "\<forall>r \<in> set (policy_rules pol). valid_rule r"
    and mode: "access_mode mode" and rng: "range_order rng"
  shows "res_Action (resultAt rng (createGroups (policy_groups pol)) user mode root p) =
           pathDecision pol user mode p"
    and "decided (resultAt rng (createGroups (policy_groups pol)) user mode root p) \<longleftrightarrow>
           pathDecision pol user mode p \<noteq> ACTION_UNSPECIFIED"
proof -
  let ?rs = "policy_rules pol"
  let ?gs = "createGroups (policy_groups pol)"
  let ?qs = "filter (\<lambda>r. toks (rule_path r) = p) ?rs"
  obtain us grps rl where i: "rulesInfo ?qs = (us, grps, rl)" by (cases "rulesInfo ?qs") auto
  define n where "n = Node us grps rl [] '''' []"
  have info: "infoAt root p = (us, grps, rl)"
    using createPolicies_infoAt [OF root valid] i by simp
  have acts: "actionOf mode us user = strongest (userActions ?rs user mode p)"
    "\<And>g. actionOf mode grps g = strongest (ruleActions ?qs mode (PGroup g))"
    using rulesInfo_actions [OF mode i] valid by (auto simp: ruleActions_path)
  have "{actionOf mode grps g | g. memberOf ?gs g user} =
        {strongest (ruleActions ?qs mode (PGroup g)) | g. g \<in> {g. inGroup (policy_groups pol) g user}}"
    by (simp add: acts(2) memberOf_createGroups)
  moreover have "(\<Union>g \<in> {g. inGroup (policy_groups pol) g user}. ruleActions ?qs mode (PGroup g)) =
        groupActions ?rs (policy_groups pol) user mode p"
    by (auto simp: ruleActions_def groupActions_def)
  ultimately have groups: "strongest {actionOf mode grps g | g. memberOf ?gs g user} =
        strongest (groupActions ?rs (policy_groups pol) user mode p)"
    using strongest_union [of "\<lambda>g. ruleActions ?qs mode (PGroup g)" "{g. inGroup (policy_groups pol) g user}"]
    by simp
  have same: "resultAt rng ?gs user mode root p = nodeResult rng ?gs user mode n"
  proof (cases "nodeAt root p")
    case None
    with info have "us = []" "grps = []" by (auto simp: infoAt_def)
    moreover have "rng [] = []" using rng by (metis range_orderD set_empty)
    ultimately show ?thesis using None by (simp add: resultAt_def nodeResult_def n_def Let_def)
  next
    case (Some m)
    with info have fields: "node_users m = node_users n" "node_groups m = node_groups n"
      "node_rule m = node_rule n"
      by (auto simp: infoAt_def n_def)
    have "nodeResult rng ?gs user mode m = nodeResult rng ?gs user mode n"
      unfolding nodeResult_def fields by (rule refl)
    with Some show ?thesis by (simp add: resultAt_def)
  qed
  have ok: "gomap_ok (node_groups n)"
    "node_users n \<noteq> [] \<or> node_groups n \<noteq> [] \<longrightarrow> node_rule n \<noteq> ''''"
    "\<And>g. named_action (actionOf mode (node_groups n) g)"
    using rulesInfo_ok [OF i] acts(2) by (simp_all add: n_def)
  from nodeResult_action [OF mode rng ok, of ?gs user] acts(1) groups
  show "res_Action (resultAt rng ?gs user mode root p) = pathDecision pol user mode p"
    and "decided (resultAt rng ?gs user mode root p) \<longleftrightarrow> pathDecision pol user mode p \<noteq> ACTION_UNSPECIFIED"
    unfolding same by (simp_all add: n_def pathDecision_def Let_def)
qed

lemma authorize_spec:
  assumes "createPolicies (policy_rules pol) = Inr root"
    and "\<forall>r \<in> set (policy_rules pol). valid_rule r"
    and "access_mode mode" and "range_order rng"
  shows "res_Action (authorize rng (Some root) user path mode 0 [] 0 (createGroups (policy_groups pol))) =
         authz_spec pol user mode (toks path)"
proof -
  note at = resultAt_pathDecision [OF assms, of user]
  have "[] \<in> set (candidates (toks path))" by (rule candidates_nonempty)
  then show ?thesis
    using at(1) [of "[]"]
    by (auto simp: authorize_walk walk_first authz_spec_def at find_None_iff dest: find_Some_holds split: option.split)
qed

section \<open>Which rules can decide a request\<close>

fun tokMatches :: "tok \<Rightarrow> tok \<Rightarrow> bool" where
  "tokMatches (NameT a) (NameT b) \<longleftrightarrow> a = b"
| "tokMatches (KeyT k v) (KeyT k' v') \<longleftrightarrow> k = k' \<and> (v = v' \<or> v = wildCard)"
| "tokMatches _ _ \<longleftrightarrow> False"

text \<open>A rule path covers a request when its tokens match the first tokens of the request.\<close>

fun covers :: "tok list \<Rightarrow> tok list \<Rightarrow> bool" where
  "covers [] ts \<longleftrightarrow> True"
| "covers (p # ps) [] \<longleftrightarrow> False"
| "covers (p # ps) (t # ts) \<longleftrightarrow> tokMatches p t \<and> covers ps ts"

lemma set_candidates: "set (candidates ts) = {p. covers p ts}"
proof (induction ts rule: candidates.induct)
  case 1
  show ?case by (auto elim: covers.elims)
next
  case (2 n ts)
  show ?case
  proof (rule set_eqI)
    fix p
    show "p \<in> set (candidates (NameT n # ts)) \<longleftrightarrow> p \<in> {p. covers p (NameT n # ts)}"
      using 2 by (cases p; cases "hd p") auto
  qed
next
  case (3 k v ts)
  show ?case
  proof (rule set_eqI)
    fix p
    show "p \<in> set (candidates (KeyT k v # ts)) \<longleftrightarrow> p \<in> {p. covers p (KeyT k v # ts)}"
      using 3 by (cases p; cases "hd p") auto
  qed
qed

lemma UpdatePolicyFromProto_ok:
  assumes "UpdatePolicyFromProto pr pol = (None, pr')"
  obtains p root where "pol = Some p" "createPolicies (policy_rules p) = Inr root"
    "pr' = \<lparr>proc_groups = createGroups (policy_groups p), proc_root = Some root, proc_policy = Some p\<rparr>"
  using assms
  by (cases pol; cases pr)
    (auto simp: UpdatePolicyFromProto_def createNewPolicy_def createPolicies_def Let_def
      split: sum.splits if_splits)

lemma AuthorizeWithPrefix_spec:
  assumes "UpdatePolicyFromProto pr (Some pol) = (None, pr')"
    and "\<forall>r \<in> set (policy_rules pol). valid_rule r" and "access_mode mode" and "range_order rng"
  shows "map_sum id res_Action (AuthorizeWithPrefix rng (Some pr') user prefix path mode) =
         Inr (authz_spec pol user mode (toks (prefix @ path)))"
proof -
  obtain root where root: "createPolicies (policy_rules pol) = Inr root"
    and pr': "pr' = \<lparr>proc_groups = createGroups (policy_groups pol), proc_root = Some root, proc_policy = Some pol\<rparr>"
    using assms(1) by (rule UpdatePolicyFromProto_ok) auto
  from assms(3) have "mode \<noteq> MODE_UNSPECIFIED" by (auto simp: access_mode_def)
  with authorize_spec [OF root assms(2-4), of user "prefix @ path"] show ?thesis
    by (simp add: AuthorizeWithPrefix_def pr')
qed

lemma authz_spec_find:
  "authz_spec pol user mode ts \<noteq> ACTION_UNSPECIFIED \<Longrightarrow>
   \<exists>p. covers p ts \<and> pathDecision pol user mode p = authz_spec pol user mode ts"
  using set_candidates [of ts]
  by (auto simp: authz_spec_def dest!: find_Some_holds split: option.splits)

subsection \<open>A small policy\<close>

text \<open>Bob may read every interface; the group \<open>ops\<close>, which bob is in, may not read interface \<open>e0\<close>.\<close>

definition elemEx :: "string \<Rightarrow> string gomap \<Rightarrow> PathElem" where
  "elemEx n k = \<lparr>elem_name = n, elem_key = k\<rparr>"

definition policyEx :: AuthorizationPolicy where
  "policyEx = \<lparr>policy_rules =
     [\<lparr>rule_id = ''r1'', rule_principal = PUser ''bob'',
       rule_path = [elemEx ''if'' [(''name'', ''*'')]], rule_action = ACTION_PERMIT, rule_mode = MODE_READ\<rparr>,
      \<lparr>rule_id = ''r2'', rule_principal = PGroup ''ops'',
       rule_path = [elemEx ''if'' [(''name'', ''e0'')]], rule_action = ACTION_DENY, rule_mode = MODE_READ\<rparr>],
     policy_groups = [\<lparr>group_name = ''ops'', group_users = [''bob'', ''eve'']\<rparr>]\<rparr>"

definition requestEx :: "PathElem list" where
  "requestEx = [elemEx ''if'' [(''name'', ''e0'')]]"

definition requestEx2 :: "PathElem list" where
  "requestEx2 = [elemEx ''if'' [(''name'', ''e1'')], elemEx ''mtu'' []]"

definition processorEx :: GnmiAuthzProcessor where
  "processorEx = snd (UpdatePolicyFromProto newProcessor (Some policyEx))"

definition policyEx' :: AuthorizationPolicy where
  "policyEx' = policyEx\<lparr>policy_rules := rev (policy_rules policyEx)\<rparr>"

definition processorEx' :: GnmiAuthzProcessor where
  "processorEx' = snd (UpdatePolicyFromProto newProcessor (Some policyEx'))"

lemma processorEx_loaded: "UpdatePolicyFromProto newProcessor (Some policyEx) = (None, processorEx)"
proof -
  have "fst (UpdatePolicyFromProto newProcessor (Some policyEx)) = None" by code_simp
  then show ?thesis by (simp add: processorEx_def prod_eq_iff)
qed

lemma processorEx'_loaded: "UpdatePolicyFromProto newProcessor (Some policyEx') = (None, processorEx')"
proof -
  have "fst (UpdatePolicyFromProto newProcessor (Some policyEx')) = None" by code_simp
  then show ?thesis by (simp add: processorEx'_def prod_eq_iff)
qed

lemma policyEx_valid: "\<forall>r \<in> set (policy_rules policyEx). valid_rule r"
  by (simp add: policyEx_def elemEx_def valid_rule_def)

lemma processorEx_denies:
  "map_sum id res_Action (AuthorizeWithPrefix rev (Some processorEx) ''bob'' [] requestEx MODE_READ) =
     Inr ACTION_DENY"
  by code_simp

lemma processorEx_permits:
  "AuthorizeWithPrefix rev (Some processorEx) ''bob'' [] requestEx2 MODE_READ =
     Inr \<lparr>res_Action = ACTION_PERMIT, res_RuleId = ''r1'', res_MatchedRule = ''/if[name=*]''\<rparr>"
  by code_simp

section \<open>Properties\<close>

text \<open>
  C1. After a policy was loaded, an access decision is the one the policy's rules give: of all rule
  paths that cover the request (the request's prefix and path), exact key values before wild cards
  and longer paths before shorter ones, the first path whose rules say anything for the user decides;
  there, a rule that denies beats one that permits, and rules for the user beat rules for the
  user's groups. The answer does not depend on the order in which Go visits the groups of a node.
\<close>

theorem authorize_refines_policy:
  assumes "UpdatePolicyFromProto pr (Some pol) = (None, pr')"
    and "\<forall>r \<in> set (policy_rules pol). valid_rule r"
    and "access_mode mode" and "range_order rng"
  shows "map_sum id res_Action (AuthorizeWithPrefix rng (Some pr') user prefix path mode) =
         Inr (authz_spec pol user mode (toks (prefix @ path)))"
  using assms by (rule AuthorizeWithPrefix_spec)

theorem authorize_refines_policy_witness:
  "range_order rev \<and> access_mode MODE_READ \<and>
   map_sum id res_Action (AuthorizeWithPrefix rev (Some processorEx) ''bob'' [] requestEx MODE_READ) =
     Inr (authz_spec policyEx ''bob'' MODE_READ (toks ([] @ requestEx))) \<and>
   map_sum id res_Action (AuthorizeWithPrefix rev (Some processorEx) ''bob'' [] requestEx MODE_READ) =
     Inr ACTION_DENY"
  using authorize_refines_policy [OF processorEx_loaded policyEx_valid, of MODE_READ rev "''bob''" "[]" requestEx]
    processorEx_denies by (simp add: access_mode_def)

text \<open>
  C2. A request is permitted only if the loaded policy has a rule that permits: a rule with the
  request's mode, for the user or for a group the user is in, whose path covers the request.
\<close>

theorem permit_has_rule:
  assumes "UpdatePolicyFromProto pr (Some pol) = (None, pr')"
    and "\<forall>r \<in> set (policy_rules pol). valid_rule r"
    and "access_mode mode" and "range_order rng"
    and "AuthorizeWithPrefix rng (Some pr') user prefix path mode = Inr res"
    and "res_Action res = ACTION_PERMIT"
  shows "\<exists>r \<in> set (policy_rules pol). rule_action r = ACTION_PERMIT \<and> rule_mode r = mode \<and>
           covers (toks (rule_path r)) (toks (prefix @ path)) \<and>
           (rule_principal r = PUser user \<or>
            (\<exists>g. rule_principal r = PGroup g \<and> inGroup (policy_groups pol) g user))"
proof -
  let ?ts = "toks (prefix @ path)"
  have "authz_spec pol user mode ?ts = ACTION_PERMIT"
    using AuthorizeWithPrefix_spec [OF assms(1-4), of user prefix path] assms(5,6) by simp
  then obtain p where p: "covers p ?ts" "pathDecision pol user mode p = ACTION_PERMIT"
    using authz_spec_find [of pol user mode ?ts] by auto
  then have "ACTION_PERMIT \<in> userActions (policy_rules pol) user mode p \<or>
    ACTION_PERMIT \<in> groupActions (policy_rules pol) (policy_groups pol) user mode p"
    by (auto simp: pathDecision_def strongest_def Let_def split: if_splits)
  with p(1) show ?thesis
    by (force simp: userActions_def groupActions_def)
qed

theorem permit_has_rule_witness:
  "\<exists>r \<in> set (policy_rules policyEx). rule_action r = ACTION_PERMIT \<and> rule_mode r = MODE_READ \<and>
     covers (toks (rule_path r)) (toks ([] @ requestEx2)) \<and>
     (rule_principal r = PUser ''bob'' \<or>
      (\<exists>g. rule_principal r = PGroup g \<and> inGroup (policy_groups policyEx) g ''bob''))"
  by (rule permit_has_rule [OF processorEx_loaded policyEx_valid _ _ processorEx_permits])
    (simp_all add: access_mode_def)

text \<open>
  C3. The answer depends on which rules a policy holds, not on the order they are listed in: two
  accepted policies with the same rules and groups give every request the same action.
\<close>

theorem rule_order_irrelevant:
  assumes "UpdatePolicyFromProto pr1 (Some pol1) = (None, pr1')"
    and "UpdatePolicyFromProto pr2 (Some pol2) = (None, pr2')"
    and "set (policy_rules pol1) = set (policy_rules pol2)"
    and "policy_groups pol1 = policy_groups pol2"
    and "\<forall>r \<in> set (policy_rules pol1). valid_rule r"
    and "access_mode mode" and "range_order rng1" and "range_order rng2"
  shows "map_sum id res_Action (AuthorizeWithPrefix rng1 (Some pr1') user prefix path mode) =
         map_sum id res_Action (AuthorizeWithPrefix rng2 (Some pr2') user prefix path mode)"
proof -
  have "pathDecision pol1 user mode = pathDecision pol2 user mode"
    using assms(3,4) by (simp add: fun_eq_iff pathDecision_def userActions_def groupActions_def)
  then have "authz_spec pol1 user mode ts = authz_spec pol2 user mode ts" for ts
    by (simp add: authz_spec_def cong: option.case_cong)
  then show ?thesis
    using assms(3,5) AuthorizeWithPrefix_spec [OF assms(1) assms(5,6,7)]
      AuthorizeWithPrefix_spec [OF assms(2) _ assms(6,8)] by simp
qed

theorem rule_order_irrelevant_witness:
  "map_sum id res_Action (AuthorizeWithPrefix rev (Some processorEx) ''bob'' [] requestEx MODE_READ) =
   map_sum id res_Action (AuthorizeWithPrefix (\<lambda>x. x) (Some processorEx') ''bob'' [] requestEx MODE_READ)"
  by (rule rule_order_irrelevant [OF processorEx_loaded processorEx'_loaded _ _ policyEx_valid])
    (simp_all add: policyEx'_def access_mode_def)

text \<open>
  C4. Loading a policy is all or nothing: an error leaves the processor as it was, and success
  replaces the old policy entirely, so that every later decision is the one a fresh processor
  with the new policy would give. Without a policy, or with a policy that has no rules, loading fails.
\<close>

theorem update_policy_atomic:
  "(case UpdatePolicyFromProto pr pol of
      (Some e, pr') \<Rightarrow> pr' = pr
    | (None, pr') \<Rightarrow>
        GetPolicy (Some pr') = pol \<and> (\<exists>p. pol = Some p \<and> policy_rules p \<noteq> []) \<and>
        UpdatePolicyFromProto newProcessor pol = (None, pr'))"
proof (cases "UpdatePolicyFromProto pr pol")
  case (Pair e pr')
  show ?thesis
  proof (cases e)
    case None
    with Pair obtain p root where *: "pol = Some p" "createPolicies (policy_rules p) = Inr root"
      "pr' = \<lparr>proc_groups = createGroups (policy_groups p), proc_root = Some root, proc_policy = Some p\<rparr>"
      by (auto elim: UpdatePolicyFromProto_ok)
    moreover from *(2) have "policy_rules p \<noteq> []" by (auto simp: createPolicies_def)
    ultimately show ?thesis using Pair None
      by (simp add: GetPolicy_def UpdatePolicyFromProto_def createNewPolicy_def newProcessor_def)
  next
    case (Some x)
    with Pair show ?thesis
      by (auto simp: UpdatePolicyFromProto_def split: sum.splits)
  qed
qed

end
