(* ===== verification/Auth.thy ===== *)
theory Auth
  imports Gnmi_Prelude
begin

text \<open>
  Authentication and role checks of the gNMI server: the enabled mechanisms (\<open>AuthTypes\<close>) and
  \<open>authenticate\<close> of \<open>src/gnmi_server/server.go\<close>, password, JWT and certificate authentication of
  \<open>basicAuth.go\<close>, \<open>jwtAuth.go\<close>, \<open>pamAuth.go\<close> and \<open>clientCertAuth.go\<close>, with the cache of
  certificate revocation lists (CRLs).

  The per-request \<open>RequestContext\<close> is shared by pointer between the mechanisms that are tried, so
  each of them takes the \<open>AuthInfo\<close> it finds and returns the one it leaves. What the host answers is
  the record \<open>auth_env\<close>: the user and group database, the SSH login, the JWT library, the entries of
  CONFIG\_DB, the download of a CRL and the library that checks certificates against CRLs. gRPC metadata
  maps a key to its first value; a key that is present has one. The clock is read once per request.
\<close>

section \<open>Enabled mechanisms\<close>

type_synonym AuthTypes = "bool gomap"

definition isSet :: "AuthTypes \<Rightarrow> string \<Rightarrow> bool" where
  "isSet i m \<longleftrightarrow> map_of i m = Some True"

definition AuthTypes_Any :: "AuthTypes \<Rightarrow> bool" where
  "AuthTypes_Any i = (if isSet i ''none'' then False else list_ex snd i)"

definition AuthTypes_Enabled :: "AuthTypes \<Rightarrow> string \<Rightarrow> bool" where
  "AuthTypes_Enabled i mode = (if isSet i ''none'' then False else isSet i mode)"

definition AuthTypes_String :: "(AuthTypes \<Rightarrow> AuthTypes) \<Rightarrow> AuthTypes \<Rightarrow> string" where
  "AuthTypes_String rng i =
     (if isSet i ''none'' then []
      else concat (map (\<lambda>(key, value). if value then key @ '' '' else []) (rng i)))"

text \<open>Both loops stop at the first unknown mode; what they set before stays set.\<close>

fun setModes :: "AuthTypes \<Rightarrow> string list \<Rightarrow> bool \<times> AuthTypes" where
  "setModes i [] = (True, i)"
| "setModes i (m # ms) =
     (let m' = trimBlanks m in
      if m' = ''none'' \<or> m' = '''' then (True, AList.update ''none'' True i)
      else (case map_of i m' of
              None \<Rightarrow> (False, i)
            | Some _ \<Rightarrow> setModes (AList.update m' True i) ms))"

definition AuthTypes_Set :: "AuthTypes \<Rightarrow> string \<Rightarrow> bool \<times> AuthTypes" where
  "AuthTypes_Set i mode = setModes i (split (CHR '','') mode)"

fun unsetModes :: "AuthTypes \<Rightarrow> string list \<Rightarrow> bool \<times> AuthTypes" where
  "unsetModes i [] = (True, i)"
| "unsetModes i (m # ms) =
     (let m' = trimBlanks m in
      case map_of i m' of
        None \<Rightarrow> (False, i)
      | Some _ \<Rightarrow> unsetModes (AList.update m' False i) ms)"

definition AuthTypes_Unset :: "AuthTypes \<Rightarrow> string \<Rightarrow> bool \<times> AuthTypes" where
  "AuthTypes_Unset i mode = unsetModes i (split (CHR '','') mode)"

section \<open>Requests and the host\<close>

record AuthInfo =
  auth_User :: string
  auth_Enabled :: bool
  auth_Roles :: "string list"

record Certificate =
  cert_CommonName :: string
  cert_CRLDistributionPoints :: "string list"

record TLSInfo =
  tls_VerifiedChains :: "Certificate list list"
  tls_SPIFFEPath :: "string option"

record Peer =
  peer_isUnix :: bool
  peer_TLS :: "TLSInfo option"

record ReqCtx =
  ctx_peer :: "Peer option"
  ctx_md :: "string gomap option"

record Crl =
  crl_thisUpdate :: int
  crl_nextUpdate :: int
  crl_bytes :: string

record auth_env =
  env_groupIds :: "string \<Rightarrow> string list option"
  env_groupName :: "string \<Rightarrow> string option"
  env_ssh :: "string \<Rightarrow> string \<Rightarrow> bool"
  env_jwt :: "string \<Rightarrow> (bool \<times> string \<times> string list) option"
  env_entry :: "string \<Rightarrow> string \<Rightarrow> string gomap"
  env_download :: "string \<Rightarrow> string option"
  env_revoked :: "Certificate list list \<Rightarrow> string list \<Rightarrow> bool"

record AuthConfig =
  cfg_UserAuth :: AuthTypes
  cfg_ConfigTableName :: string
  cfg_EnableCrl :: bool

datatype auth_error =
    AStatus code string
  | NoAccess string string
  | NoWriteAccess string

section \<open>Users and roles\<close>

fun groupNames :: "auth_env \<Rightarrow> string list \<Rightarrow> string list option" where
  "groupNames env [] = Some []"
| "groupNames env (gid # gids) =
     (case env_groupName env gid of
        None \<Rightarrow> None
      | Some n \<Rightarrow> map_option ((#) n) (groupNames env gids))"

definition GetUserRoles :: "auth_env \<Rightarrow> string \<Rightarrow> string list option" where
  "GetUserRoles env usr =
     (case env_groupIds env usr of None \<Rightarrow> None | Some gids \<Rightarrow> groupNames env gids)"

definition PopulateAuthStruct ::
  "auth_env \<Rightarrow> string \<Rightarrow> AuthInfo \<Rightarrow> string list \<Rightarrow> bool \<times> AuthInfo" where
  "PopulateAuthStruct env username auth r =
     (if r = [] then
        (case GetUserRoles env username of
           None \<Rightarrow> (False, auth)
         | Some roles \<Rightarrow> (True, auth\<lparr>auth_Roles := roles, auth_User := username\<rparr>))
      else (True, auth\<lparr>auth_Roles := r, auth_User := username\<rparr>))"

definition BasicAuthenAndAuthor ::
  "auth_env \<Rightarrow> ReqCtx \<Rightarrow> AuthInfo \<Rightarrow> auth_error option \<times> AuthInfo" where
  "BasicAuthenAndAuthor env ctx auth =
     (case ctx_md ctx of
        None \<Rightarrow> (Some (AStatus Unknown ''Invalid context''), auth)
      | Some md \<Rightarrow>
          (case map_of md ''username'' of
             None \<Rightarrow> (Some (AStatus Unauthenticated ''No Username Provided''), auth)
           | Some username \<Rightarrow>
               (case map_of md ''password'' of
                  None \<Rightarrow> (Some (AStatus Unauthenticated ''No Password Provided''), auth)
                | Some passwd \<Rightarrow>
                    (case PopulateAuthStruct env username auth [] of
                       (False, auth') \<Rightarrow> (Some (AStatus Unauthenticated ''''), auth')
                     | (True, auth') \<Rightarrow>
                         if env_ssh env username passwd then (None, auth')
                         else (Some (AStatus PermissionDenied ''Invalid Password''), auth')))))"

definition JwtAuthenAndAuthor ::
  "auth_env \<Rightarrow> ReqCtx \<Rightarrow> AuthInfo \<Rightarrow> auth_error option \<times> AuthInfo" where
  "JwtAuthenAndAuthor env ctx auth =
     (case ctx_md ctx of
        None \<Rightarrow> (Some (AStatus Unknown ''Invalid context''), auth)
      | Some md \<Rightarrow>
          (case map_of md ''access_token'' of
             None \<Rightarrow> (Some (AStatus Unauthenticated ''No JWT Token Provided''), auth)
           | Some token \<Rightarrow>
               (case env_jwt env token of
                  None \<Rightarrow> (Some (AStatus Unauthenticated ''parse error''), auth)
                | Some (valid, username, roles) \<Rightarrow>
                    if \<not> valid then (Some (AStatus Unauthenticated ''Invalid JWT Token''), auth)
                    else
                      (case PopulateAuthStruct env username auth roles of
                         (False, auth') \<Rightarrow> (Some (AStatus Unauthenticated ''''), auth')
                       | (True, auth') \<Rightarrow> (None, auth')))))"

text \<open>The roles are read from CONFIG\_DB; a missing entry leaves the roles that were there.\<close>

definition entryRoles :: "string gomap \<Rightarrow> string list \<Rightarrow> string list" where
  "entryRoles fvs old =
     (if fvs \<noteq> [] then
        (case map_of fvs ''role@'' of
           Some role \<Rightarrow> split (CHR '','') role
         | None \<Rightarrow> (case map_of fvs ''role'' of Some role \<Rightarrow> [role] | None \<Rightarrow> old))
      else old)"

definition PopulateAuthStructByCommonName ::
  "auth_env \<Rightarrow> string \<Rightarrow> AuthInfo \<Rightarrow> string \<Rightarrow> auth_error option \<times> AuthInfo" where
  "PopulateAuthStructByCommonName env cn auth table =
     (if table = '''' then (Some (AStatus Unauthenticated ''Service config table name should not be empty''), auth)
      else
        (let auth' = auth\<lparr>auth_Roles := entryRoles (env_entry env table cn) (auth_Roles auth)\<rparr> in
         if auth_Roles auth' = [] then (Some (AStatus Unauthenticated ''not a trusted cert common name''), auth')
         else (None, auth')))"

section \<open>The cache of revocation lists\<close>

text \<open>A nil map is \<^const>\<open>None\<close>. Times and durations are in the unit of the clock.\<close>

type_synonym CrlCache = "Crl gomap option"

definition DEFAULT_CRL_EXPIRE_DURATION :: int where
  "DEFAULT_CRL_EXPIRE_DURATION = 24 * 60 * 60 * 1000000000"

definition InitCrlCache :: "CrlCache \<Rightarrow> CrlCache" where
  "InitCrlCache c = (case c of None \<Rightarrow> Some [] | Some m \<Rightarrow> Some m)"

definition ReleaseCrlCache :: "CrlCache \<Rightarrow> CrlCache" where
  "ReleaseCrlCache c = map_option (\<lambda>m. []) c"

definition AppendCrlToCache :: "int \<Rightarrow> string \<Rightarrow> string \<Rightarrow> Crl gomap \<Rightarrow> Crl gomap" where
  "AppendCrlToCache now url rawCRL c =
     AList.update url \<lparr>crl_thisUpdate = now, crl_nextUpdate = now, crl_bytes = rawCRL\<rparr> c"

definition CrlExpired :: "int \<Rightarrow> int \<Rightarrow> Crl \<Rightarrow> bool" where
  "CrlExpired dur now crl \<longleftrightarrow> now > crl_thisUpdate crl + dur"

definition CrlNeedUpdate :: "int \<Rightarrow> Crl \<Rightarrow> bool" where
  "CrlNeedUpdate now crl \<longleftrightarrow> now > crl_nextUpdate crl"

definition RemoveExpiredCrl :: "int \<Rightarrow> int \<Rightarrow> Crl gomap \<Rightarrow> Crl gomap" where
  "RemoveExpiredCrl dur now c = filter (\<lambda>(url, crl). \<not> CrlExpired dur now crl) c"

definition SearchCrlCache :: "int \<Rightarrow> int \<Rightarrow> string \<Rightarrow> Crl gomap \<Rightarrow> Crl option \<times> Crl gomap" where
  "SearchCrlCache dur now url c =
     (case map_of c url of
        None \<Rightarrow> (None, c)
      | Some crl \<Rightarrow>
          if CrlExpired dur now crl then (None, AList.delete url c)
          else if CrlNeedUpdate now crl then (None, AList.delete url c)
          else (Some crl, c))"

definition TryDownload :: "auth_env \<Rightarrow> int \<Rightarrow> string \<Rightarrow> Crl gomap \<Rightarrow> bool \<times> Crl gomap" where
  "TryDownload env now url c =
     (case env_download env url of
        None \<Rightarrow> (False, c)
      | Some content \<Rightarrow> (True, AppendCrlToCache now url content c))"

fun DownloadNotCachedCrl ::
  "auth_env \<Rightarrow> int \<Rightarrow> int \<Rightarrow> string list \<Rightarrow> bool \<Rightarrow> Crl gomap \<Rightarrow> bool \<times> Crl gomap" where
  "DownloadNotCachedCrl env dur now [] avail c = (avail, c)"
| "DownloadNotCachedCrl env dur now (url # urls) avail c =
     (case SearchCrlCache dur now url c of
        (Some _, c') \<Rightarrow> DownloadNotCachedCrl env dur now urls True c'
      | (None, c') \<Rightarrow>
          (case TryDownload env now url c' of
             (downloaded, c'') \<Rightarrow> DownloadNotCachedCrl env dur now urls (avail \<or> downloaded) c''))"

text \<open>\<open>make([][]byte, 1)\<close> puts one empty element in front.\<close>

definition CreateStaticCRLProvider :: "int \<Rightarrow> int \<Rightarrow> Crl gomap \<Rightarrow> string list \<times> Crl gomap" where
  "CreateStaticCRLProvider dur now c =
     (let keep = RemoveExpiredCrl dur now c in ('''' # map (crl_bytes \<circ> snd) keep, keep))"

definition VerifyCertCrl ::
  "auth_env \<Rightarrow> int \<Rightarrow> int \<Rightarrow> Certificate list list \<Rightarrow> Certificate \<Rightarrow> CrlCache \<Rightarrow> auth_error option \<times> CrlCache"
where
  "VerifyCertCrl env dur now vchains leaf cache =
     (let c = (case InitCrlCache cache of None \<Rightarrow> [] | Some m \<Rightarrow> m);
          urls = cert_CRLDistributionPoints leaf
      in if urls = [] then (None, Some c)
         else
           (case DownloadNotCachedCrl env dur now urls False c of
              (avail, c') \<Rightarrow>
                if \<not> avail then (Some (AStatus Unauthenticated ''Can't download CRL and verify cert''), Some c')
                else
                  (case CreateStaticCRLProvider dur now c' of
                     (crls, c'') \<Rightarrow>
                       if env_revoked env vchains crls
                       then (Some (AStatus Unauthenticated ''Peer certificate revoked''), Some c'')
                       else (None, Some c''))))"

section \<open>Certificates\<close>

definition ClientCertAuthenAndAuthor ::
  "auth_env \<Rightarrow> int \<Rightarrow> int \<Rightarrow> ReqCtx \<Rightarrow> string \<Rightarrow> bool \<Rightarrow> AuthInfo \<Rightarrow> CrlCache
   \<Rightarrow> auth_error option \<times> AuthInfo \<times> CrlCache" where
  "ClientCertAuthenAndAuthor env dur now ctx table enableCrl auth cache =
     (case ctx_peer ctx of
        None \<Rightarrow> (Some (AStatus Unauthenticated ''no peer found''), auth, cache)
      | Some p \<Rightarrow>
          (case peer_TLS p of
             None \<Rightarrow> (Some (AStatus Unauthenticated ''unexpected peer transport credentials''), auth, cache)
           | Some tls \<Rightarrow>
               (case tls_VerifiedChains tls of
                  (leaf # rest) # vchains \<Rightarrow>
                    if cert_CommonName leaf = '''' then
                      (Some (AStatus Unauthenticated ''invalid username in certificate common name.''), auth, cache)
                    else
                      (let populated =
                             (if table \<noteq> '''' then
                                PopulateAuthStructByCommonName env (cert_CommonName leaf) auth table
                              else
                                (case PopulateAuthStruct env (cert_CommonName leaf) auth [] of
                                   (False, a) \<Rightarrow> (Some (AStatus Unauthenticated ''''), a)
                                 | (True, a) \<Rightarrow> (None, a)))
                       in case populated of
                            (Some e, auth') \<Rightarrow> (Some e, auth', cache)
                          | (None, auth') \<Rightarrow>
                              if enableCrl then
                                (case VerifyCertCrl env dur now (tls_VerifiedChains tls) leaf cache of
                                   (e, cache') \<Rightarrow> (e, auth', cache'))
                              else (None, auth', cache))
                | _ \<Rightarrow> (Some (AStatus Unauthenticated ''could not verify peer certificate''), auth, cache))))"

section \<open>\<open>authenticate\<close>\<close>

definition WriteAccessMode :: string where "WriteAccessMode = ''readwrite''"
definition ReadOnlyMode :: string where "ReadOnlyMode = ''readonly''"
definition NoAccessMode :: string where "NoAccessMode = ''noaccess''"

datatype role_outcome = RoleDenied string | RoleMatch | RoleNone

text \<open>What a role grants for a target: the rest of the role after the target and an underscore.\<close>

definition rolePostfix :: "string \<Rightarrow> string \<Rightarrow> string option" where
  "rolePostfix target role =
     (let r = trimSpace role in
      if hasPrefix r target then Some (trimPrefix (trimPrefix r target) ''_'') else None)"

fun checkRoles :: "string \<Rightarrow> bool \<Rightarrow> string list \<Rightarrow> role_outcome" where
  "checkRoles target writeAccess [] = RoleNone"
| "checkRoles target writeAccess (role # roles) =
     (case rolePostfix target role of
        None \<Rightarrow> checkRoles target writeAccess roles
      | Some postfix \<Rightarrow>
          if postfix = NoAccessMode then RoleDenied (trimSpace role)
          else if postfix = ReadOnlyMode then
            (if writeAccess then RoleDenied (trimSpace role) else RoleMatch)
          else if postfix = WriteAccessMode then RoleMatch
          else checkRoles target writeAccess roles)"

definition certAuth ::
  "auth_env \<Rightarrow> int \<Rightarrow> int \<Rightarrow> AuthConfig \<Rightarrow> ReqCtx \<Rightarrow> string \<Rightarrow> bool \<Rightarrow> AuthInfo \<Rightarrow> CrlCache
   \<Rightarrow> auth_error option \<times> AuthInfo \<times> CrlCache" where
  "certAuth env dur now config ctx target writeAccess auth cache =
     (case ClientCertAuthenAndAuthor env dur now ctx (cfg_ConfigTableName config) (cfg_EnableCrl config) auth cache of
        (Some e, auth', cache') \<Rightarrow> (Some (AStatus Unauthenticated ''Unauthenticated''), auth', cache')
      | (None, auth', cache') \<Rightarrow>
          if cfg_ConfigTableName config \<noteq> '''' then
            (case checkRoles (toLower target) writeAccess (auth_Roles auth') of
               RoleDenied role \<Rightarrow> (Some (NoAccess (toLower target) role), auth', cache')
             | RoleMatch \<Rightarrow> (None, auth', cache')
             | RoleNone \<Rightarrow>
                 if writeAccess then (Some (NoWriteAccess (toLower target)), auth', cache')
                 else (None, auth', cache'))
          else (None, auth', cache'))"

definition authenticate ::
  "auth_env \<Rightarrow> int \<Rightarrow> int \<Rightarrow> AuthConfig \<Rightarrow> ReqCtx \<Rightarrow> string \<Rightarrow> bool \<Rightarrow> AuthInfo \<Rightarrow> CrlCache
   \<Rightarrow> auth_error option \<times> AuthInfo \<times> CrlCache" where
  "authenticate env dur now config ctx target writeAccess auth cache =
     (if (case ctx_peer ctx of None \<Rightarrow> False | Some p \<Rightarrow> peer_isUnix p)
      then (None, auth\<lparr>auth_Enabled := False\<rparr>, cache)
      else if \<not> AuthTypes_Any (cfg_UserAuth config)
      then (None, auth\<lparr>auth_Enabled := False\<rparr>, cache)
      else
        (let auth0 = auth\<lparr>auth_Enabled := True\<rparr>;
             (ok1, auth1) =
               (if AuthTypes_Enabled (cfg_UserAuth config) ''password''
                then (case BasicAuthenAndAuthor env ctx auth0 of (e, a) \<Rightarrow> (e = None, a))
                else (False, auth0));
             (ok2, auth2) =
               (if \<not> ok1 \<and> AuthTypes_Enabled (cfg_UserAuth config) ''jwt''
                then (case JwtAuthenAndAuthor env ctx auth1 of (e, a) \<Rightarrow> (e = None, a))
                else (ok1, auth1))
         in if \<not> ok2 \<and> AuthTypes_Enabled (cfg_UserAuth config) ''cert''
            then certAuth env dur now config ctx target writeAccess auth2 cache
            else if \<not> ok2 then (Some (AStatus Unauthenticated ''Unauthenticated''), auth2, cache)
            else (None, auth2, cache)))"

section \<open>Lemmas\<close>

text \<open>The first role that says anything about the target.\<close>

definition governing :: "string \<Rightarrow> string list \<Rightarrow> string option" where
  "governing target roles =
     find (\<lambda>r. rolePostfix target r \<in> {Some NoAccessMode, Some ReadOnlyMode, Some WriteAccessMode}) roles"

lemma modes_distinct [simp]:
  "NoAccessMode \<noteq> WriteAccessMode" "ReadOnlyMode \<noteq> WriteAccessMode" "NoAccessMode \<noteq> ReadOnlyMode"
  "WriteAccessMode \<noteq> NoAccessMode" "WriteAccessMode \<noteq> ReadOnlyMode" "ReadOnlyMode \<noteq> NoAccessMode"
  by (simp_all add: NoAccessMode_def ReadOnlyMode_def WriteAccessMode_def)

lemma checkRoles_governing:
  "checkRoles target w roles =
     (case governing target roles of
        None \<Rightarrow> RoleNone
      | Some r \<Rightarrow>
          if rolePostfix target r = Some WriteAccessMode \<or> rolePostfix target r = Some ReadOnlyMode \<and> \<not> w
          then RoleMatch else RoleDenied (trimSpace r))"
  by (induction roles) (auto simp: governing_def split: option.splits)

lemma governing_in: "governing target roles = Some r \<Longrightarrow> r \<in> set roles"
  by (auto simp: governing_def find_Some_iff)

lemma BasicAuth_ok:
  "BasicAuthenAndAuthor env ctx auth = (None, auth') \<Longrightarrow>
   \<exists>md u p. ctx_md ctx = Some md \<and> map_of md ''username'' = Some u \<and> map_of md ''password'' = Some p \<and>
     env_ssh env u p"
  by (auto simp: BasicAuthenAndAuthor_def split: option.splits prod.splits bool.splits if_splits)

lemma JwtAuth_ok:
  "JwtAuthenAndAuthor env ctx auth = (None, auth') \<Longrightarrow>
   \<exists>md t u rs. ctx_md ctx = Some md \<and> map_of md ''access_token'' = Some t \<and> env_jwt env t = Some (True, u, rs)"
  by (auto simp: JwtAuthenAndAuthor_def split: option.splits prod.splits bool.splits if_splits)

lemma ClientCert_ok:
  "ClientCertAuthenAndAuthor env dur now ctx table crl auth cache = (None, auth', cache') \<Longrightarrow>
   \<exists>p tls leaf rest chs. ctx_peer ctx = Some p \<and> peer_TLS p = Some tls \<and>
     tls_VerifiedChains tls = (leaf # rest) # chs \<and> cert_CommonName leaf \<noteq> '''' \<and>
     (table \<noteq> '''' \<longrightarrow>
        auth_Roles auth' = entryRoles (env_entry env table (cert_CommonName leaf)) (auth_Roles auth) \<and>
        auth_Roles auth' \<noteq> [])"
  by (auto simp: ClientCertAuthenAndAuthor_def PopulateAuthStructByCommonName_def Let_def
      split: option.splits prod.splits bool.splits if_splits list.splits)

lemma certAuth_ok:
  assumes "certAuth env dur now config ctx target w auth cache = (None, auth', cache')"
  shows "ClientCertAuthenAndAuthor env dur now ctx (cfg_ConfigTableName config) (cfg_EnableCrl config) auth cache
           = (None, auth', cache')"
    and "cfg_ConfigTableName config \<noteq> '''' \<Longrightarrow>
         checkRoles (toLower target) w (auth_Roles auth') = RoleMatch \<or>
         checkRoles (toLower target) w (auth_Roles auth') = RoleNone \<and> \<not> w"
  using assms
  by (auto simp: certAuth_def split: option.splits prod.splits role_outcome.splits if_splits)

lemma SearchCrlCache_hit:
  "SearchCrlCache dur now url c = (Some crl, c') \<Longrightarrow>
   c' = c \<and> map_of c url = Some crl \<and> \<not> CrlExpired dur now crl \<and> \<not> CrlNeedUpdate now crl"
  by (auto simp: SearchCrlCache_def split: option.splits if_splits)

text \<open>A list is available only if it is fresh in the cache or can be downloaded now.\<close>

definition crlAvailable :: "auth_env \<Rightarrow> int \<Rightarrow> int \<Rightarrow> Crl gomap \<Rightarrow> string \<Rightarrow> bool" where
  "crlAvailable env dur now c url \<longleftrightarrow>
     env_download env url \<noteq> None \<or>
     (\<exists>crl. map_of c url = Some crl \<and> \<not> CrlExpired dur now crl \<and> \<not> CrlNeedUpdate now crl)"

lemma SearchCrlCache_miss_available:
  "SearchCrlCache dur now url c = (None, c') \<Longrightarrow> crlAvailable env dur now c' u \<Longrightarrow> crlAvailable env dur now c u"
  by (auto simp: SearchCrlCache_def crlAvailable_def split: option.splits if_splits)

lemma DownloadNotCachedCrl_avail:
  "DownloadNotCachedCrl env dur now urls avail c = (True, c') \<Longrightarrow>
   avail \<or> (\<exists>url \<in> set urls. crlAvailable env dur now c url)"
proof (induction urls arbitrary: avail c)
  case (Cons url urls)
  obtain hit c1 where search: "SearchCrlCache dur now url c = (hit, c1)" by force
  show ?case
  proof (cases hit)
    case (Some crl)
    with search show ?thesis by (auto simp: crlAvailable_def dest: SearchCrlCache_hit)
  next
    case None
    show ?thesis
    proof (cases "env_download env url")
      case no_url: None
      with Cons.prems search None have "DownloadNotCachedCrl env dur now urls avail c1 = (True, c')"
        by (simp add: TryDownload_def)
      from Cons.IH [OF this] search None SearchCrlCache_miss_available show ?thesis by fastforce
    next
      case (Some content)
      then show ?thesis by (simp add: crlAvailable_def)
    qed
  qed
qed simp

section \<open>A small host\<close>

text \<open>
  User \<open>ann\<close> of group \<open>admin\<close> with password \<open>pw\<close>; certificate name \<open>ctl\<close> has two roles in
  table \<open>T\<close>; one revocation list can be downloaded, and nothing is revoked.
\<close>

definition envEx :: auth_env where
  "envEx = \<lparr>env_groupIds = (\<lambda>u. if u = ''ann'' then Some [''27''] else None),
            env_groupName = (\<lambda>g. if g = ''27'' then Some ''admin'' else None),
            env_ssh = (\<lambda>u p. u = ''ann'' \<and> p = ''pw''),
            env_jwt = (\<lambda>t. None),
            env_entry = (\<lambda>t cn. if t = ''T'' \<and> cn = ''ctl''
                                then [(''role@'', ''gnoi_readonly,gnmi_config_db_readwrite'')] else []),
            env_download = (\<lambda>url. if url = ''http://crl'' then Some ''crl'' else None),
            env_revoked = (\<lambda>cs crls. False)\<rparr>"

definition ctxEx :: "string \<Rightarrow> string gomap \<Rightarrow> ReqCtx" where
  "ctxEx cn md = \<lparr>ctx_peer = Some \<lparr>peer_isUnix = False,
      peer_TLS = Some \<lparr>tls_VerifiedChains =
         [[\<lparr>cert_CommonName = cn, cert_CRLDistributionPoints = [''http://crl'']\<rparr>]],
        tls_SPIFFEPath = None\<rparr>\<rparr>, ctx_md = Some md\<rparr>"

definition cfgEx :: "string list \<Rightarrow> AuthConfig" where
  "cfgEx modes = \<lparr>cfg_UserAuth = map (\<lambda>m. (m, True)) modes, cfg_ConfigTableName = ''T'', cfg_EnableCrl = False\<rparr>"

definition noAuth :: AuthInfo where
  "noAuth = \<lparr>auth_User = '''', auth_Enabled = False, auth_Roles = []\<rparr>"

section \<open>Properties\<close>

text \<open>
  C5. When some mechanism is enabled, a request from a network peer is authenticated only if it
  carries a user and password that the SSH login accepts, or a JWT that the library finds valid, or a
  verified client certificate with a common name, and that mechanism is enabled.
\<close>

theorem authenticate_sound:
  assumes "authenticate env dur now config ctx target w auth cache = (None, auth', cache')"
    and "ctx_peer ctx = Some p" and "\<not> peer_isUnix p" and "AuthTypes_Any (cfg_UserAuth config)"
  shows "(AuthTypes_Enabled (cfg_UserAuth config) ''password'' \<and>
            (\<exists>md u pw. ctx_md ctx = Some md \<and> map_of md ''username'' = Some u \<and>
               map_of md ''password'' = Some pw \<and> env_ssh env u pw)) \<or>
         (AuthTypes_Enabled (cfg_UserAuth config) ''jwt'' \<and>
            (\<exists>md t u rs. ctx_md ctx = Some md \<and> map_of md ''access_token'' = Some t \<and>
               env_jwt env t = Some (True, u, rs))) \<or>
         (AuthTypes_Enabled (cfg_UserAuth config) ''cert'' \<and>
            (\<exists>tls leaf rest chs. peer_TLS p = Some tls \<and>
               tls_VerifiedChains tls = (leaf # rest) # chs \<and> cert_CommonName leaf \<noteq> ''''))"
  using assms
  by (auto simp: authenticate_def Let_def split: if_splits prod.splits
      dest!: BasicAuth_ok JwtAuth_ok certAuth_ok(1) ClientCert_ok)

theorem authenticate_sound_witness:
  "authenticate envEx 0 0 (cfgEx [''password'']) (ctxEx ''x'' [(''username'', ''ann''), (''password'', ''pw'')])
     ''gnmi'' True noAuth None
   = (None, \<lparr>auth_User = ''ann'', auth_Enabled = True, auth_Roles = [''admin'']\<rparr>, None) \<and>
   (AuthTypes_Enabled (cfg_UserAuth (cfgEx [''password''])) ''password'' \<and>
      (\<exists>md u pw. ctx_md (ctxEx ''x'' [(''username'', ''ann''), (''password'', ''pw'')]) = Some md \<and>
         map_of md ''username'' = Some u \<and> map_of md ''password'' = Some pw \<and> env_ssh envEx u pw) \<or>
    AuthTypes_Enabled (cfg_UserAuth (cfgEx [''password''])) ''jwt'' \<and>
      (\<exists>md t u rs. ctx_md (ctxEx ''x'' [(''username'', ''ann''), (''password'', ''pw'')]) = Some md \<and>
         map_of md ''access_token'' = Some t \<and> env_jwt envEx t = Some (True, u, rs)) \<or>
    AuthTypes_Enabled (cfg_UserAuth (cfgEx [''password''])) ''cert'' \<and>
      (\<exists>tls leaf rest chs.
         peer_TLS (the (ctx_peer (ctxEx ''x'' [(''username'', ''ann''), (''password'', ''pw'')]))) = Some tls \<and>
         tls_VerifiedChains tls = (leaf # rest) # chs \<and> cert_CommonName leaf \<noteq> ''''))"
proof -
  let ?ctx = "ctxEx ''x'' [(''username'', ''ann''), (''password'', ''pw'')]"
  have run: "authenticate envEx 0 0 (cfgEx [''password'']) ?ctx ''gnmi'' True noAuth None
     = (None, \<lparr>auth_User = ''ann'', auth_Enabled = True, auth_Roles = [''admin'']\<rparr>, None)"
    by code_simp
  have any: "AuthTypes_Any (cfg_UserAuth (cfgEx [''password'']))" by code_simp
  have peer: "ctx_peer ?ctx = Some (the (ctx_peer ?ctx))" "\<not> peer_isUnix (the (ctx_peer ?ctx))"
    by (simp_all add: ctxEx_def)
  show ?thesis using run authenticate_sound [OF run peer any] by blast
qed



text \<open>
  Roles left by a failed password attempt count as roles of the certificate. With password and
  certificate authentication enabled and a role table configured, a client that names an existing user with a
  wrong password, and whose certificate's common name has no entry in the table, is authenticated
  for reading, unless one of the named user's groups happens to forbid the target; the request then
  runs as that user, with that user's roles. The check that rejects an untrusted common name only looks
  whether any role is set.
\<close>

theorem stale_roles_admit_untrusted_cert:
  assumes "ctx_peer ctx = Some p" and "\<not> peer_isUnix p"
    and "cfg_UserAuth config = [(''password'', True), (''cert'', True)]"
    and "cfg_ConfigTableName config \<noteq> ''''" and "\<not> cfg_EnableCrl config"
    and "ctx_md ctx = Some md" and "map_of md ''username'' = Some u" and "map_of md ''password'' = Some pw"
    and "GetUserRoles env u = Some roles" and "roles \<noteq> []" and "\<not> env_ssh env u pw"
    and "peer_TLS p = Some tls" and "tls_VerifiedChains tls = (leaf # rest) # chs"
    and "cert_CommonName leaf \<noteq> ''''"
    and "env_entry env (cfg_ConfigTableName config) (cert_CommonName leaf) = []"
    and "\<And>r. checkRoles (toLower target) False roles \<noteq> RoleDenied r"
  shows "authenticate env dur now config ctx target False auth cache =
           (None, auth\<lparr>auth_User := u, auth_Enabled := True, auth_Roles := roles\<rparr>, cache)"
  using assms
  by (cases "checkRoles (toLower target) False roles")
    (auto simp: authenticate_def AuthTypes_Any_def AuthTypes_Enabled_def isSet_def BasicAuthenAndAuthor_def
      PopulateAuthStruct_def certAuth_def ClientCertAuthenAndAuthor_def PopulateAuthStructByCommonName_def
      entryRoles_def)

theorem stale_roles_admit_untrusted_cert_witness:
  "\<not> env_ssh envEx ''ann'' ''wrong'' \<and> env_entry envEx ''T'' ''stranger'' = [] \<and>
   fst (authenticate envEx 0 0 (cfgEx [''cert'']) (ctxEx ''stranger'' []) ''gnmi'' False noAuth None) \<noteq> None \<and>
   authenticate envEx 0 0 (cfgEx [''password'', ''cert''])
     (ctxEx ''stranger'' [(''username'', ''ann''), (''password'', ''wrong'')]) ''gnmi'' False noAuth None
   = (None, noAuth\<lparr>auth_User := ''ann'', auth_Enabled := True, auth_Roles := [''admin'']\<rparr>, None)"
proof -
  let ?ctx = "ctxEx ''stranger'' [(''username'', ''ann''), (''password'', ''wrong'')]"
  have rejected:
    "fst (authenticate envEx 0 0 (cfgEx [''cert'']) (ctxEx ''stranger'' []) ''gnmi'' False noAuth None) \<noteq> None"
    by code_simp
  have none: "checkRoles (toLower ''gnmi'') False [''admin''] = RoleNone" by code_simp
  have "authenticate envEx 0 0 (cfgEx [''password'', ''cert'']) ?ctx ''gnmi'' False noAuth None
    = (None, noAuth\<lparr>auth_User := ''ann'', auth_Enabled := True, auth_Roles := [''admin'']\<rparr>, None)"
    by (rule stale_roles_admit_untrusted_cert
        [where p = "the (ctx_peer ?ctx)" and md = "[(''username'', ''ann''), (''password'', ''wrong'')]"
           and u = "''ann''" and pw = "''wrong''" and roles = "[''admin'']"
           and tls = "the (peer_TLS (the (ctx_peer ?ctx)))"
           and leaf = "\<lparr>cert_CommonName = ''stranger'', cert_CRLDistributionPoints = [''http://crl'']\<rparr>"
           and rest = "[]" and chs = "[]"])
      (unfold none, simp_all add: ctxEx_def cfgEx_def envEx_def GetUserRoles_def)
  with rejected show ?thesis by (simp add: envEx_def)
qed

text \<open>
  A downloaded revocation list is never found again at any later time: it is stored with its next
  update due at the moment of the download, so every later search treats it as out of date and drops it.
  The expiry duration of the cache plays no part.
\<close>

theorem crl_cache_never_hits_later:
  assumes "now < later"
  shows "fst (SearchCrlCache dur later url (AppendCrlToCache now url raw c)) = None \<and>
         map_of (snd (SearchCrlCache dur later url (AppendCrlToCache now url raw c))) url = None"
  using assms by (simp add: SearchCrlCache_def AppendCrlToCache_def CrlNeedUpdate_def)

theorem crl_cache_never_hits_later_witness:
  "fst (SearchCrlCache DEFAULT_CRL_EXPIRE_DURATION 1 ''http://crl'' (AppendCrlToCache 0 ''http://crl'' ''crl'' [])) = None \<and>
   map_of (snd (SearchCrlCache DEFAULT_CRL_EXPIRE_DURATION 1 ''http://crl''
                 (AppendCrlToCache 0 ''http://crl'' ''crl'' []))) ''http://crl'' = None"
  by (rule crl_cache_never_hits_later) simp

text \<open>
  C7. The revocation check fails closed: for a certificate that names CRL distribution points, it
  passes only if one of them is available (downloadable now, or in the cache and fresh) and the library,
  given the empty placeholder and every list that is then in the cache, finds the chain not revoked.
\<close>

theorem crl_check_fails_closed:
  assumes "VerifyCertCrl env dur now vchains leaf (Some c) = (None, cache')"
    and "cert_CRLDistributionPoints leaf \<noteq> []"
  shows "(\<exists>url \<in> set (cert_CRLDistributionPoints leaf). crlAvailable env dur now c url) \<and>
         (\<exists>c'. cache' = Some c' \<and> \<not> env_revoked env vchains ([] # map (crl_bytes \<circ> snd) c'))"
proof -
  obtain avail c' where d: "DownloadNotCachedCrl env dur now (cert_CRLDistributionPoints leaf) False c = (avail, c')"
    by force
  with assms have avail
    and rev: "\<exists>c'. cache' = Some c' \<and> \<not> env_revoked env vchains ([] # map (crl_bytes \<circ> snd) c')"
    by (auto simp: VerifyCertCrl_def InitCrlCache_def CreateStaticCRLProvider_def Let_def
        split: prod.splits if_splits)
  with d DownloadNotCachedCrl_avail [of env dur now "cert_CRLDistributionPoints leaf" False c c'] show ?thesis
    by simp
qed

definition leafEx :: Certificate where
  "leafEx = \<lparr>cert_CommonName = ''ctl'', cert_CRLDistributionPoints = [''http://crl'']\<rparr>"

theorem crl_check_fails_closed_witness:
  "\<exists>c'. VerifyCertCrl envEx 10 5 [[leafEx]] leafEx (Some []) = (None, Some c') \<and>
     (\<exists>url \<in> set (cert_CRLDistributionPoints leafEx). crlAvailable envEx 10 5 [] url) \<and>
     \<not> env_revoked envEx [[leafEx]] ([] # map (crl_bytes \<circ> snd) c')"
proof -
  have "fst (VerifyCertCrl envEx 10 5 [[leafEx]] leafEx (Some [])) = None" by code_simp
  then obtain cc where run: "VerifyCertCrl envEx 10 5 [[leafEx]] leafEx (Some []) = (None, cc)"
    by (metis prod.collapse)
  have "cert_CRLDistributionPoints leafEx \<noteq> []" by (simp add: leafEx_def)
  from crl_check_fails_closed [OF run this] run show ?thesis by blast
qed

end
