(* ===== verification/Host.thy ===== *)
theory Host
  imports Gnmi_Prelude
begin

text \<open>
  The host as the server sees it: files and the hashes of the state database, with the faults that
  system calls can have. Every call takes the next fault of a list (no more faults: it goes as the
  state says), so a statement for all lists of faults is a statement about every way the calls can
  fail. A failing write may leave part of the data behind.

  The helpers of \<^verbatim>\<open>gnmi_server/gnsi_util.go\<close> and the two of \<^verbatim>\<open>gnmi_server/gnsi_certz.go\<close> that the other
  gNSI services share (\<open>attemptWrite\<close>, \<open>writeCredentialsMetadataToDB\<close>) are over this host. File modes
  are not modelled: \<open>Chmod\<close> only succeeds or fails.
\<close>

section \<open>Files, hashes and faults\<close>

datatype fnode = Regular string | Symlink string | OtherNode

datatype fault = Works | Fails | Stops nat

record world =
  w_files :: "fnode gomap"
  w_db :: "string gomap gomap"
  w_faults :: "fault list"

definition nextFault :: "world \<Rightarrow> fault \<times> world" where
  "nextFault w = (case w_faults w of [] \<Rightarrow> (Works, w) | f # fs \<Rightarrow> (f, w\<lparr>w_faults := fs\<rparr>))"

text \<open>Following symbolic links; the kernel gives up after 40.\<close>

fun resolve :: "nat \<Rightarrow> fnode gomap \<Rightarrow> string \<Rightarrow> string option" where
  "resolve 0 fs p = (case map_of fs p of Some (Symlink _) \<Rightarrow> None | _ \<Rightarrow> Some p)"
| "resolve (Suc n) fs p = (case map_of fs p of Some (Symlink q) \<Rightarrow> resolve n fs q | _ \<Rightarrow> Some p)"

definition statNode :: "fnode gomap \<Rightarrow> string \<Rightarrow> fnode option" where
  "statNode fs p = (case resolve 40 fs p of None \<Rightarrow> None | Some q \<Rightarrow> map_of fs q)"

definition osLstat :: "string \<Rightarrow> world \<Rightarrow> fnode option \<times> world" where
  "osLstat p w = (case nextFault w of (f, w') \<Rightarrow> (if f = Works then map_of (w_files w) p else None, w'))"

definition osStat :: "string \<Rightarrow> world \<Rightarrow> fnode option \<times> world" where
  "osStat p w = (case nextFault w of (f, w') \<Rightarrow> (if f = Works then statNode (w_files w) p else None, w'))"

definition osReadFile :: "string \<Rightarrow> world \<Rightarrow> string option \<times> world" where
  "osReadFile p w =
     (case nextFault w of
        (f, w') \<Rightarrow>
          (case statNode (w_files w) p of
             Some (Regular c) \<Rightarrow> (if f = Works then Some c else None, w')
           | _ \<Rightarrow> (None, w')))"

definition putFile :: "string \<Rightarrow> fnode \<Rightarrow> world \<Rightarrow> world" where
  "putFile p n w = w\<lparr>w_files := AList.update p n (w_files w)\<rparr>"

definition dropFile :: "string \<Rightarrow> world \<Rightarrow> world" where
  "dropFile p w = w\<lparr>w_files := AList.delete p (w_files w)\<rparr>"

text \<open>\<open>os.WriteFile\<close>: open with truncation, then write; a fault of the write leaves what was written.\<close>

definition osWriteFile :: "string \<Rightarrow> string \<Rightarrow> world \<Rightarrow> bool \<times> world" where
  "osWriteFile p d w =
     (case nextFault w of
        (f, w') \<Rightarrow>
          (case resolve 40 (w_files w) p of
             None \<Rightarrow> (False, w')
           | Some q \<Rightarrow>
               if map_of (w_files w) q = Some OtherNode then (False, w')
               else
                 (case f of
                    Works \<Rightarrow> (True, putFile q (Regular d) w')
                  | Fails \<Rightarrow> (False, w')
                  | Stops n \<Rightarrow> (False, putFile q (Regular (take n d)) w'))))"

definition osRemove :: "string \<Rightarrow> world \<Rightarrow> bool \<times> world" where
  "osRemove p w =
     (case nextFault w of
        (f, w') \<Rightarrow>
          if f = Works \<and> map_of (w_files w) p \<noteq> None then (True, dropFile p w') else (False, w'))"

definition osRename :: "string \<Rightarrow> string \<Rightarrow> world \<Rightarrow> bool \<times> world" where
  "osRename p q w =
     (case nextFault w of
        (f, w') \<Rightarrow>
          (case map_of (w_files w) p of
             None \<Rightarrow> (False, w')
           | Some n \<Rightarrow>
               if f \<noteq> Works \<or> map_of (w_files w) q = Some OtherNode then (False, w')
               else if p = q then (True, w')
               else (True, putFile q n (dropFile p w'))))"

definition osChmod :: "string \<Rightarrow> world \<Rightarrow> bool \<times> world" where
  "osChmod p w = (case nextFault w of (f, w') \<Rightarrow> (f = Works \<and> statNode (w_files w) p \<noteq> None, w'))"

text \<open>
  \<open>os.CreateTemp\<close> makes a file whose name starts with the given one and is new. The random part of
  the name stands here as zeros, more of them than any name is long.
\<close>

definition tempName :: "fnode gomap \<Rightarrow> string \<Rightarrow> string" where
  "tempName fs p = p @ replicate (Suc (sum_list (map (length \<circ> fst) fs))) (CHR ''0'')"

definition osCreateTemp :: "string \<Rightarrow> world \<Rightarrow> string option \<times> world" where
  "osCreateTemp p w =
     (case nextFault w of
        (f, w') \<Rightarrow>
          if f = Works then (let t = tempName (w_files w) p in (Some t, putFile t (Regular '''') w'))
          else (None, w'))"

text \<open>Writing to an open file, and closing it.\<close>

definition osWrite :: "string \<Rightarrow> string \<Rightarrow> world \<Rightarrow> bool \<times> world" where
  "osWrite p d w =
     (case nextFault w of
        (f, w') \<Rightarrow>
          (case f of
             Works \<Rightarrow> (True, putFile p (Regular d) w')
           | Fails \<Rightarrow> (False, w')
           | Stops n \<Rightarrow> (False, putFile p (Regular (take n d)) w')))"

definition osClose :: "world \<Rightarrow> bool \<times> world" where
  "osClose w = (case nextFault w of (f, w') \<Rightarrow> (f = Works, w'))"

section \<open>Helpers of the gNSI services\<close>

text \<open>Once the temporary file is there: write it, close it, move it into place, and set its mode.\<close>

definition finishTemp :: "string \<Rightarrow> string \<Rightarrow> string \<Rightarrow> world \<Rightarrow> bool \<times> world" where
  "finishTemp tmp content dst w =
     (case osWrite tmp content w of
        (False, w1) \<Rightarrow> (False, snd (osRemove tmp w1))
      | (True, w1) \<Rightarrow>
          (case osClose w1 of
             (False, w2) \<Rightarrow> (False, snd (osRemove tmp w2))
           | (True, w2) \<Rightarrow>
               (case osRename tmp dst w2 of
                  (False, w3) \<Rightarrow> (False, snd (osRemove tmp w3))
                | (True, w3) \<Rightarrow> osChmod dst w3)))"

definition copyFile :: "string \<Rightarrow> string \<Rightarrow> world \<Rightarrow> bool \<times> world" where
  "copyFile srcPath dstPath w =
     (case osStat srcPath w of
        (Some (Regular _), w1) \<Rightarrow>
          (case osReadFile srcPath w1 of
             (None, w2) \<Rightarrow> (False, w2)
           | (Some content, w2) \<Rightarrow>
               (case osCreateTemp dstPath w2 of
                  (None, w3) \<Rightarrow> (False, w3)
                | (Some tmp, w3) \<Rightarrow> finishTemp tmp content dstPath w3))
      | (_, w1) \<Rightarrow> (False, w1))"

definition fileCheck :: "string \<Rightarrow> world \<Rightarrow> bool \<times> world" where
  "fileCheck p w = (case osLstat p w of (Some (Regular _), w1) \<Rightarrow> (True, w1) | (_, w1) \<Rightarrow> (False, w1))"

definition attemptWrite :: "string \<Rightarrow> string \<Rightarrow> world \<Rightarrow> bool \<times> world" where
  "attemptWrite name d w =
     (case osWriteFile name d w of
        (True, w1) \<Rightarrow> (True, w1)
      | (False, w1) \<Rightarrow> (False, snd (osRemove name w1)))"

definition credentialsTbl :: string where "credentialsTbl = ''CREDENTIALS''"

definition GetKey :: "string list \<Rightarrow> string" where "GetKey k = join ''|'' k"

definition hset :: "string \<Rightarrow> string \<Rightarrow> string \<Rightarrow> string gomap gomap \<Rightarrow> string gomap gomap" where
  "hset k fld val db =
     AList.update k (AList.update fld val (case map_of db k of None \<Rightarrow> [] | Some h \<Rightarrow> h)) db"

definition hget :: "string \<Rightarrow> string \<Rightarrow> string gomap gomap \<Rightarrow> string option" where
  "hget k fld db = (case map_of db k of None \<Rightarrow> None | Some h \<Rightarrow> map_of h fld)"

text \<open>Two calls can fail: getting the client, and the HSET itself.\<close>

definition writeCredentialsMetadataToDB ::
  "string \<Rightarrow> string \<Rightarrow> string \<Rightarrow> string \<Rightarrow> world \<Rightarrow> bool \<times> world" where
  "writeCredentialsMetadataToDB tbl key fld val w =
     (case nextFault w of
        (f, w1) \<Rightarrow>
          if f \<noteq> Works then (False, w1)
          else
            (let path = GetKey [credentialsTbl, tbl];
                 path' = (if key \<noteq> '''' then GetKey [path, key] else path)
             in case nextFault w1 of
                  (f', w2) \<Rightarrow>
                    if f' \<noteq> Works then (False, w2)
                    else (True, w2\<lparr>w_db := hset path' fld val (w_db w2)\<rparr>)))"

section \<open>Lemmas: hashes and names\<close>

lemma hget_hset [simp]:
  "hget k fld (hset k' fld' val db) = (if k = k' \<and> fld = fld' then Some val else hget k fld db)"
  by (auto simp: hget_def hset_def split: option.splits)

lemma tempName_long: "sum_list (map (length \<circ> fst) fs) < length (tempName fs p)"
  by (simp add: tempName_def)

lemma tempName_fresh [simp]: "map_of fs (tempName fs p) = None"
proof -
  have "length (fst x) \<le> sum_list (map (length \<circ> fst) fs)" if "x \<in> set fs" for x
    using that by (intro member_le_sum_list) auto
  then have "tempName fs p \<notin> fst ` set fs" using tempName_long [of fs p] by force
  then show ?thesis by (simp add: map_of_eq_None_iff)
qed

lemma tempName_neq [simp]: "tempName fs p \<noteq> p" "p \<noteq> tempName fs p"
  by (simp_all add: tempName_def)

section \<open>Lemmas: calls without faults\<close>

lemma nextFault_Nil [simp]: "w_faults w = [] \<Longrightarrow> nextFault w = (Works, w)"
  by (simp add: nextFault_def)

lemma resolve_plain: "(\<And>q. map_of fs p \<noteq> Some (Symlink q)) \<Longrightarrow> resolve n fs p = Some p"
  by (cases n) (auto split: option.splits fnode.splits)

lemma resolve_Regular [simp]: "map_of fs p = Some (Regular c) \<Longrightarrow> resolve n fs p = Some p"
  by (rule resolve_plain) simp

lemma statNode_Regular [simp]: "map_of fs p = Some (Regular c) \<Longrightarrow> statNode fs p = Some (Regular c)"
  by (simp add: statNode_def)

text \<open>What a call may leave of the files: those of \<open>w\<close>, with \<open>p\<close> changed as said.\<close>

definition filesAfter :: "world \<Rightarrow> string \<Rightarrow> fnode option \<Rightarrow> world \<Rightarrow> bool" where
  "filesAfter w p n w' \<longleftrightarrow>
     w_faults w' = w_faults w \<and> w_db w' = w_db w \<and> map_of (w_files w') = (map_of (w_files w))(p := n)"

lemma filesAfterD:
  assumes "filesAfter w p n w'"
  shows "w_faults w' = w_faults w" "w_db w' = w_db w" "map_of (w_files w') q = (if q = p then n else map_of (w_files w) q)"
  using assms by (auto simp: filesAfter_def)

lemma copyFile_ok:
  assumes "w_faults w = []" "map_of (w_files w) src = Some (Regular c)" "map_of (w_files w) dst \<noteq> Some OtherNode"
  shows "\<exists>w'. copyFile src dst w = (True, w') \<and> filesAfter w dst (Some (Regular c)) w'"
proof -
  let ?t = "tempName (w_files w) dst"
  have "map_of (w_files w) ?t = None" "?t \<noteq> dst" by simp_all
  with assms show ?thesis
    by (simp add: copyFile_def osStat_def osReadFile_def osCreateTemp_def finishTemp_def osWrite_def osClose_def
        osRename_def osChmod_def putFile_def dropFile_def filesAfter_def Let_def fun_eq_iff del: tempName_fresh)
qed

lemma fileCheck_ok:
  "w_faults w = [] \<Longrightarrow> fileCheck p w = (\<exists>c. map_of (w_files w) p = Some (Regular c), w)"
  by (auto simp: fileCheck_def osLstat_def split: option.splits fnode.splits)

lemma fileCheck_fails: "w_faults w = Fails # fs \<Longrightarrow> fileCheck p w = (False, w\<lparr>w_faults := fs\<rparr>)"
  by (simp add: fileCheck_def osLstat_def nextFault_def)

lemma attemptWrite_ok:
  assumes "w_faults w = []" "map_of (w_files w) p = None \<or> map_of (w_files w) p = Some (Regular c)"
  shows "\<exists>w'. attemptWrite p d w = (True, w') \<and> filesAfter w p (Some (Regular d)) w'"
proof -
  have "resolve 40 (w_files w) p = Some p" using assms(2) by (intro resolve_plain) auto
  with assms show ?thesis
    by (auto simp: attemptWrite_def osWriteFile_def putFile_def filesAfter_def)
qed

lemma osReadFile_ok:
  "w_faults w = [] \<Longrightarrow> map_of (w_files w) p = Some (Regular c) \<Longrightarrow> osReadFile p w = (Some c, w)"
  by (simp add: osReadFile_def)

lemma osRename_ok:
  assumes "w_faults w = []" "map_of (w_files w) p = Some n" "map_of (w_files w) q \<noteq> Some OtherNode" "p \<noteq> q"
  shows "\<exists>w'. osRename p q w = (True, w') \<and> w_faults w' = [] \<and> w_db w' = w_db w \<and>
     map_of (w_files w') = (map_of (w_files w))(p := None, q := Some n)"
  using assms by (auto simp: osRename_def putFile_def dropFile_def fun_eq_iff)

lemma osRemove_ok:
  assumes "w_faults w = []" "map_of (w_files w) p = Some n"
  shows "\<exists>w'. osRemove p w = (True, w') \<and> filesAfter w p None w'"
  using assms by (auto simp: osRemove_def dropFile_def filesAfter_def fun_eq_iff)

lemma writeDB_ok:
  assumes "w_faults w = []"
  shows "writeCredentialsMetadataToDB tbl '''' fld val w =
     (True, w\<lparr>w_db := hset (GetKey [credentialsTbl, tbl]) fld val (w_db w)\<rparr>)"
  using assms by (simp add: writeCredentialsMetadataToDB_def)

section \<open>Lemmas: calls with any faults\<close>

lemma nextFault_cases:
  obtains f w' where "nextFault w = (f, w')" "w_files w' = w_files w" "w_db w' = w_db w"
  by (cases "w_faults w") (auto simp: nextFault_def)

lemma nextFault_frame [simp]: "w_files (snd (nextFault w)) = w_files w" "w_db (snd (nextFault w)) = w_db w"
  by (auto simp: nextFault_def split: list.splits)

lemma fileCheck_frame:
  "w_files (snd (fileCheck p w)) = w_files w" "w_db (snd (fileCheck p w)) = w_db w"
  by (simp_all add: fileCheck_def osLstat_def split_beta split: option.splits fnode.splits)

lemma osRemove_frame: "osRemove p w = (ok, w') \<Longrightarrow> w_db w' = w_db w \<and>
    (\<forall>q. q \<noteq> p \<longrightarrow> map_of (w_files w') q = map_of (w_files w) q)"
  by (rule nextFault_cases [of w]) (auto simp: osRemove_def dropFile_def split: if_splits)

lemma osWrite_frame: "osWrite p d w = (ok, w') \<Longrightarrow> w_db w' = w_db w \<and>
    (\<forall>q. q \<noteq> p \<longrightarrow> map_of (w_files w') q = map_of (w_files w) q) \<and> (ok \<longrightarrow> map_of (w_files w') p = Some (Regular d))"
  by (rule nextFault_cases [of w]) (auto simp: osWrite_def putFile_def split: fault.splits)

lemma osClose_frame: "osClose w = (ok, w') \<Longrightarrow> w_db w' = w_db w \<and> w_files w' = w_files w"
  by (rule nextFault_cases [of w]) (auto simp: osClose_def)

lemma osChmod_frame: "osChmod p w = (ok, w') \<Longrightarrow> w_db w' = w_db w \<and> w_files w' = w_files w"
  by (rule nextFault_cases [of w]) (auto simp: osChmod_def)

lemma osStat_frame: "osStat p w = (r, w') \<Longrightarrow> w_db w' = w_db w \<and> w_files w' = w_files w \<and>
    (\<forall>n. r = Some n \<longrightarrow> statNode (w_files w) p = Some n)"
  by (rule nextFault_cases [of w]) (auto simp: osStat_def split: if_splits)

lemma osReadFile_frame: "osReadFile p w = (r, w') \<Longrightarrow> w_db w' = w_db w \<and> w_files w' = w_files w \<and>
    (\<forall>c. r = Some c \<longrightarrow> statNode (w_files w) p = Some (Regular c))"
  by (rule nextFault_cases [of w]) (auto simp: osReadFile_def split: option.splits fnode.splits if_splits)

lemma osRename_frame: "osRename p q w = (ok, w') \<Longrightarrow> w_db w' = w_db w \<and>
    (\<forall>r. r \<noteq> p \<longrightarrow> r \<noteq> q \<longrightarrow> map_of (w_files w') r = map_of (w_files w) r) \<and>
    (if ok then map_of (w_files w') q = map_of (w_files w) p else w_files w' = w_files w)"
  by (rule nextFault_cases [of w])
    (auto simp: osRename_def putFile_def dropFile_def split: option.splits if_splits)

text \<open>\<open>replaced w dst c w'\<close>: of the files that are not \<open>tmp\<close>, only \<open>dst\<close> may differ, and then it has \<open>c\<close>.\<close>

definition replaced :: "world \<Rightarrow> string \<Rightarrow> string \<Rightarrow> string \<Rightarrow> bool \<Rightarrow> world \<Rightarrow> bool" where
  "replaced w tmp dst c ok w' \<longleftrightarrow>
     w_db w' = w_db w \<and>
     (\<forall>q. q \<noteq> tmp \<longrightarrow> q \<noteq> dst \<longrightarrow> map_of (w_files w') q = map_of (w_files w) q) \<and>
     (map_of (w_files w') dst = Some (Regular c) \<or> \<not> ok \<and> map_of (w_files w') dst = map_of (w_files w) dst)"

lemma finishTemp_replaced:
  assumes "finishTemp tmp c dst w = (ok, w')" and "tmp \<noteq> dst"
  shows "replaced w tmp dst c ok w'"
proof -
  obtain ok1 w1 where 1: "osWrite tmp c w = (ok1, w1)" by force
  obtain ok2 w2 where 2: "osClose w1 = (ok2, w2)" by force
  obtain ok3 w3 where 3: "osRename tmp dst w2 = (ok3, w3)" by force
  obtain a1 v1 where r1: "osRemove tmp w1 = (a1, v1)" by force
  obtain a2 v2 where r2: "osRemove tmp w2 = (a2, v2)" by force
  obtain a3 v3 where r3: "osRemove tmp w3 = (a3, v3)" by force
  note facts = osWrite_frame [OF 1] osClose_frame [OF 2] osRename_frame [OF 3]
    osRemove_frame [OF r1] osRemove_frame [OF r2] osRemove_frame [OF r3]
  show ?thesis
  proof (cases "ok1 \<and> ok2 \<and> ok3")
    case True
    with assms(1) 1 2 3 have "osChmod dst w3 = (ok, w')" by (simp add: finishTemp_def)
    from osChmod_frame [OF this] True facts assms(2) show ?thesis by (simp add: replaced_def)
  next
    case False
    with assms(1) 1 2 3 r1 r2 r3 have "\<not> ok" "w' = (if \<not> ok1 then v1 else if \<not> ok2 then v2 else v3)"
      by (auto simp: finishTemp_def split: bool.splits)
    with False facts assms(2) show ?thesis by (auto simp: replaced_def)
  qed
qed

lemma osCreateTemp_frame:
  "osCreateTemp p w = (Some t, w') \<Longrightarrow> t = tempName (w_files w) p \<and> w_db w' = w_db w \<and>
     (\<forall>q. q \<noteq> t \<longrightarrow> map_of (w_files w') q = map_of (w_files w) q)"
  "osCreateTemp p w = (None, w') \<Longrightarrow> w_db w' = w_db w \<and> w_files w' = w_files w"
  by (rule nextFault_cases [of w]; auto simp: osCreateTemp_def putFile_def Let_def split: if_splits)+

lemma copyFile_replaced:
  assumes "copyFile src dst w = (ok, w')"
  shows "(\<exists>c. statNode (w_files w) src = Some (Regular c) \<and> replaced w (tempName (w_files w) dst) dst c ok w') \<or>
         \<not> ok \<and> w_db w' = w_db w \<and> w_files w' = w_files w"
proof -
  obtain st w1 where 1: "osStat src w = (st, w1)" by force
  obtain rd w2 where 2: "osReadFile src w1 = (rd, w2)" by force
  obtain t w3 where 3: "osCreateTemp dst w2 = (t, w3)" by force
  note frames = osStat_frame [OF 1] osReadFile_frame [OF 2]
  show ?thesis
  proof (cases "\<exists>c tmp. (\<exists>c'. st = Some (Regular c')) \<and> rd = Some c \<and> t = Some tmp")
    case True
    then obtain c tmp c' where *: "st = Some (Regular c')" "rd = Some c" "t = Some tmp" by blast
    with assms 1 2 3 have "finishTemp tmp c dst w3 = (ok, w')" by (simp add: copyFile_def)
    moreover from osCreateTemp_frame(1) [OF 3 [unfolded *]] frames
    have "tmp = tempName (w_files w) dst" by simp
    ultimately have "replaced w3 tmp dst c ok w'" by (intro finishTemp_replaced) simp_all
    with osCreateTemp_frame(1) [OF 3 [unfolded *]] frames * show ?thesis
      by (auto simp: replaced_def)
  next
    case False
    with assms 1 2 3 frames osCreateTemp_frame(2) [of dst w2 w3] show ?thesis
      by (auto simp: copyFile_def split: option.splits fnode.splits)
  qed
qed

lemma osWriteFile_any:
  "osWriteFile p d w = (True, w') \<Longrightarrow>
   \<exists>q. resolve 40 (w_files w) p = Some q \<and> map_of (w_files w') = (map_of (w_files w))(q \<mapsto> Regular d) \<and> w_db w' = w_db w"
  by (rule nextFault_cases [of w])
    (auto simp: osWriteFile_def putFile_def fun_eq_iff split: option.splits if_splits fault.splits)

lemma attemptWrite_any:
  "attemptWrite p d w = (True, w') \<Longrightarrow>
   \<exists>q. resolve 40 (w_files w) p = Some q \<and> map_of (w_files w') = (map_of (w_files w))(q \<mapsto> Regular d) \<and> w_db w' = w_db w"
  by (auto simp: attemptWrite_def dest: osWriteFile_any split: prod.splits bool.splits)

text \<open>Writing to a path that is not a symbolic link changes that path only.\<close>

lemma attemptWrite_plain:
  assumes "attemptWrite p d w = (True, w')" and "\<And>q. map_of (w_files w) p \<noteq> Some (Symlink q)"
  shows "map_of (w_files w') = (map_of (w_files w))(p \<mapsto> Regular d) \<and> w_db w' = w_db w"
  using attemptWrite_any [OF assms(1)] resolve_plain [OF assms(2)] by auto

lemma writeDB_any:
  "writeCredentialsMetadataToDB tbl [] fld val w = (True, w') \<Longrightarrow>
   w_files w' = w_files w \<and> w_db w' = hset (GetKey [credentialsTbl, tbl]) fld val (w_db w)"
  by (rule nextFault_cases [of w])
    (auto simp: writeCredentialsMetadataToDB_def nextFault_def split: list.splits if_splits prod.splits)

lemma fileCheck_any:
  "fileCheck p w = (ok, w') \<Longrightarrow> w_files w' = w_files w \<and> w_db w' = w_db w \<and>
     (ok \<longrightarrow> (\<exists>c. map_of (w_files w) p = Some (Regular c)))"
  by (rule nextFault_cases [of w])
    (auto simp: fileCheck_def osLstat_def split: prod.splits option.splits fnode.splits if_splits)

section \<open>Properties\<close>

text \<open>
  C13. \<open>copyFile\<close> replaces its destination atomically, whatever faults occur: the destination has its
  old content or exactly the content of the source, and the latter if success is reported; every other
  file that existed, and the database, are untouched.
\<close>

theorem copyFile_atomic:
  "case copyFile src dst w of
     (ok, w') \<Rightarrow>
       w_db w' = w_db w \<and>
       (map_of (w_files w') dst = map_of (w_files w) dst \<or>
        map_of (w_files w') dst = statNode (w_files w) src \<and> statNode (w_files w) src \<noteq> None) \<and>
       (ok \<longrightarrow> (\<exists>c. statNode (w_files w) src = Some (Regular c) \<and> map_of (w_files w') dst = Some (Regular c))) \<and>
       (\<forall>p. p \<noteq> dst \<and> map_of (w_files w) p \<noteq> None \<longrightarrow> map_of (w_files w') p = map_of (w_files w) p)"
proof -
  obtain ok w' where run: "copyFile src dst w = (ok, w')" by force
  from copyFile_replaced [OF run]
  have "w_db w' = w_db w \<and>
       (map_of (w_files w') dst = map_of (w_files w) dst \<or>
        map_of (w_files w') dst = statNode (w_files w) src \<and> statNode (w_files w) src \<noteq> None) \<and>
       (ok \<longrightarrow> (\<exists>c. statNode (w_files w) src = Some (Regular c) \<and> map_of (w_files w') dst = Some (Regular c))) \<and>
       (\<forall>p. p \<noteq> dst \<and> map_of (w_files w) p \<noteq> None \<longrightarrow> map_of (w_files w') p = map_of (w_files w) p)"
  proof (elim disjE exE conjE, goal_cases)
    case (1 c)
    then have "q \<noteq> dst \<Longrightarrow> map_of (w_files w) q \<noteq> None \<Longrightarrow> map_of (w_files w') q = map_of (w_files w) q" for q
      by (metis replaced_def tempName_fresh)
    with 1 show ?case by (auto simp: replaced_def)
  qed simp
  with run show ?thesis by simp
qed

text \<open>A disk that fills up after three bytes of the copy.\<close>

definition fullDisk :: world where
  "fullDisk = \<lparr>w_files = [(''a'', Regular ''new content''), (''b'', Regular ''old'')], w_db = [],
               w_faults = [Works, Works, Works, Stops 3]\<rparr>"

theorem copyFile_atomic_witness:
  "\<not> fst (copyFile ''a'' ''b'' fullDisk) \<and>
   map_of (w_files (snd (copyFile ''a'' ''b'' fullDisk))) ''b'' = Some (Regular ''old'') \<and>
   map_of (w_files (snd (copyFile ''a'' ''b'' fullDisk))) ''a'' = Some (Regular ''new content'') \<and>
   w_db (snd (copyFile ''a'' ''b'' fullDisk)) = []"
proof -
  have "\<not> fst (copyFile ''a'' ''b'' fullDisk)"
    and "map_of (w_files (snd (copyFile ''a'' ''b'' fullDisk))) ''b'' = Some (Regular ''old'')"
    by code_simp+
  moreover from copyFile_atomic [where src = "''a''" and dst = "''b''" and w = fullDisk]
  have "map_of (w_files (snd (copyFile ''a'' ''b'' fullDisk))) ''a'' = Some (Regular ''new content'')"
    and "w_db (snd (copyFile ''a'' ''b'' fullDisk)) = []"
    by (simp_all add: split_beta fullDisk_def)
  ultimately show ?thesis by blast
qed

end
