(* ===== verification/Json.thy ===== *)
theory Json
  imports Gnmi_Prelude
begin

text \<open>
  What the repository uses of \<^verbatim>\<open>encoding/json\<close>: the text that the encoder writes (strings escaped,
  no white space), the decoder for arbitrary JSON text, and decoding into a struct whose fields are
  strings. Numbers stay literal text. Strings are bytes; bytes above 127 pass through the encoder, as
  valid UTF-8 does.

  The decoder recurses with a fuel; \<open>parse_fuel\<close> shows that twice the length of the text and one is
  always enough: more fuel gives the same result on every text. \<open>parse_marshal\<close> is the round trip.
\<close>

datatype json = JNull | JBool bool | JNum string | JStr string | JArr "json list" | JObj "(string \<times> json) list"

section \<open>Encoding\<close>

definition quoteC :: char where "quoteC = CHR 0x22"
definition bslash :: char where "bslash = CHR 0x5C"

definition hexDigit :: "nat \<Rightarrow> char" where
  "hexDigit n = char_of (if n < 10 then 48 + n else 87 + n)"

definition hexVal :: "char \<Rightarrow> nat option" where
  "hexVal c =
     (let n = of_char c :: nat in
      if 48 \<le> n \<and> n \<le> 57 then Some (n - 48)
      else if 97 \<le> n \<and> n \<le> 102 then Some (n - 87)
      else if 65 \<le> n \<and> n \<le> 70 then Some (n - 55)
      else None)"

definition escapeChar :: "char \<Rightarrow> string" where
  "escapeChar c =
     (let n = of_char c :: nat in
      if c = quoteC \<or> c = bslash then [bslash, c]
      else if n = 10 then [bslash, CHR ''n'']
      else if n = 13 then [bslash, CHR ''r'']
      else if n = 9 then [bslash, CHR ''t'']
      else if n < 32 \<or> n = 0x3C \<or> n = 0x3E \<or> n = 0x26
      then [bslash, CHR ''u'', CHR ''0'', CHR ''0'', hexDigit (n div 16), hexDigit (n mod 16)]
      else [c])"

definition encodeString :: "string \<Rightarrow> string" where
  "encodeString s = quoteC # concat (map escapeChar s) @ [quoteC]"

fun marshal :: "json \<Rightarrow> string" where
  "marshal JNull = ''null''"
| "marshal (JBool b) = (if b then ''true'' else ''false'')"
| "marshal (JNum n) = n"
| "marshal (JStr s) = encodeString s"
| "marshal (JArr vs) = ''['' @ join '','' (map marshal vs) @ '']''"
| "marshal (JObj ms) = ''{'' @ join '','' (map (\<lambda>(k, v). encodeString k @ '':'' @ marshal v) ms) @ ''}''"

section \<open>Decoding\<close>

definition isJsonWs :: "char \<Rightarrow> bool" where
  "isJsonWs c \<longleftrightarrow> c = CHR '' '' \<or> (of_char c :: nat) \<in> {9, 10, 13}"

definition skipWs :: "string \<Rightarrow> string" where "skipWs s = dropWhile isJsonWs s"

definition hex4 :: "char \<Rightarrow> char \<Rightarrow> char \<Rightarrow> char \<Rightarrow> nat option" where
  "hex4 a b c d =
     (case (hexVal a, hexVal b, hexVal c, hexVal d) of
        (Some w, Some x, Some y, Some z) \<Rightarrow> Some (w * 4096 + x * 256 + y * 16 + z)
      | _ \<Rightarrow> None)"

definition utf8 :: "nat \<Rightarrow> string" where
  "utf8 n =
     (if n < 0x80 then [char_of n]
      else if n < 0x800 then [char_of (0xC0 + n div 64), char_of (0x80 + n mod 64)]
      else if n < 0x10000
      then [char_of (0xE0 + n div 4096), char_of (0x80 + n div 64 mod 64), char_of (0x80 + n mod 64)]
      else [char_of (0xF0 + n div 262144), char_of (0x80 + n div 4096 mod 64),
            char_of (0x80 + n div 64 mod 64), char_of (0x80 + n mod 64)])"

definition isSurrogate :: "nat \<Rightarrow> bool" where "isSurrogate n \<longleftrightarrow> 0xD800 \<le> n \<and> n < 0xE000"

text \<open>A surrogate followed by its partner is one rune; a surrogate on its own is U+FFFD.\<close>

definition secondSurrogate :: "nat \<Rightarrow> string \<Rightarrow> (nat \<times> string) option" where
  "secondSurrogate hi s =
     (case s of
        b # u # p # q # r # t # rest \<Rightarrow>
          if b = bslash \<and> u = CHR ''u'' then
            (case hex4 p q r t of
               Some lo \<Rightarrow>
                 if hi < 0xDC00 \<and> 0xDC00 \<le> lo \<and> lo < 0xE000
                 then Some (0x10000 + (hi - 0xD800) * 1024 + (lo - 0xDC00), rest) else None
             | None \<Rightarrow> None)
          else None
      | _ \<Rightarrow> None)"

lemma secondSurrogate_length: "secondSurrogate hi s = Some (r, rest) \<Longrightarrow> length rest < length s"
  by (auto simp: secondSurrogate_def split: list.splits if_splits option.splits)

definition simpleEscape :: "char \<Rightarrow> char option" where
  "simpleEscape e =
     (if e = quoteC \<or> e = bslash \<or> e = CHR ''/'' then Some e
      else if e = CHR ''b'' then Some (char_of (8::nat))
      else if e = CHR ''f'' then Some (char_of (12::nat))
      else if e = CHR ''n'' then Some (char_of (10::nat))
      else if e = CHR ''r'' then Some (char_of (13::nat))
      else if e = CHR ''t'' then Some (char_of (9::nat))
      else None)"

text \<open>The rest of a string after its opening quote: the bytes of the string, and what follows it.\<close>

definition addFront :: "string \<Rightarrow> (string \<times> string) option \<Rightarrow> (string \<times> string) option" where
  "addFront p = map_option (\<lambda>(s, rest). (p @ s, rest))"

function parseStr :: "string \<Rightarrow> (string \<times> string) option" where
  "parseStr [] = None"
| "parseStr (c # cs) =
     (if c = quoteC then Some ([], cs)
      else if c = bslash then
        (case cs of
           [] \<Rightarrow> None
         | e # cs' \<Rightarrow>
             if e = CHR ''u'' then
               (case cs' of
                  p # q # r # t # cs1 \<Rightarrow>
                    (case hex4 p q r t of
                       None \<Rightarrow> None
                     | Some n \<Rightarrow>
                         if isSurrogate n then
                           (case secondSurrogate n cs1 of
                              Some (m, cs2) \<Rightarrow> addFront (utf8 m) (parseStr cs2)
                            | None \<Rightarrow> addFront (utf8 0xFFFD) (parseStr cs1))
                         else addFront (utf8 n) (parseStr cs1))
                | _ \<Rightarrow> None)
             else (case simpleEscape e of None \<Rightarrow> None | Some x \<Rightarrow> addFront [x] (parseStr cs')))
      else if (of_char c :: nat) < 32 then None
      else addFront [c] (parseStr cs))"
  by pat_completeness auto
termination by (relation "measure length") (auto dest: secondSurrogate_length)

declare parseStr.simps(2) [simp del]

definition isNumChar :: "char \<Rightarrow> bool" where
  "isNumChar c \<longleftrightarrow> isDigit c \<or> c \<in> set ''+-.eE''"

fun validExp :: "string \<Rightarrow> bool" where
  "validExp [] = True"
| "validExp (c # cs) =
     (c \<in> set ''eE'' \<and>
      (let ds = (case cs of s # r \<Rightarrow> if s \<in> set ''+-'' then r else cs | [] \<Rightarrow> [])
       in ds \<noteq> [] \<and> list_all isDigit ds))"

definition validFrac :: "string \<Rightarrow> bool" where
  "validFrac s =
     (case s of
        c # cs \<Rightarrow>
          if c = CHR ''.'' then takeWhile isDigit cs \<noteq> [] \<and> validExp (dropWhile isDigit cs) else validExp s
      | [] \<Rightarrow> True)"

definition validNum :: "string \<Rightarrow> bool" where
  "validNum s =
     (let u = (case s of c # cs \<Rightarrow> if c = CHR ''-'' then cs else s | [] \<Rightarrow> [])
      in case u of
           [] \<Rightarrow> False
         | d # cs \<Rightarrow>
             if d = CHR ''0'' then validFrac cs
             else isDigit d \<and> validFrac (dropWhile isDigit cs))"

text \<open>The text after white space and the given character, if that comes next.\<close>

definition eat :: "char \<Rightarrow> string \<Rightarrow> string option" where
  "eat c s = (case skipWs s of [] \<Rightarrow> None | d # rest \<Rightarrow> if d = c then Some rest else None)"

fun parseValue :: "nat \<Rightarrow> string \<Rightarrow> (json \<times> string) option"
  and parseElems :: "nat \<Rightarrow> string \<Rightarrow> (json list \<times> string) option"
  and parseMembers :: "nat \<Rightarrow> string \<Rightarrow> ((string \<times> json) list \<times> string) option" where
  "parseValue 0 s = None"
| "parseValue (Suc n) s =
     (case skipWs s of
        [] \<Rightarrow> None
      | c # cs \<Rightarrow>
          if c = quoteC then map_option (\<lambda>(t, rest). (JStr t, rest)) (parseStr cs)
          else if c = CHR ''['' then
            (case eat (CHR '']'') cs of
               Some rest \<Rightarrow> Some (JArr [], rest)
             | None \<Rightarrow> map_option (\<lambda>(vs, rest). (JArr vs, rest)) (parseElems n cs))
          else if c = CHR ''{'' then
            (case eat (CHR ''}'') cs of
               Some rest \<Rightarrow> Some (JObj [], rest)
             | None \<Rightarrow> map_option (\<lambda>(ms, rest). (JObj ms, rest)) (parseMembers n cs))
          else if hasPrefix (c # cs) ''null'' then Some (JNull, drop 4 (c # cs))
          else if hasPrefix (c # cs) ''true'' then Some (JBool True, drop 4 (c # cs))
          else if hasPrefix (c # cs) ''false'' then Some (JBool False, drop 5 (c # cs))
          else
            (let lit = takeWhile isNumChar (c # cs) in
             if validNum lit then Some (JNum lit, dropWhile isNumChar (c # cs)) else None))"
| "parseElems 0 s = None"
| "parseElems (Suc n) s =
     (case parseValue n s of
        None \<Rightarrow> None
      | Some (v, s1) \<Rightarrow>
          (case eat (CHR '','') s1 of
             Some s2 \<Rightarrow> map_option (\<lambda>(vs, rest). (v # vs, rest)) (parseElems n s2)
           | None \<Rightarrow> map_option (\<lambda>rest. ([v], rest)) (eat (CHR '']'') s1)))"
| "parseMembers 0 s = None"
| "parseMembers (Suc n) s =
     (case eat quoteC s of
        None \<Rightarrow> None
      | Some cs \<Rightarrow>
          (case parseStr cs of
             None \<Rightarrow> None
           | Some (k, s1) \<Rightarrow>
               (case eat (CHR '':'') s1 of
                  None \<Rightarrow> None
                | Some s2 \<Rightarrow>
                    (case parseValue n s2 of
                       None \<Rightarrow> None
                     | Some (v, s3) \<Rightarrow>
                         (case eat (CHR '','') s3 of
                            Some s4 \<Rightarrow> map_option (\<lambda>(ms, rest). ((k, v) # ms, rest)) (parseMembers n s4)
                          | None \<Rightarrow> map_option (\<lambda>rest. ([(k, v)], rest)) (eat (CHR ''}'') s3))))))"

definition parseJson :: "string \<Rightarrow> json option" where
  "parseJson s =
     (case parseValue (2 * length s + 1) s of
        Some (v, rest) \<Rightarrow> if skipWs rest = [] then Some v else None
      | None \<Rightarrow> None)"

definition jsonValid :: "string \<Rightarrow> bool" where
  "jsonValid s \<longleftrightarrow> parseJson s \<noteq> None"

section \<open>The encoder's text decodes to the value\<close>

lemma hexVal_hexDigit: "k < 16 \<Longrightarrow> hexVal (hexDigit k) = Some k"
  by (auto simp: hexVal_def hexDigit_def)

lemma escape_cases:
  "escapeChar c = [bslash, c] \<and> (c = quoteC \<or> c = bslash) \<or>
   (\<exists>e. escapeChar c = [bslash, e] \<and> e \<noteq> CHR ''u'' \<and> simpleEscape e = Some c) \<or>
   (\<exists>x y. escapeChar c = [bslash, CHR ''u'', CHR ''0'', CHR ''0'', x, y] \<and>
          hex4 (CHR ''0'') (CHR ''0'') x y = Some (of_char c) \<and> (of_char c :: nat) < 128) \<or>
   escapeChar c = [c] \<and> c \<noteq> quoteC \<and> c \<noteq> bslash \<and> \<not> (of_char c :: nat) < 32"
proof -
  let ?n = "of_char c :: nat"
  have hexes: "hex4 (CHR ''0'') (CHR ''0'') (hexDigit (n div 16)) (hexDigit (n mod 16)) = Some n" if "n < 256" for n :: nat
    using that by (simp add: hex4_def hexVal_hexDigit) (simp add: hexVal_def)
  consider (plain) "c = quoteC \<or> c = bslash"
    | (ctl) "?n \<in> {9, 10, 13}"
    | (hex) "\<not> (c = quoteC \<or> c = bslash)" "?n \<notin> {9, 10, 13}" "?n < 32 \<or> ?n = 0x3C \<or> ?n = 0x3E \<or> ?n = 0x26"
    | (raw) "\<not> (c = quoteC \<or> c = bslash)" "?n \<notin> {9, 10, 13}"
        "\<not> (?n < 32 \<or> ?n = 0x3C \<or> ?n = 0x3E \<or> ?n = 0x26)"
    by argo
  then show ?thesis
  proof cases
    case plain
    then show ?thesis by (simp add: escapeChar_def)
  next
    case ctl
    then have "c = char_of (9::nat) \<or> c = char_of (10::nat) \<or> c = char_of (13::nat)" by (metis char_of_char empty_iff insert_iff)
    then have "\<exists>e. escapeChar c = [bslash, e] \<and> e \<noteq> CHR ''u'' \<and> simpleEscape e = Some c"
      by (elim disjE) (simp_all add: escapeChar_def simpleEscape_def quoteC_def bslash_def)
    then show ?thesis by blast
  next
    case hex
    then have "escapeChar c = [bslash, CHR ''u'', CHR ''0'', CHR ''0'', hexDigit (?n div 16), hexDigit (?n mod 16)]"
      unfolding escapeChar_def Let_def by (simp only: if_False if_True insert_iff de_Morgan_disj simp_thms)
    moreover from hex(3) have "?n < 128" by auto
    ultimately show ?thesis using hexes [of ?n] by auto
  next
    case raw
    then have "escapeChar c = [c]"
      unfolding escapeChar_def Let_def by (simp only: if_False if_True insert_iff de_Morgan_disj simp_thms)
    with raw show ?thesis by blast
  qed
qed

lemma parseStr_simple:
  "e \<noteq> CHR ''u'' \<Longrightarrow> simpleEscape e = Some x \<Longrightarrow> parseStr (bslash # e # s) = addFront [x] (parseStr s)"
  by (subst parseStr.simps(2)) (simp add: bslash_def quoteC_def)

lemma parseStr_hex:
  assumes "hex4 p q r t = Some n" "n < 128"
  shows "parseStr (bslash # CHR ''u'' # p # q # r # t # s) = addFront [char_of n] (parseStr s)"
  using assms by (subst parseStr.simps(2)) (simp add: bslash_def quoteC_def isSurrogate_def utf8_def)

lemma parseStr_raw:
  "c \<noteq> quoteC \<Longrightarrow> c \<noteq> bslash \<Longrightarrow> \<not> (of_char c :: nat) < 32 \<Longrightarrow> parseStr (c # s) = addFront [c] (parseStr s)"
  by (subst parseStr.simps(2)) simp

lemma parseStr_escape: "parseStr (escapeChar c @ s) = addFront [c] (parseStr s)"
proof -
  have "simpleEscape c = Some c" "c \<noteq> CHR ''u''" if "c = quoteC \<or> c = bslash"
    using that by (auto simp: simpleEscape_def quoteC_def bslash_def)
  with escape_cases [of c] show ?thesis
    by (elim disjE exE conjE) (simp_all add: parseStr_simple parseStr_hex parseStr_raw)
qed

lemma parseStr_encode: "parseStr (concat (map escapeChar s) @ quoteC # rest) = Some (s, rest)"
  by (induction s) (simp_all add: parseStr_escape addFront_def parseStr.simps(2))

text \<open>Values whose number literals are JSON numbers.\<close>

fun wfJson :: "json \<Rightarrow> bool" where
  "wfJson (JNum n) = (validNum n \<and> list_all isNumChar n)"
| "wfJson (JArr vs) = list_all wfJson vs"
| "wfJson (JObj ms) = list_all (\<lambda>(k, v). wfJson v) ms"
| "wfJson _ = True"

definition numEnd :: "string \<Rightarrow> bool" where
  "numEnd rest \<longleftrightarrow> (case rest of [] \<Rightarrow> True | c # _ \<Rightarrow> \<not> isNumChar c)"

lemma numEnd_simps [simp]:
  "numEnd []" "numEnd (CHR '','' # s)" "numEnd (CHR '']'' # s)" "numEnd (CHR ''}'' # s)"
  by (simp_all add: numEnd_def isNumChar_def isDigit_def)

lemma numEnd_append: "list_all isNumChar n \<Longrightarrow> numEnd rest \<Longrightarrow>
    takeWhile isNumChar (n @ rest) = n \<and> dropWhile isNumChar (n @ rest) = rest"
  by (induction n) (auto simp: numEnd_def split: list.splits)

lemma validNum_head:
  assumes "validNum s"
  obtains c cs where "s = c # cs" "c = CHR ''-'' \<or> isDigit c"
proof (cases s)
  case (Cons c cs)
  with assms that show thesis
    by (auto simp: validNum_def isDigit_def split: if_splits list.splits)
qed (use assms in \<open>simp add: validNum_def\<close>)

definition valueHead :: "char \<Rightarrow> bool" where
  "valueHead c \<longleftrightarrow> \<not> isJsonWs c \<and> c \<notin> set '']},''"

lemma digit_head: "c = CHR ''-'' \<or> isDigit c \<Longrightarrow>
    valueHead c \<and> c \<noteq> quoteC \<and> c \<noteq> CHR ''['' \<and> c \<noteq> CHR ''{'' \<and> c \<noteq> CHR ''n'' \<and> c \<noteq> CHR ''t'' \<and> c \<noteq> CHR ''f''"
  by (auto simp: valueHead_def isJsonWs_def isDigit_def quoteC_def)

lemma marshal_head:
  assumes "wfJson v"
  obtains c cs where "marshal v = c # cs" "valueHead c"
proof (cases v)
  case (JNum n)
  with assms obtain c cs where "n = c # cs" "c = CHR ''-'' \<or> isDigit c" by (auto elim: validNum_head)
  with digit_head [of c] JNum that show thesis by simp
next
  case (JBool b)
  with that show thesis by (cases b) (auto simp: valueHead_def isJsonWs_def)
qed (use that in \<open>auto simp: valueHead_def isJsonWs_def encodeString_def quoteC_def\<close>)

lemma skipWs_head [simp]: "valueHead c \<Longrightarrow> skipWs (c # s) = c # s"
  by (simp add: skipWs_def valueHead_def)

lemma eat_head: "\<not> isJsonWs c \<Longrightarrow> eat d (c # s) = (if c = d then Some s else None)"
  by (simp add: eat_def skipWs_def)

lemma eat_simps [simp]:
  "eat (CHR '','') (CHR '','' # s) = Some s" "eat (CHR '']'') (CHR '']'' # s) = Some s"
  "eat (CHR ''}'') (CHR ''}'' # s) = Some s" "eat (CHR '':'') (CHR '':'' # s) = Some s"
  "eat (CHR '','') (CHR '']'' # s) = None" "eat (CHR '','') (CHR ''}'' # s) = None"
  "eat quoteC (quoteC # s) = Some s" "eat (CHR ''}'') (quoteC # s) = None"
  by (simp_all add: eat_head isJsonWs_def quoteC_def)

lemma parse_elems:
  assumes "\<And>v n rest. v \<in> set vs \<Longrightarrow> length (marshal v) \<le> n \<Longrightarrow> numEnd rest \<Longrightarrow>
      parseValue n (marshal v @ rest) = Some (v, rest)"
    and "vs \<noteq> []" and "length (join '','' (map marshal vs)) < n"
  shows "parseElems n (join '','' (map marshal vs) @ CHR '']'' # rest) = Some (vs, rest)"
  using assms
proof (induction vs arbitrary: n)
  case (Cons v vs)
  obtain m where n: "n = Suc m" using Cons.prems(3) by (cases n) auto
  show ?case
  proof (cases vs)
    case Nil
    with Cons.prems n show ?thesis by simp
  next
    case (Cons v' vs')
    let ?j = "join '','' (map marshal vs)"
    from Cons have eq: "join '','' (map marshal (v # vs)) = marshal v @ CHR '','' # ?j" by simp
    with Cons.prems(3) n have len: "length (marshal v) \<le> m" "length ?j < m" by simp_all
    have "parseValue m (marshal v @ CHR '','' # ?j @ CHR '']'' # rest) = Some (v, CHR '','' # ?j @ CHR '']'' # rest)"
      by (rule Cons.prems(1)) (simp_all add: len)
    moreover have "parseElems m (?j @ CHR '']'' # rest) = Some (vs, rest)"
      using Cons Cons.prems(1) len by (intro Cons.IH) auto
    ultimately show ?thesis unfolding eq n by simp
  qed
qed simp

lemma parse_members:
  assumes "\<And>k v n rest. (k, v) \<in> set ms \<Longrightarrow> length (marshal v) \<le> n \<Longrightarrow> numEnd rest \<Longrightarrow>
      parseValue n (marshal v @ rest) = Some (v, rest)"
    and "ms \<noteq> []" and "length (join '','' (map (\<lambda>(k, v). encodeString k @ '':'' @ marshal v) ms)) < n"
  shows "parseMembers n (join '','' (map (\<lambda>(k, v). encodeString k @ '':'' @ marshal v) ms) @ CHR ''}'' # rest)
    = Some (ms, rest)"
  using assms
proof (induction ms arbitrary: n)
  case (Cons kv ms)
  obtain k v where kv: "kv = (k, v)" by force
  obtain m where n: "n = Suc m" using Cons.prems(3) by (cases n) auto
  let ?p = "\<lambda>(k, v). encodeString k @ '':'' @ marshal v"
  show ?case
  proof (cases ms)
    case Nil
    with Cons.prems n kv show ?thesis by (simp add: encodeString_def parseStr_encode)
  next
    case (Cons kv' ms')
    let ?j = "join '','' (map ?p ms)"
    from Cons have eq: "join '','' (map ?p (kv # ms)) = ?p kv @ CHR '','' # ?j" by simp
    with Cons.prems(3) n kv have len: "length (marshal v) \<le> m" "length ?j < m" by simp_all
    have "parseValue m (marshal v @ CHR '','' # ?j @ CHR ''}'' # rest) = Some (v, CHR '','' # ?j @ CHR ''}'' # rest)"
      by (rule Cons.prems(1) [of k]) (simp_all add: kv len)
    moreover have "parseMembers m (?j @ CHR ''}'' # rest) = Some (ms, rest)"
      using Cons Cons.prems(1) len by (intro Cons.IH) auto
    ultimately show ?thesis unfolding eq n by (simp add: kv encodeString_def parseStr_encode)
  qed
qed simp

lemma parseValue_marshal:
  "wfJson v \<Longrightarrow> length (marshal v) \<le> n \<Longrightarrow> numEnd rest \<Longrightarrow> parseValue n (marshal v @ rest) = Some (v, rest)"
proof (induction v arbitrary: n rest)
  case (JNum s)
  from JNum.prems(1) obtain c cs where s: "s = c # cs" "c = CHR ''-'' \<or> isDigit c"
    by (auto elim: validNum_head)
  from s JNum.prems(2) obtain m where n: "n = Suc m" by (cases n) auto
  from digit_head [OF s(2)] s JNum.prems numEnd_append [of s rest] show ?case
    by (simp add: n hasPrefix_def)
next
  case (JArr vs)
  then obtain m where n: "n = Suc m" by (cases n) auto
  show ?case
  proof (cases vs)
    case Nil
    then show ?thesis by (simp add: n skipWs_def isJsonWs_def quoteC_def)
  next
    case (Cons v vs')
    with JArr.prems have "wfJson v" by simp
    then obtain c cs where "marshal v = c # cs" "valueHead c" by (rule marshal_head)
    with Cons have "eat (CHR '']'') (join '','' (map marshal vs) @ CHR '']'' # rest) = None"
      by (cases vs') (auto simp: eat_head valueHead_def)
    moreover have "parseElems m (join '','' (map marshal vs) @ CHR '']'' # rest) = Some (vs, rest)"
      using JArr n Cons by (intro parse_elems) (auto simp: list_all_iff)
    ultimately show ?thesis by (simp add: n skipWs_def isJsonWs_def quoteC_def)
  qed
next
  case (JObj ms)
  then obtain m where n: "n = Suc m" by (cases n) auto
  let ?t = "join '','' (map (\<lambda>(k, v). encodeString k @ '':'' @ marshal v) ms)"
  show ?case
  proof (cases ms)
    case Nil
    then show ?thesis by (simp add: n skipWs_def isJsonWs_def quoteC_def)
  next
    case (Cons kv ms')
    then have "eat (CHR ''}'') (?t @ CHR ''}'' # rest) = None"
      by (cases ms'; cases kv) (auto simp: encodeString_def)
    moreover have "parseMembers m (?t @ CHR ''}'' # rest) = Some (ms, rest)"
      using JObj n Cons by (intro parse_members) (fastforce simp: list_all_iff)+
    ultimately show ?thesis by (simp add: n skipWs_def isJsonWs_def quoteC_def)
  qed
next
  case (JStr s)
  then obtain m where n: "n = Suc m" by (cases n) (auto simp: encodeString_def)
  show ?case by (simp add: n encodeString_def parseStr_encode skipWs_def isJsonWs_def quoteC_def [symmetric])
    (simp add: quoteC_def)
next
  case JNull
  then obtain m where "n = Suc m" by (cases n) auto
  then show ?case by (simp add: skipWs_def isJsonWs_def quoteC_def hasPrefix_def)
next
  case (JBool b)
  then obtain m where "n = Suc m" by (cases n; cases b) auto
  then show ?case by (cases b) (simp_all add: skipWs_def isJsonWs_def quoteC_def hasPrefix_def)
qed

lemma parse_marshal: "wfJson v \<Longrightarrow> parseJson (marshal v) = Some v"
  using parseValue_marshal [of v "2 * length (marshal v) + 1" "[]"] by (simp add: parseJson_def skipWs_def del: parseValue.simps)

lemma parse_marshal_newline: "wfJson v \<Longrightarrow> parseJson (marshal v @ [CHR 0x0A]) = Some v"
  using parseValue_marshal [of v "Suc (Suc (Suc (2 * length (marshal v))))" "[CHR 0x0A]"]
  by (simp add: parseJson_def skipWs_def numEnd_def isNumChar_def isDigit_def isJsonWs_def del: parseValue.simps)

section \<open>The fuel is enough\<close>

lemma skipWs_length: "length (skipWs s) \<le> length s"
  by (simp add: skipWs_def length_dropWhile_le)

lemma eat_length: "eat c s = Some r \<Longrightarrow> length r < length s"
  using skipWs_length [of s] by (auto simp: eat_def split: list.splits if_splits)

lemma addFront_Some: "addFront p x = Some (t, r) \<Longrightarrow> \<exists>t'. x = Some (t', r)"
  by (auto simp: addFront_def)

lemma parseStr_step:
  "parseStr (c # cs) = Some (t, r) \<Longrightarrow> r = cs \<or> (\<exists>cs'. (\<exists>t'. parseStr cs' = Some (t', r)) \<and> length cs' \<le> length cs)"
  by (subst (asm) parseStr.simps(2))
    (auto split: if_splits list.splits option.splits dest!: addFront_Some secondSurrogate_length;
      (rule disjI2)?, rule exI, rule conjI, rule exI, assumption, simp)

lemma parseStr_length: "parseStr s = Some (t, r) \<Longrightarrow> length r < length s"
proof (induction "length s" arbitrary: s t r rule: less_induct)
  case less
  then obtain c cs where s: "s = c # cs" by (cases s) auto
  from parseStr_step [OF less.prems [unfolded s]]
  consider "r = cs" | cs' t' where "parseStr cs' = Some (t', r)" "length cs' \<le> length cs" by blast
  then show ?case
  proof cases
    case 2
    with less.hyps [of cs' t' r] s show ?thesis by simp
  qed (simp add: s)
qed

lemma number_length: "validNum (takeWhile isNumChar s) \<Longrightarrow> length (dropWhile isNumChar s) < length s"
proof -
  assume "validNum (takeWhile isNumChar s)"
  then have "takeWhile isNumChar s \<noteq> []" by (auto simp: validNum_def)
  moreover have "length (takeWhile isNumChar s) + length (dropWhile isNumChar s) = length s"
    by (metis length_append takeWhile_dropWhile_id)
  ultimately show ?thesis by (cases "takeWhile isNumChar s") auto
qed

lemma parse_length:
  "parseValue n s = Some (v, r) \<Longrightarrow> length r < length s"
  "parseElems n s = Some (vs, r) \<Longrightarrow> length r < length s"
  "parseMembers n s = Some (ms, r) \<Longrightarrow> length r < length s"
proof (induction n arbitrary: s v vs ms r)
  case (Suc n)
  {
    case 1
    obtain c cs where sk: "skipWs s = c # cs" using 1 by (cases "skipWs s") auto
    with skipWs_length [of s] have "length (c # cs) \<le> length s" by simp
    moreover from 1 sk have "(\<exists>t. parseStr cs = Some (t, r)) \<or> (\<exists>d. eat d cs = Some r) \<or>
        (\<exists>vs. parseElems n cs = Some (vs, r)) \<or> (\<exists>ms. parseMembers n cs = Some (ms, r)) \<or>
        r = drop 4 (c # cs) \<or> r = drop 5 (c # cs) \<or>
        validNum (takeWhile isNumChar (c # cs)) \<and> r = dropWhile isNumChar (c # cs)"
      unfolding parseValue.simps sk list.case Let_def
      by (simp del: takeWhile.simps dropWhile.simps split: if_splits option.splits) blast+
    ultimately show ?case
      using parseStr_length [of cs] eat_length [of _ cs] Suc.IH(2,3) [of cs] number_length [of "c # cs"]
      by (elim disjE exE conjE) fastforce+
  next
    case 2
    then obtain v s1 where v: "parseValue n s = Some (v, s1)" by (auto split: option.splits)
    with 2 have "(\<exists>d. eat d s1 = Some r) \<or> (\<exists>d s2 vs. eat d s1 = Some s2 \<and> parseElems n s2 = Some (vs, r))"
      by (auto split: option.splits)
    with Suc.IH(1) [OF v] Suc.IH(2) eat_length show ?case by (meson order.strict_trans)
  next
    case 3
    then obtain cs k s1 s2 v s3 where p: "eat quoteC s = Some cs" "parseStr cs = Some (k, s1)"
        "eat (CHR '':'') s1 = Some s2" "parseValue n s2 = Some (v, s3)"
      by (auto split: option.splits)
    with 3 have "(\<exists>d. eat d s3 = Some r) \<or> (\<exists>d s4 ms. eat d s3 = Some s4 \<and> parseMembers n s4 = Some (ms, r))"
      by (auto split: option.splits)
    with Suc.IH(1) [OF p(4)] Suc.IH(3) eat_length p parseStr_length show ?case by (meson order.strict_trans)
  }
qed simp_all

lemma parse_fuel:
  "2 * length s < n \<Longrightarrow> 2 * length s < m \<Longrightarrow> parseValue n s = parseValue m s"
  "2 * length s + 1 < n \<Longrightarrow> 2 * length s + 1 < m \<Longrightarrow> parseElems n s = parseElems m s"
  "2 * length s + 1 < n \<Longrightarrow> 2 * length s + 1 < m \<Longrightarrow> parseMembers n s = parseMembers m s"
proof (induction n arbitrary: m s)
  case (Suc n)
  {
    case 1
    then obtain m' where m: "m = Suc m'" by (cases m) auto
    show ?case
    proof (cases "skipWs s")
      case (Cons c cs)
      with skipWs_length [of s] 1 m
      have "parseElems n cs = parseElems m' cs" "parseMembers n cs = parseMembers m' cs"
        by (auto intro!: Suc.IH(2,3))
      then show ?thesis by (simp add: m Cons cong: option.case_cong)
    qed (simp add: m)
  next
    case 2
    then obtain m' where m: "m = Suc m'" by (cases m) auto
    with 2 have "parseValue n s = parseValue m' s" by (intro Suc.IH(1)) auto
    moreover have "parseElems n s2 = parseElems m' s2" if "parseValue m' s = Some (v, s1)" "eat c s1 = Some s2" for v s1 c s2
      using 2 m parse_length(1) [OF that(1)] eat_length [OF that(2)] by (intro Suc.IH(2)) auto
    ultimately show ?case by (auto simp: m split: option.splits)
  next
    case 3
    then obtain m' where m: "m = Suc m'" by (cases m) auto
    have v: "parseValue n s2 = parseValue m' s2" if "length s2 < length s" for s2
      using 3 m that by (intro Suc.IH(1)) auto
    have "parseMembers n s4 = parseMembers m' s4" if "length s4 < length s" for s4
      using 3 m that by (intro Suc.IH(3)) auto
    note rec = v this
    consider "eat quoteC s = None" | cs where "eat quoteC s = Some cs" "parseStr cs = None"
      | cs k s1 where "eat quoteC s = Some cs" "parseStr cs = Some (k, s1)" "eat (CHR '':'') s1 = None"
      | (val) cs k s1 s2 where "eat quoteC s = Some cs" "parseStr cs = Some (k, s1)" "eat (CHR '':'') s1 = Some s2"
      by (metis option.exhaust surj_pair)
    then show ?case
    proof cases
      case val
      then have s2: "length s2 < length s" by (auto dest!: eat_length parseStr_length)
      show ?thesis
      proof (cases "parseValue m' s2")
        case (Some vs)
        obtain v s3 where vs: "vs = (v, s3)" by force
        with Some s2 have "length s3 < length s" by (auto dest!: parse_length(1))
        then have "eat (CHR '','') s3 = Some s4 \<Longrightarrow> parseMembers n s4 = parseMembers m' s4" for s4
          by (intro rec(2)) (auto dest: eat_length)
        then show ?thesis using val rec(1) [OF s2] Some vs by (simp add: m split: option.split)
      qed (use val rec(1) [OF s2] in \<open>simp add: m\<close>)
    qed (simp_all add: m)
  }
qed simp_all

lemma parseJson_fuel: "2 * length s < n \<Longrightarrow>
    parseJson s = (case parseValue n s of Some (v, rest) \<Rightarrow> if skipWs rest = [] then Some v else None | None \<Rightarrow> None)"
  using parse_fuel(1) [of s "2 * length s + 1" n] by (simp add: parseJson_def)

section \<open>Structs of strings\<close>

text \<open>
  A struct whose fields are all strings is a map from the field's JSON name to its value.
  \<open>json.Encoder.Encode\<close> writes it with a newline. Decoding sets the fields that are present (names
  compare without case), leaves the others, and reports an error for a value of another type.
\<close>

definition encodeStrings :: "string gomap \<Rightarrow> string" where
  "encodeStrings m = marshal (JObj (map (\<lambda>(k, v). (k, JStr v)) m)) @ [CHR 0x0A]"

definition setField :: "string \<Rightarrow> string \<Rightarrow> string gomap \<Rightarrow> string gomap" where
  "setField k v m = map (\<lambda>(f, x). (f, if toLower f = toLower k then v else x)) m"

definition hasField :: "string \<Rightarrow> string gomap \<Rightarrow> bool" where
  "hasField k m \<longleftrightarrow> list_ex (\<lambda>(f, x). toLower f = toLower k) m"

fun unmarshalMembers :: "(string \<times> json) list \<Rightarrow> bool \<Rightarrow> string gomap \<Rightarrow> bool \<times> string gomap" where
  "unmarshalMembers [] ok m = (ok, m)"
| "unmarshalMembers ((k, v) # ms) ok m =
     (case v of
        JStr s \<Rightarrow> unmarshalMembers ms ok (setField k s m)
      | JNull \<Rightarrow> unmarshalMembers ms ok m
      | _ \<Rightarrow> unmarshalMembers ms (ok \<and> \<not> hasField k m) m)"

definition decodeStrings :: "string \<Rightarrow> string gomap \<Rightarrow> bool \<times> string gomap" where
  "decodeStrings s m =
     (case parseJson s of
        Some JNull \<Rightarrow> (True, m)
      | Some (JObj ms) \<Rightarrow> unmarshalMembers ms True m
      | _ \<Rightarrow> (False, m))"

lemma decode_encode_two:
  assumes "toLower k1 \<noteq> toLower k2"
  shows "decodeStrings (encodeStrings [(k1, x1), (k2, x2)]) [(k1, y1), (k2, y2)] = (True, [(k1, x1), (k2, x2)])"
  using assms parse_marshal_newline [of "JObj [(k1, JStr x1), (k2, JStr x2)]"]
  by (simp add: decodeStrings_def encodeStrings_def setField_def del: marshal.simps)

end
