(* ===== verification/Pathz_Server.thy ===== *)
theory Pathz_Server
  imports Pathz_Authorizer Host Json "HOL-Library.Word"
begin

text \<open>
  The gNSI pathz service of \<^verbatim>\<open>gnmi_server/gnsi_pathz.go\<close>, which rotates the path authorization policy:
  checkpoint, uploads, then Finalize to commit or anything else to revert.

  The server holds its processor through the interface \<open>GnmiAuthzProcessorInterface\<close>, so the operations
  take the two methods they call (\<open>upd\<close> for \<open>UpdatePolicyFromProto\<close>, \<open>getp\<close> for \<open>GetPolicy\<close>) as arguments. What
  the server needs of them is the locale \<open>policy_processor\<close>, interpreted on the processor of
  \<^verbatim>\<open>Pathz_Authorizer\<close>. \<open>proto.MarshalTextString\<close> is the argument \<open>mt\<close>.

  The metadata is reached through pointers, and the checkpoint copies the pointer, so the metadata live
  in an explicit store: \<open>ps_heap\<close>, with addresses in \<open>ps_metadata\<close> and \<open>ps_metadataCopy\<close>.

  A stream is the list of what \<open>Recv\<close> gives, each with whether sending the reply succeeds; after the
  last comes the end of the stream. Log lines are not modelled, and error texts are constructors.
\<close>

section \<open>State\<close>

record PathzMetadata =
  PathzVersion :: string
  PathzCreatedOn :: string

record 'p GNSIPathzServer =
  ps_processor :: 'p
  ps_heap :: "PathzMetadata list"
  ps_metadata :: nat
  ps_metadataCopy :: "nat option"
  ps_policyCopy :: "AuthorizationPolicy option"
  ps_policyUpdated :: bool
  ps_policyFile :: string
  ps_policyBackup :: string
  ps_metaFile :: string

record UploadRequest =
  up_version :: string
  up_createdOn :: "64 word"
  up_policy :: "AuthorizationPolicy option"

datatype RotateRequest =
    UploadReq UploadRequest (forceOverwrite: bool)
  | FinalizeReq
  | UnsetReq

datatype event = Recv RotateRequest (sendOk: bool) | RecvError

datatype 'e request_error =
    UnknownRequest | EmptyVersion | VersionExists string | SaveFailed | VerifyFailed | PolicyRejected 'e

datatype 'e rotate_error =
    NotAuthenticated | Concurrent | FileMissing | CheckpointFailed
  | RevertFailed | NoFinalize | ReceiveFailed | FinalizeWithoutRotation | CommitFailed
  | RequestFailed "'e request_error" | SendFailed

fun rotate_code :: "'e rotate_error \<Rightarrow> code" where
  "rotate_code NotAuthenticated = Unauthenticated"
| "rotate_code FileMissing = NotFound"
| "rotate_code (RequestFailed (VersionExists v)) = AlreadyExists"
| "rotate_code _ = Aborted"

section \<open>Metadata\<close>

definition pathzTbl :: string where "pathzTbl = ''PATHZ_POLICY|''"
definition pathzVersionFld :: string where "pathzVersionFld = ''pathz_version''"
definition pathzCreatedOnFld :: string where "pathzCreatedOnFld = ''pathz_created_on''"
definition pathzPolicyActive :: string where "pathzPolicyActive = ''ACTIVE''"

definition NewPathzMetadata :: PathzMetadata where
  "NewPathzMetadata = \<lparr>PathzVersion = ''unknown'', PathzCreatedOn = ''0''\<rparr>"

definition metadata :: "'p GNSIPathzServer \<Rightarrow> PathzMetadata" where
  "metadata srv = ps_heap srv ! ps_metadata srv"

definition metaFields :: "PathzMetadata \<Rightarrow> string gomap" where
  "metaFields m = [(pathzVersionFld, PathzVersion m), (pathzCreatedOnFld, PathzCreatedOn m)]"

definition metaOfFields :: "string gomap \<Rightarrow> PathzMetadata" where
  "metaOfFields fs =
     \<lparr>PathzVersion = the (map_of fs pathzVersionFld), PathzCreatedOn = the (map_of fs pathzCreatedOnFld)\<rparr>"

definition savePathzFileFreshess :: "string \<Rightarrow> 'p GNSIPathzServer \<Rightarrow> world \<Rightarrow> bool \<times> world" where
  "savePathzFileFreshess path srv w = attemptWrite path (encodeStrings (metaFields (metadata srv))) w"

definition setMetadata :: "PathzMetadata \<Rightarrow> 'p GNSIPathzServer \<Rightarrow> 'p GNSIPathzServer" where
  "setMetadata m srv = srv\<lparr>ps_heap := (ps_heap srv)[ps_metadata srv := m]\<rparr>"

definition loadPathzFreshness ::
  "string \<Rightarrow> 'p GNSIPathzServer \<Rightarrow> world \<Rightarrow> bool \<times> 'p GNSIPathzServer \<times> world" where
  "loadPathzFreshness path srv w =
     (case osReadFile path w of
        (None, w1) \<Rightarrow> (False, srv, w1)
      | (Some bytes, w1) \<Rightarrow>
          (case decodeStrings bytes (metaFields (metadata srv)) of
             (ok, fs) \<Rightarrow> (ok, setMetadata (metaOfFields fs) srv, w1)))"

definition writePathzMetadataToDB :: "string \<Rightarrow> 'p GNSIPathzServer \<Rightarrow> world \<Rightarrow> bool \<times> world" where
  "writePathzMetadataToDB inst srv w =
     (case writeCredentialsMetadataToDB (pathzTbl @ inst) '''' pathzVersionFld (PathzVersion (metadata srv)) w of
        (False, w1) \<Rightarrow> (False, w1)
      | (True, w1) \<Rightarrow>
          writeCredentialsMetadataToDB (pathzTbl @ inst) '''' pathzCreatedOnFld (PathzCreatedOn (metadata srv)) w1)"

section \<open>The policy file and the processor\<close>

definition savePathzPolicyToFile ::
  "(AuthorizationPolicy option \<Rightarrow> string) \<Rightarrow> AuthorizationPolicy option \<Rightarrow> 'p GNSIPathzServer \<Rightarrow> world
   \<Rightarrow> string \<times> bool \<times> world" where
  "savePathzPolicyToFile mt p srv w =
     (mt p, attemptWrite (ps_policyFile srv) (mt p) w)"

definition verifyPathzFile :: "string \<Rightarrow> 'p GNSIPathzServer \<Rightarrow> world \<Rightarrow> bool \<times> world" where
  "verifyPathzFile c srv w =
     (case osReadFile (ps_policyFile srv) w of
        (None, w1) \<Rightarrow> (False, w1)
      | (Some content, w1) \<Rightarrow> (c = content, w1))"

definition updatePolicy ::
  "('p \<Rightarrow> AuthorizationPolicy option \<Rightarrow> 'e option \<times> 'p) \<Rightarrow> (AuthorizationPolicy option \<Rightarrow> string)
   \<Rightarrow> AuthorizationPolicy option \<Rightarrow> 'p GNSIPathzServer \<Rightarrow> world
   \<Rightarrow> 'e request_error option \<times> 'p GNSIPathzServer \<times> world" where
  "updatePolicy upd mt p srv w =
     (case savePathzPolicyToFile mt p srv w of
        (c, False, w1) \<Rightarrow> (Some SaveFailed, srv, w1)
      | (c, True, w1) \<Rightarrow>
          (case verifyPathzFile c srv w1 of
             (False, w2) \<Rightarrow> (Some VerifyFailed, srv, w2)
           | (True, w2) \<Rightarrow>
               (case upd (ps_processor srv) p of
                  (e, pr) \<Rightarrow> (map_option PolicyRejected e, srv\<lparr>ps_processor := pr\<rparr>, w2))))"

text \<open>The checkpoint keeps the pointer to the metadata, not a copy of them.\<close>

definition createCheckpoint ::
  "('p \<Rightarrow> AuthorizationPolicy option) \<Rightarrow> 'p GNSIPathzServer \<Rightarrow> world \<Rightarrow> bool \<times> 'p GNSIPathzServer \<times> world" where
  "createCheckpoint getp srv w =
     (let srv' = srv\<lparr>ps_policyCopy := getp (ps_processor srv), ps_policyUpdated := False,
                     ps_metadataCopy := Some (ps_metadata srv)\<rparr>
      in case copyFile (ps_policyFile srv) (ps_policyBackup srv) w of (ok, w1) \<Rightarrow> (ok, srv', w1))"

text \<open>\<open>ps_metadataCopy\<close> is set by every checkpoint, and a revert only follows a checkpoint.\<close>

definition restoreMetadata :: "'p GNSIPathzServer \<Rightarrow> 'p GNSIPathzServer" where
  "restoreMetadata srv =
     (case ps_metadataCopy srv of None \<Rightarrow> srv | Some a \<Rightarrow> srv\<lparr>ps_metadata := a\<rparr>)"

definition revertPolicy ::
  "('p \<Rightarrow> AuthorizationPolicy option \<Rightarrow> 'e option \<times> 'p) \<Rightarrow> 'p GNSIPathzServer \<Rightarrow> world
   \<Rightarrow> bool \<times> 'p GNSIPathzServer \<times> world" where
  "revertPolicy upd srv w =
     (let (e, srv1) =
        (if ps_policyUpdated srv then
           (case upd (ps_processor srv) (ps_policyCopy srv) of
              (e, pr) \<Rightarrow> (e, srv\<lparr>ps_policyUpdated := False, ps_processor := pr\<rparr>))
         else (None, srv))
      in case e of
           Some _ \<Rightarrow> (False, srv1, snd (osRemove (ps_policyBackup srv) w))
         | None \<Rightarrow>
             (case osRename (ps_policyBackup srv) (ps_policyFile srv) w of
                (ok, w1) \<Rightarrow> (ok, restoreMetadata srv1, w1)))"

definition commitChanges :: "'p GNSIPathzServer \<Rightarrow> world \<Rightarrow> bool \<times> world" where
  "commitChanges srv w =
     (case writePathzMetadataToDB pathzPolicyActive srv w of
        (False, w1) \<Rightarrow> (False, w1)
      | (True, w1) \<Rightarrow> savePathzFileFreshess (ps_metaFile srv) srv w1)"

section \<open>The RPC\<close>

definition processRotateRequest ::
  "('p \<Rightarrow> AuthorizationPolicy option \<Rightarrow> 'e option \<times> 'p) \<Rightarrow> (AuthorizationPolicy option \<Rightarrow> string)
   \<Rightarrow> RotateRequest \<Rightarrow> 'p GNSIPathzServer \<Rightarrow> world \<Rightarrow> 'e request_error option \<times> 'p GNSIPathzServer \<times> world" where
  "processRotateRequest upd mt req srv w =
     (case req of
        UploadReq up force \<Rightarrow>
          if up_version up = '''' then (Some EmptyVersion, srv, w)
          else if PathzVersion (metadata srv) = up_version up \<and> \<not> force
          then (Some (VersionExists (up_version up)), srv, w)
          else
            (let srv1 = setMetadata \<lparr>PathzVersion = up_version up,
                                     PathzCreatedOn = formatUint (unat (up_createdOn up))\<rparr> srv
             in case updatePolicy upd mt (up_policy up) srv1 w of
                  (Some e, srv2, w1) \<Rightarrow> (Some e, srv2, w1)
                | (None, srv2, w1) \<Rightarrow> (None, srv2\<lparr>ps_policyUpdated := True\<rparr>, w1))
      | _ \<Rightarrow> (Some UnknownRequest, srv, w))"

datatype 'e outcome = Continue | Return "'e rotate_error option"

text \<open>What the loop of \<open>Rotate\<close> does with what \<open>Recv\<close> gave; \<open>None\<close> is the end of the stream.\<close>

definition rotateEvent ::
  "('p \<Rightarrow> AuthorizationPolicy option \<Rightarrow> 'e option \<times> 'p) \<Rightarrow> (AuthorizationPolicy option \<Rightarrow> string)
   \<Rightarrow> event option \<Rightarrow> 'p GNSIPathzServer \<Rightarrow> world \<Rightarrow> 'e outcome \<times> 'p GNSIPathzServer \<times> world" where
  "rotateEvent upd mt ev srv w =
     (let reverting = (\<lambda>e srv w. case revertPolicy upd srv w of (_, srv', w') \<Rightarrow> (Return (Some e), srv', w'))
      in case ev of
           None \<Rightarrow>
             (case revertPolicy upd srv w of
                (ok, srv', w') \<Rightarrow> (Return (Some (if ok then NoFinalize else RevertFailed)), srv', w'))
         | Some RecvError \<Rightarrow> reverting ReceiveFailed srv w
         | Some (Recv req ok) \<Rightarrow>
             (case req of
                FinalizeReq \<Rightarrow>
                  if \<not> ps_policyUpdated srv then reverting FinalizeWithoutRotation srv w
                  else
                    (case commitChanges srv w of
                       (False, w1) \<Rightarrow> (Return (Some CommitFailed), srv, w1)
                     | (True, w1) \<Rightarrow> (Return None, srv, snd (osRemove (ps_policyBackup srv) w1)))
              | _ \<Rightarrow>
                  (case processRotateRequest upd mt req srv w of
                     (Some e, srv1, w1) \<Rightarrow> reverting (RequestFailed e) srv1 w1
                   | (None, srv1, w1) \<Rightarrow>
                       if ok then (Continue, srv1, w1) else reverting SendFailed srv1 w1)))"

fun rotateLoop ::
  "('p \<Rightarrow> AuthorizationPolicy option \<Rightarrow> 'e option \<times> 'p) \<Rightarrow> (AuthorizationPolicy option \<Rightarrow> string)
   \<Rightarrow> event list \<Rightarrow> 'p GNSIPathzServer \<Rightarrow> world \<Rightarrow> 'e rotate_error option \<times> 'p GNSIPathzServer \<times> world" where
  "rotateLoop upd mt [] srv w =
     (case rotateEvent upd mt None srv w of
        (Return r, srv', w') \<Rightarrow> (r, srv', w')
      | (Continue, srv', w') \<Rightarrow> (Some NoFinalize, srv', w'))"
| "rotateLoop upd mt (ev # evs) srv w =
     (case rotateEvent upd mt (Some ev) srv w of
        (Return r, srv', w') \<Rightarrow> (r, srv', w')
      | (Continue, srv', w') \<Rightarrow> rotateLoop upd mt evs srv' w')"

definition startRotate ::
  "('p \<Rightarrow> AuthorizationPolicy option) \<Rightarrow> 'p GNSIPathzServer \<Rightarrow> world
   \<Rightarrow> 'e rotate_error option \<times> 'p GNSIPathzServer \<times> world" where
  "startRotate getp srv w =
     (case fileCheck (ps_policyFile srv) w of
        (False, w1) \<Rightarrow> (Some FileMissing, srv, w1)
      | (True, w1) \<Rightarrow>
          (case createCheckpoint getp srv w1 of
             (False, srv1, w2) \<Rightarrow> (Some CheckpointFailed, srv1, w2)
           | (True, srv1, w2) \<Rightarrow> (None, srv1, w2)))"

text \<open>\<open>authOk\<close> is what \<open>authenticate\<close> says of the caller, \<open>locked\<close> whether another session holds \<open>pathzMu\<close>.\<close>

definition Rotate ::
  "('p \<Rightarrow> AuthorizationPolicy option \<Rightarrow> 'e option \<times> 'p) \<Rightarrow> ('p \<Rightarrow> AuthorizationPolicy option)
   \<Rightarrow> (AuthorizationPolicy option \<Rightarrow> string) \<Rightarrow> bool \<Rightarrow> bool \<Rightarrow> event list \<Rightarrow> 'p GNSIPathzServer \<Rightarrow> world
   \<Rightarrow> 'e rotate_error option \<times> 'p GNSIPathzServer \<times> world" where
  "Rotate upd getp mt authOk locked evs srv w =
     (if \<not> authOk then (Some NotAuthenticated, srv, w)
      else if locked then (Some Concurrent, srv, w)
      else
        (case startRotate getp srv w of
           (Some e, srv1, w1) \<Rightarrow> (Some e, srv1, w1)
         | (None, srv1, w1) \<Rightarrow> rotateLoop upd mt evs srv1 w1))"

section \<open>Start of the service\<close>

text \<open>\<open>parse\<close> stands for \<open>proto.UnmarshalText\<close>.\<close>

definition NewGNSIPathzServer ::
  "(string \<Rightarrow> AuthorizationPolicy option) \<Rightarrow> bool \<Rightarrow> string \<Rightarrow> string \<Rightarrow> world
   \<Rightarrow> GnmiAuthzProcessor GNSIPathzServer \<times> world" where
  "NewGNSIPathzServer parse pathzPolicy policyFile metaFile w =
     (let srv = \<lparr>ps_processor = newProcessor, ps_heap = [NewPathzMetadata], ps_metadata = 0,
                 ps_metadataCopy = None, ps_policyCopy = None, ps_policyUpdated = False,
                 ps_policyFile = policyFile, ps_policyBackup = policyFile @ ''.backup'',
                 ps_metaFile = metaFile\<rparr>
      in case loadPathzFreshness metaFile srv w of
           (_, srv1, w1) \<Rightarrow>
             (case writePathzMetadataToDB pathzPolicyActive srv1 w1 of
                (_, w2) \<Rightarrow>
                  if pathzPolicy then
                    (case osReadFile policyFile w2 of
                       (content, w3) \<Rightarrow>
                         (case UpdatePolicyFromFile (\<lambda>f. Option.bind content parse) (ps_processor srv1) policyFile of
                            (_, pr) \<Rightarrow> (srv1\<lparr>ps_processor := pr\<rparr>, w3)))
                  else (srv1, w2)))"

section \<open>Sessions\<close>

text \<open>The last upload of a list of messages, all of them answered.\<close>

fun lastUpload :: "UploadRequest option \<Rightarrow> event list \<Rightarrow> UploadRequest option" where
  "lastUpload l [] = l"
| "lastUpload l (Recv (UploadReq up force) ok # evs) = lastUpload (Some up) evs"
| "lastUpload l (_ # evs) = lastUpload l evs"

text \<open>Policy, file, metadata, metadata file and database all say what the upload says.\<close>

definition committed ::
  "('p \<Rightarrow> AuthorizationPolicy option) \<Rightarrow> (AuthorizationPolicy option \<Rightarrow> string) \<Rightarrow> UploadRequest
   \<Rightarrow> 'p GNSIPathzServer \<Rightarrow> world \<Rightarrow> bool" where
  "committed getp mt up srv w \<longleftrightarrow>
     getp (ps_processor srv) = up_policy up \<and>
     map_of (w_files w) (ps_policyFile srv) = Some (Regular (mt (up_policy up))) \<and>
     metadata srv = \<lparr>PathzVersion = up_version up, PathzCreatedOn = formatUint (unat (up_createdOn up))\<rparr> \<and>
     map_of (w_files w) (ps_metaFile srv) = Some (Regular (encodeStrings (metaFields (metadata srv)))) \<and>
     hget ''CREDENTIALS|PATHZ_POLICY|ACTIVE'' ''pathz_version'' (w_db w) = Some (up_version up) \<and>
     hget ''CREDENTIALS|PATHZ_POLICY|ACTIVE'' ''pathz_created_on'' (w_db w) =
       Some (formatUint (unat (up_createdOn up)))"

lemma updatePolicy_cases:
  assumes "updatePolicy upd mt p srv w = (r, srv', w')"
  obtains (failed) "srv' = srv" "r \<noteq> None"
    | (tried) e pr where "upd (ps_processor srv) p = (e, pr)" "r = map_option PolicyRejected e"
        "srv' = srv\<lparr>ps_processor := pr\<rparr>"
proof -
  obtain ok1 w1 where 1: "attemptWrite (ps_policyFile srv) (mt p) w = (ok1, w1)" by force
  obtain ok2 w2 where 2: "verifyPathzFile (mt p) srv w1 = (ok2, w2)" by force
  obtain e pr where 3: "upd (ps_processor srv) p = (e, pr)" by force
  have eq: "updatePolicy upd mt p srv w =
      (if \<not> ok1 then (Some SaveFailed, srv, w1) else if \<not> ok2 then (Some VerifyFailed, srv, w2)
       else (map_option PolicyRejected e, srv\<lparr>ps_processor := pr\<rparr>, w2))"
    unfolding updatePolicy_def savePathzPolicyToFile_def by (cases ok1; cases ok2) (simp_all add: 1 2 3)
  show thesis
  proof (cases "ok1 \<and> ok2")
    case True
    with assms eq 3 show thesis by (intro tried) auto
  next
    case False
    with assms eq show thesis by (intro failed) (auto split: if_splits)
  qed
qed

lemma request_cases:
  assumes "processRotateRequest upd mt req srv w = (r, srv', w')"
  obtains (refused) "srv' = srv" "w' = w" "r \<noteq> None"
    | (tried) up force s1 where "req = UploadReq up force"
        "updatePolicy upd mt (up_policy up) (setMetadata \<lparr>PathzVersion = up_version up,
           PathzCreatedOn = formatUint (unat (up_createdOn up))\<rparr> srv) w = (r, s1, w')"
        "srv' = (if r = None then s1\<lparr>ps_policyUpdated := True\<rparr> else s1)"
proof (cases req)
  case (UploadReq up force)
  obtain r1 s1 w1 where 1: "updatePolicy upd mt (up_policy up) (setMetadata \<lparr>PathzVersion = up_version up,
           PathzCreatedOn = formatUint (unat (up_createdOn up))\<rparr> srv) w = (r1, s1, w1)" by (metis prod_cases3)
  show thesis
  proof (cases "up_version up = [] \<or> PathzVersion (metadata srv) = up_version up \<and> \<not> force")
    case True
    with assms UploadReq show thesis by (intro refused) (auto simp: processRotateRequest_def split: if_splits)
  next
    case False
    with assms UploadReq 1 show thesis
      by (intro tried [of up force s1]; cases r1) (auto simp: processRotateRequest_def Let_def)
  qed
next
  case FinalizeReq
  with assms show thesis by (intro refused) (auto simp: processRotateRequest_def)
next
  case UnsetReq
  with assms show thesis by (intro refused) (auto simp: processRotateRequest_def)
qed

lemma revert_cases:
  assumes "revertPolicy upd srv w = (ok, srv', w')"
  obtains (kept) "\<not> ps_policyUpdated srv" "srv' = restoreMetadata srv"
        "osRename (ps_policyBackup srv) (ps_policyFile srv) w = (ok, w')"
    | (reloaded) pr where "ps_policyUpdated srv" "upd (ps_processor srv) (ps_policyCopy srv) = (None, pr)"
        "srv' = restoreMetadata (srv\<lparr>ps_policyUpdated := False, ps_processor := pr\<rparr>)"
        "osRename (ps_policyBackup srv) (ps_policyFile srv) w = (ok, w')"
    | (stuck) e pr where "ps_policyUpdated srv" "upd (ps_processor srv) (ps_policyCopy srv) = (Some e, pr)"
        "srv' = srv\<lparr>ps_policyUpdated := False, ps_processor := pr\<rparr>" "\<not> ok"
        "w' = snd (osRemove (ps_policyBackup srv) w)"
proof -
  obtain e pr where 1: "upd (ps_processor srv) (ps_policyCopy srv) = (e, pr)" by force
  obtain ok1 w1 where 2: "osRename (ps_policyBackup srv) (ps_policyFile srv) w = (ok1, w1)" by force
  consider "\<not> ps_policyUpdated srv" | "ps_policyUpdated srv" "e = None" | x where "ps_policyUpdated srv" "e = Some x"
    by (cases e) auto
  then show thesis
  proof cases
    case 1
    with assms 2 show thesis by (intro kept) (auto simp: revertPolicy_def)
  next
    case updated: 2
    with assms 1 2 show thesis by (intro reloaded) (auto simp: revertPolicy_def)
  next
    case (3 x)
    with assms 1 show thesis by (intro stuck) (auto simp: revertPolicy_def)
  qed
qed

lemma restoreMetadata_fields [simp]:
  "ps_processor (restoreMetadata srv) = ps_processor srv" "ps_heap (restoreMetadata srv) = ps_heap srv"
  "ps_policyFile (restoreMetadata srv) = ps_policyFile srv" "ps_policyBackup (restoreMetadata srv) = ps_policyBackup srv"
  "ps_metaFile (restoreMetadata srv) = ps_metaFile srv"
  by (simp_all add: restoreMetadata_def split: option.splits)

lemma setMetadata_fields [simp]:
  "ps_processor (setMetadata m srv) = ps_processor srv" "ps_metadata (setMetadata m srv) = ps_metadata srv"
  "ps_heap (setMetadata m srv) = (ps_heap srv)[ps_metadata srv := m]"
  "ps_metadataCopy (setMetadata m srv) = ps_metadataCopy srv" "ps_policyCopy (setMetadata m srv) = ps_policyCopy srv"
  "ps_policyUpdated (setMetadata m srv) = ps_policyUpdated srv" "ps_policyFile (setMetadata m srv) = ps_policyFile srv"
  "ps_policyBackup (setMetadata m srv) = ps_policyBackup srv" "ps_metaFile (setMetadata m srv) = ps_metaFile srv"
  by (simp_all add: setMetadata_def)

text \<open>A step of the loop goes on after an answered upload, ends after a Finalize, or reverts.\<close>

lemma event_cases:
  assumes "rotateEvent upd mt ev srv w = (out, srv', w')"
  obtains (answered) req where "ev = Some (Recv req True)" "req \<noteq> FinalizeReq" "out = Continue"
        "processRotateRequest upd mt req srv w = (None, srv', w')"
    | (commit) b where "ev = Some (Recv FinalizeReq b)" "ps_policyUpdated srv" "srv' = srv" "out = Return None"
        "\<exists>w1. commitChanges srv w = (True, w1) \<and> w' = snd (osRemove (ps_policyBackup srv) w1)"
    | (uncommitted) b where "ev = Some (Recv FinalizeReq b)" "ps_policyUpdated srv" "srv' = srv"
        "out = Return (Some CommitFailed)" "commitChanges srv w = (False, w')"
    | (refused) req b e s1 w1 ok where "ev = Some (Recv req b)" "req \<noteq> FinalizeReq" "out = Return (Some (RequestFailed e))"
        "processRotateRequest upd mt req srv w = (Some e, s1, w1)" "revertPolicy upd s1 w1 = (ok, srv', w')"
    | (unsent) req s1 w1 ok where "ev = Some (Recv req False)" "req \<noteq> FinalizeReq" "out = Return (Some SendFailed)"
        "processRotateRequest upd mt req srv w = (None, s1, w1)" "revertPolicy upd s1 w1 = (ok, srv', w')"
    | (ended) e ok where "out = Return (Some e)" "e \<in> {NoFinalize, RevertFailed, ReceiveFailed, FinalizeWithoutRotation}"
        "revertPolicy upd srv w = (ok, srv', w')"
        "ev \<noteq> None \<Longrightarrow> e \<in> {ReceiveFailed, FinalizeWithoutRotation}" "ev = None \<Longrightarrow> e = (if ok then NoFinalize else RevertFailed)"
proof -
  obtain ok0 s0 w0 where rev: "revertPolicy upd srv w = (ok0, s0, w0)" by (metis prod_cases3)
  consider "ev = None" | "ev = Some RecvError" | b where "ev = Some (Recv FinalizeReq b)"
    | req b where "ev = Some (Recv req b)" "req \<noteq> FinalizeReq"
    by (metis event.exhaust option.exhaust)
  then show thesis
  proof cases
    case 1
    with assms rev show thesis by (intro ended) (auto simp: rotateEvent_def)
  next
    case 2
    with assms rev show thesis by (intro ended) (auto simp: rotateEvent_def)
  next
    case (3 b)
    obtain ok1 w1 where c: "commitChanges srv w = (ok1, w1)" by force
    consider "\<not> ps_policyUpdated srv" | "ps_policyUpdated srv" ok1 | "ps_policyUpdated srv" "\<not> ok1" by blast
    then show thesis
    proof cases
      case 1
      with 3 assms rev show thesis by (intro ended) (auto simp: rotateEvent_def)
    next
      case 2
      with 3 assms c show thesis by (intro commit) (auto simp: rotateEvent_def)
    next
      case updated: 3
      with 3 assms c show thesis by (intro uncommitted) (auto simp: rotateEvent_def)
    qed
  next
    case (4 req b)
    obtain r s1 w1 where p: "processRotateRequest upd mt req srv w = (r, s1, w1)" by (metis prod_cases3)
    obtain ok s2 w2 where v: "revertPolicy upd s1 w1 = (ok, s2, w2)" by (metis prod_cases3)
    have eq: "rotateEvent upd mt ev srv w =
        (case r of Some e \<Rightarrow> (Return (Some (RequestFailed e)), s2, w2)
         | None \<Rightarrow> if b then (Continue, s1, w1) else (Return (Some SendFailed), s2, w2))"
      using 4 p v unfolding rotateEvent_def by (cases req; cases r) simp_all
    show thesis
    proof (cases r)
      case None
      show thesis
      proof (cases b)
        case True
        with None 4 assms p eq show thesis by (intro answered) auto
      next
        case False
        with None 4 assms p v eq show thesis by (intro unsent) auto
      qed
    next
      case (Some e)
      with 4 assms p v eq show thesis by (intro refused) auto
    qed
  qed
qed

text \<open>Files during a session without faults that started from the files of \<open>w0\<close>.\<close>

definition fileSession :: "world \<Rightarrow> string \<Rightarrow> string \<Rightarrow> string \<Rightarrow> world \<Rightarrow> bool" where
  "fileSession w0 pol bak c w \<longleftrightarrow>
     w_faults w = [] \<and> w_db w = w_db w0 \<and> pol \<noteq> bak \<and> map_of (w_files w0) pol = Some (Regular c) \<and>
     (\<exists>d. map_of (w_files w) = (map_of (w_files w0))(bak \<mapsto> Regular c, pol \<mapsto> Regular d))"

lemma updatePolicy_files:
  assumes "updatePolicy upd mt p srv w = (r, srv', w')" and "fileSession w0 (ps_policyFile srv) bak c w"
  shows "fileSession w0 (ps_policyFile srv) bak c w'"
proof -
  from assms(2) obtain d where d: "map_of (w_files w) (ps_policyFile srv) = Some (Regular d)" and nf: "w_faults w = []"
    by (auto simp: fileSession_def)
  from attemptWrite_ok [OF nf, of "ps_policyFile srv" d "mt p"] d
  obtain w1 where 1: "attemptWrite (ps_policyFile srv) (mt p) w = (True, w1)"
    and after: "filesAfter w (ps_policyFile srv) (Some (Regular (mt p))) w1" by auto
  from after nf have "w_faults w1 = []" "map_of (w_files w1) (ps_policyFile srv) = Some (Regular (mt p))"
    by (simp_all add: filesAfter_def)
  from osReadFile_ok [OF this] have 2: "verifyPathzFile (mt p) srv w1 = (True, w1)"
    by (simp add: verifyPathzFile_def)
  obtain e pr where 3: "upd (ps_processor srv) p = (e, pr)" by force
  from assms(1) have "w' = w1" by (simp add: updatePolicy_def savePathzPolicyToFile_def 1 2 3)
  with assms(2) after show ?thesis by (auto simp: fileSession_def filesAfter_def)
qed

lemma request_files:
  assumes "processRotateRequest upd mt req srv w = (r, srv', w')"
    and "fileSession w0 (ps_policyFile srv) (ps_policyBackup srv) c w"
  shows "fileSession w0 (ps_policyFile srv') (ps_policyBackup srv') c w'"
    "ps_policyFile srv' = ps_policyFile srv" "ps_policyBackup srv' = ps_policyBackup srv"
proof -
  have "fileSession w0 (ps_policyFile srv) (ps_policyBackup srv) c w' \<and>
      ps_policyFile srv' = ps_policyFile srv \<and> ps_policyBackup srv' = ps_policyBackup srv"
    using assms(1)
  proof (cases rule: request_cases)
    case (tried up force s1)
    from tried(2) have "ps_policyFile s1 = ps_policyFile srv \<and> ps_policyBackup s1 = ps_policyBackup srv"
      by (cases rule: updatePolicy_cases) simp_all
    with updatePolicy_files [OF tried(2)] assms(2) tried(3) show ?thesis by simp
  qed (use assms(2) in simp)
  then show "fileSession w0 (ps_policyFile srv') (ps_policyBackup srv') c w'"
    "ps_policyFile srv' = ps_policyFile srv" "ps_policyBackup srv' = ps_policyBackup srv" by simp_all
qed

definition uploadMeta :: "UploadRequest \<Rightarrow> PathzMetadata" where
  "uploadMeta up = \<lparr>PathzVersion = up_version up, PathzCreatedOn = formatUint (unat (up_createdOn up))\<rparr>"

definition checkpointed :: "('p \<Rightarrow> AuthorizationPolicy option) \<Rightarrow> 'p GNSIPathzServer \<Rightarrow> 'p GNSIPathzServer" where
  "checkpointed getp srv = srv\<lparr>ps_policyCopy := getp (ps_processor srv), ps_policyUpdated := False,
                               ps_metadataCopy := Some (ps_metadata srv)\<rparr>"

definition uploaded :: "'p \<Rightarrow> UploadRequest \<Rightarrow> 'p GNSIPathzServer \<Rightarrow> 'p GNSIPathzServer" where
  "uploaded pr up srv = (setMetadata (uploadMeta up) srv)\<lparr>ps_processor := pr, ps_policyUpdated := True\<rparr>"

lemma start_ok:
  assumes "w_faults w = []" and "map_of (w_files w) (ps_policyFile srv) = Some (Regular c)"
    and "ps_policyFile srv \<noteq> ps_policyBackup srv" and "map_of (w_files w) (ps_policyBackup srv) \<noteq> Some OtherNode"
  shows "\<exists>w1. startRotate getp srv w = (None, checkpointed getp srv, w1) \<and>
     fileSession w (ps_policyFile srv) (ps_policyBackup srv) c w1"
proof -
  from copyFile_ok [OF assms(1,2,4)] obtain w1 where cp: "copyFile (ps_policyFile srv) (ps_policyBackup srv) w = (True, w1)"
    and after: "filesAfter w (ps_policyBackup srv) (Some (Regular c)) w1" by blast
  have "startRotate getp srv w = (None, checkpointed getp srv, w1)"
    using assms(1,2) by (simp add: startRotate_def fileCheck_ok createCheckpoint_def checkpointed_def cp)
  moreover have "(map_of (w_files w))(ps_policyBackup srv \<mapsto> Regular c) =
      (map_of (w_files w))(ps_policyBackup srv \<mapsto> Regular c, ps_policyFile srv \<mapsto> Regular c)"
    using assms(2,3) by (auto simp: fun_eq_iff)
  with after assms have "fileSession w (ps_policyFile srv) (ps_policyBackup srv) c w1"
    by (auto simp: fileSession_def filesAfter_def)
  ultimately show ?thesis by blast
qed

lemma upload_ok:
  assumes files: "fileSession w0 (ps_policyFile srv) bak c w"
    and "up_version up \<noteq> []" and "PathzVersion (metadata srv) \<noteq> up_version up \<or> force"
    and "upd (ps_processor srv) (up_policy up) = (None, pr)"
  shows "\<exists>w'. rotateEvent upd mt (Some (Recv (UploadReq up force) True)) srv w = (Continue, uploaded pr up srv, w') \<and>
     fileSession w0 (ps_policyFile srv) bak c w' \<and>
     map_of (w_files w') (ps_policyFile srv) = Some (Regular (mt (up_policy up)))"
proof -
  let ?s = "setMetadata (uploadMeta up) srv"
  from files obtain d where d: "map_of (w_files w) (ps_policyFile srv) = Some (Regular d)" and nf: "w_faults w = []"
    by (auto simp: fileSession_def)
  from attemptWrite_ok [OF nf, of "ps_policyFile srv" d "mt (up_policy up)"] d
  obtain w1 where 1: "attemptWrite (ps_policyFile srv) (mt (up_policy up)) w = (True, w1)"
    and after: "filesAfter w (ps_policyFile srv) (Some (Regular (mt (up_policy up)))) w1" by auto
  from after nf have w1: "w_faults w1 = []" "map_of (w_files w1) (ps_policyFile srv) = Some (Regular (mt (up_policy up)))"
    by (simp_all add: filesAfter_def)
  from osReadFile_ok [OF this] have 2: "verifyPathzFile (mt (up_policy up)) ?s w1 = (True, w1)"
    by (simp add: verifyPathzFile_def)
  have upd: "updatePolicy upd mt (up_policy up) ?s w = (None, ?s\<lparr>ps_processor := pr\<rparr>, w1)"
    using assms(4) by (simp add: updatePolicy_def savePathzPolicyToFile_def 1 2)
  then have "processRotateRequest upd mt (UploadReq up force) srv w = (None, uploaded pr up srv, w1)"
    using assms(2,3) by (auto simp: processRotateRequest_def uploadMeta_def [symmetric] uploaded_def)
  moreover from updatePolicy_files [OF upd, of w0 bak c] files have "fileSession w0 (ps_policyFile srv) bak c w1" by simp
  ultimately show ?thesis using w1(2) by (simp add: rotateEvent_def)
qed

section \<open>What the server needs of its processor\<close>

text \<open>
  A rejected policy changes nothing; an accepted one is the policy that is then reported; and loading
  the policy that a loaded processor reports gives that very processor, whatever was active.
\<close>

locale policy_processor =
  fixes upd :: "'p \<Rightarrow> AuthorizationPolicy option \<Rightarrow> 'e option \<times> 'p"
    and getp :: "'p \<Rightarrow> AuthorizationPolicy option"
    and loaded :: "'p \<Rightarrow> bool"
  assumes upd_error: "upd pr q = (Some e, pr') \<Longrightarrow> pr' = pr"
    and upd_ok: "upd pr q = (None, pr') \<Longrightarrow> getp pr' = q \<and> loaded pr'"
    and upd_again: "loaded pr \<Longrightarrow> upd pr' (getp pr) = (None, pr)"
begin

text \<open>During a session that started with processor \<open>pr0\<close>.\<close>

definition session :: "'p \<Rightarrow> 'p GNSIPathzServer \<Rightarrow> bool" where
  "session pr0 srv \<longleftrightarrow>
     loaded pr0 \<and> ps_policyCopy srv = getp pr0 \<and> (ps_policyUpdated srv \<or> ps_processor srv = pr0)"

lemma revert_restores:
  assumes "revertPolicy upd srv w = (ok, srv', w')" and "session pr0 srv"
  shows "ps_processor srv' = pr0"
  using assms(1)
proof (cases rule: revert_cases)
  case kept
  with assms(2) show ?thesis by (simp add: session_def)
next
  case (reloaded pr)
  with assms(2) upd_again [of pr0 "ps_processor srv"] show ?thesis by (simp add: session_def)
next
  case (stuck e pr)
  with assms(2) upd_again [of pr0 "ps_processor srv"] show ?thesis by (simp add: session_def)
qed

lemma update_session:
  assumes "updatePolicy upd mt p srv w = (r, srv', w')"
  shows "ps_policyCopy srv' = ps_policyCopy srv" "ps_policyUpdated srv' = ps_policyUpdated srv"
    "r \<noteq> None \<Longrightarrow> ps_processor srv' = ps_processor srv"
  using assms by (cases rule: updatePolicy_cases; auto dest: upd_error)+

lemma request_session:
  assumes "processRotateRequest upd mt req srv w = (r, srv', w')" and "session pr0 srv"
  shows "session pr0 srv'"
  using assms(1)
proof (cases rule: request_cases)
  case (tried up force s1)
  from update_session [OF tried(2)] tried(3) assms(2) show ?thesis by (auto simp: session_def)
qed (use assms(2) in simp)

lemma event_session:
  assumes "rotateEvent upd mt ev srv w = (out, srv', w')" and "session pr0 srv"
  shows "if out = Continue then session pr0 srv'
         else out = Return None \<or> out = Return (Some CommitFailed) \<or> ps_processor srv' = pr0"
  using assms(1) by (cases rule: event_cases) (use assms(2) in \<open>auto dest: request_session intro: revert_restores\<close>)

lemma loop_session:
  assumes "rotateLoop upd mt evs srv w = (Some e, srv', w')" and "session pr0 srv" and "e \<noteq> CommitFailed"
  shows "ps_processor srv' = pr0"
  using assms
proof (induction evs arbitrary: srv w)
  case Nil
  obtain out s1 w1 where ev: "rotateEvent upd mt None srv w = (out, s1, w1)" by (metis prod_cases3)
  moreover from ev have "out \<noteq> Continue" by (cases rule: event_cases) auto
  ultimately show ?case using Nil event_session [OF ev] by (cases out) auto
next
  case (Cons ev evs)
  obtain out s1 w1 where ev: "rotateEvent upd mt (Some ev) srv w = (out, s1, w1)" by (metis prod_cases3)
  with Cons event_session [OF ev] show ?case by (cases out) (auto split: if_splits)
qed

lemma rotate_keeps_processor:
  assumes "Rotate upd getp mt authOk locked evs srv w = (Some e, srv', w')"
    and "loaded (ps_processor srv)" and "e \<noteq> CommitFailed"
  shows "ps_processor srv' = ps_processor srv"
proof -
  obtain r :: "'e rotate_error option" and s1 w1 where st: "startRotate getp srv w = (r, s1, w1)"
    by (metis prod_cases3)
  then have s1: "ps_processor s1 = ps_processor srv" "r = None \<Longrightarrow> session (ps_processor srv) s1"
    using assms(2)
    by (auto simp: startRotate_def createCheckpoint_def session_def split: prod.splits bool.splits)
  with assms st loop_session show ?thesis
    by (auto simp: Rotate_def split: if_splits option.splits)
qed

text \<open>
  What holds between two messages, whatever faults have occurred: the policy file is a regular file,
  and once a policy has been uploaded it is loaded, in the file, and described by the metadata.
\<close>

definition synced :: "(AuthorizationPolicy option \<Rightarrow> string) \<Rightarrow> UploadRequest option \<Rightarrow> 'p GNSIPathzServer \<Rightarrow> world \<Rightarrow> bool" where
  "synced mt lst srv w \<longleftrightarrow>
     ps_metadata srv < length (ps_heap srv) \<and>
     ps_policyFile srv \<noteq> ps_policyBackup srv \<and> ps_policyFile srv \<noteq> ps_metaFile srv \<and>
     \<not> hasPrefix (ps_metaFile srv) (ps_policyBackup srv) \<and>
     (\<exists>c. map_of (w_files w) (ps_policyFile srv) = Some (Regular c)) \<and>
     (\<forall>q. map_of (w_files w) (ps_metaFile srv) \<noteq> Some (Symlink q)) \<and>
     (case lst of
        None \<Rightarrow> \<not> ps_policyUpdated srv
      | Some up \<Rightarrow>
          ps_policyUpdated srv \<and> loaded (ps_processor srv) \<and> getp (ps_processor srv) = up_policy up \<and>
          map_of (w_files w) (ps_policyFile srv) = Some (Regular (mt (up_policy up))) \<and>
          metadata srv = \<lparr>PathzVersion = up_version up, PathzCreatedOn = formatUint (unat (up_createdOn up))\<rparr>)"

lemma update_ok:
  assumes "updatePolicy upd mt p srv w = (None, srv', w')"
    and "map_of (w_files w) (ps_policyFile srv) = Some (Regular c)"
  shows "map_of (w_files w') = (map_of (w_files w))(ps_policyFile srv \<mapsto> Regular (mt p))"
proof -
  obtain w1 where 1: "attemptWrite (ps_policyFile srv) (mt p) w = (True, w1)"
    and 2: "verifyPathzFile (mt p) srv w1 = (True, w')"
    using assms(1) by (auto simp: updatePolicy_def savePathzPolicyToFile_def split: prod.splits bool.splits)
  from 2 obtain r where "osReadFile (ps_policyFile srv) w1 = (r, w')"
    by (auto simp: verifyPathzFile_def split: prod.splits option.splits)
  from osReadFile_frame [OF this] attemptWrite_plain [OF 1] assms(2) show ?thesis by simp
qed

lemma request_ok:
  assumes "processRotateRequest upd mt req srv w = (None, srv', w')" and "synced mt lst srv w"
  shows "\<exists>up force. req = UploadReq up force \<and> synced mt (Some up) srv' w' \<and>
    ps_policyFile srv' = ps_policyFile srv \<and> ps_policyBackup srv' = ps_policyBackup srv \<and>
    ps_metaFile srv' = ps_metaFile srv"
proof -
  let ?m = "\<lambda>up. \<lparr>PathzVersion = up_version up, PathzCreatedOn = formatUint (unat (up_createdOn up))\<rparr>"
  from assms(1) obtain up force s1 where req: "req = UploadReq up force"
    and upd: "updatePolicy upd mt (up_policy up) (setMetadata (?m up) srv) w = (None, s1, w')"
    and srv': "srv' = s1\<lparr>ps_policyUpdated := True\<rparr>"
    by (cases rule: request_cases) auto
  from upd obtain pr where pr: "upd (ps_processor srv) (up_policy up) = (None, pr)"
    and s1: "s1 = (setMetadata (?m up) srv)\<lparr>ps_processor := pr\<rparr>"
    by (cases rule: updatePolicy_cases) auto
  from assms(2) obtain c where "map_of (w_files w) (ps_policyFile srv) = Some (Regular c)"
    by (auto simp: synced_def)
  with update_ok [OF upd] have "map_of (w_files w') = (map_of (w_files w))(ps_policyFile srv \<mapsto> Regular (mt (up_policy up)))"
    by simp
  with assms(2) req srv' upd_ok [OF pr] show ?thesis
    by (simp add: synced_def metadata_def s1)
qed

lemma commit_ok:
  assumes "commitChanges srv w = (True, w')" and "\<And>q. map_of (w_files w) (ps_metaFile srv) \<noteq> Some (Symlink q)"
  shows "map_of (w_files w') = (map_of (w_files w))(ps_metaFile srv \<mapsto> Regular (encodeStrings (metaFields (metadata srv))))"
    and "hget (GetKey [credentialsTbl, pathzTbl @ pathzPolicyActive]) pathzVersionFld (w_db w')
           = Some (PathzVersion (metadata srv))"
    and "hget (GetKey [credentialsTbl, pathzTbl @ pathzPolicyActive]) pathzCreatedOnFld (w_db w')
           = Some (PathzCreatedOn (metadata srv))"
proof -
  let ?tbl = "pathzTbl @ pathzPolicyActive"
  obtain ok1 w1 where 1: "writeCredentialsMetadataToDB ?tbl [] pathzVersionFld (PathzVersion (metadata srv)) w = (ok1, w1)"
    by force
  obtain ok2 w2 where 2: "writeCredentialsMetadataToDB ?tbl [] pathzCreatedOnFld (PathzCreatedOn (metadata srv)) w1 = (ok2, w2)"
    by force
  from assms(1) have "ok1 \<and> ok2" and
    3: "attemptWrite (ps_metaFile srv) (encodeStrings (metaFields (metadata srv))) w2 = (True, w')"
    unfolding commitChanges_def writePathzMetadataToDB_def savePathzFileFreshess_def 1 prod.case
    by (cases ok1; cases ok2; simp add: 2)+
  with 1 2 have 1: "writeCredentialsMetadataToDB ?tbl [] pathzVersionFld (PathzVersion (metadata srv)) w = (True, w1)"
    and 2: "writeCredentialsMetadataToDB ?tbl [] pathzCreatedOnFld (PathzCreatedOn (metadata srv)) w1 = (True, w2)"
    by simp_all
  from writeDB_any [OF 1] writeDB_any [OF 2] attemptWrite_plain [OF 3] assms(2)
  have files: "map_of (w_files w') = (map_of (w_files w))(ps_metaFile srv \<mapsto> Regular (encodeStrings (metaFields (metadata srv))))"
    and db: "w_db w' = hset (GetKey [credentialsTbl, pathzTbl @ pathzPolicyActive]) pathzCreatedOnFld (PathzCreatedOn (metadata srv))
       (hset (GetKey [credentialsTbl, pathzTbl @ pathzPolicyActive]) pathzVersionFld (PathzVersion (metadata srv)) (w_db w))"
    by simp_all
  show "map_of (w_files w') = (map_of (w_files w))(ps_metaFile srv \<mapsto> Regular (encodeStrings (metaFields (metadata srv))))"
    by (rule files)
  show "hget (GetKey [credentialsTbl, pathzTbl @ pathzPolicyActive]) pathzVersionFld (w_db w') = Some (PathzVersion (metadata srv))"
    "hget (GetKey [credentialsTbl, pathzTbl @ pathzPolicyActive]) pathzCreatedOnFld (w_db w') = Some (PathzCreatedOn (metadata srv))"
    by (simp_all add: db pathzVersionFld_def pathzCreatedOnFld_def)
qed

lemma finalize_ok:
  assumes "rotateEvent upd mt (Some (Recv FinalizeReq b)) srv w = (Return None, srv', w')" and "synced mt lst srv w"
  shows "\<exists>up. lst = Some up \<and> srv' = srv \<and> loaded (ps_processor srv') \<and> committed getp mt up srv' w'"
proof -
  from assms(1) obtain w1 where com: "commitChanges srv w = (True, w1)" and w': "w' = snd (osRemove (ps_policyBackup srv) w1)"
    and srv': "srv' = srv" and upd: "ps_policyUpdated srv"
    by (cases rule: event_cases) auto
  from assms(2) upd obtain up where lst: "lst = Some up" by (auto simp: synced_def split: option.splits)
  note sync = assms(2) [unfolded synced_def lst option.case]
  from sync have other: "ps_policyBackup srv \<noteq> ps_policyFile srv" "ps_policyBackup srv \<noteq> ps_metaFile srv"
    by (auto simp: hasPrefix_def)
  have nolink: "\<And>q. map_of (w_files w) (ps_metaFile srv) \<noteq> Some (Symlink q)" using sync by blast
  obtain ok where "osRemove (ps_policyBackup srv) w1 = (ok, w')" using w' by (metis prod.collapse)
  note rm = osRemove_frame [OF this]
  have "map_of (w_files w') (ps_policyFile srv) = map_of (w_files w) (ps_policyFile srv)"
    "map_of (w_files w') (ps_metaFile srv) = Some (Regular (encodeStrings (metaFields (metadata srv))))"
    using rm other commit_ok(1) [OF com nolink] sync by auto
  moreover have "GetKey [credentialsTbl, pathzTbl @ pathzPolicyActive] = ''CREDENTIALS|PATHZ_POLICY|ACTIVE''"
    by (simp add: GetKey_def credentialsTbl_def pathzTbl_def pathzPolicyActive_def)
  then have "hget ''CREDENTIALS|PATHZ_POLICY|ACTIVE'' ''pathz_version'' (w_db w') = Some (PathzVersion (metadata srv))"
    "hget ''CREDENTIALS|PATHZ_POLICY|ACTIVE'' ''pathz_created_on'' (w_db w') = Some (PathzCreatedOn (metadata srv))"
    using commit_ok(2,3) [OF com nolink] rm by (simp_all add: pathzVersionFld_def pathzCreatedOnFld_def)
  ultimately show ?thesis using sync by (simp add: lst srv' committed_def)
qed

lemma loop_ok:
  assumes "rotateLoop upd mt evs srv w = (None, srv', w')" and "synced mt lst srv w"
  shows "\<exists>pre b rest up. evs = pre @ Recv FinalizeReq b # rest \<and> lastUpload lst pre = Some up \<and>
    loaded (ps_processor srv') \<and> committed getp mt up srv' w'"
  using assms
proof (induction evs arbitrary: srv w lst)
  case Nil
  obtain out s1 w1 where ev: "rotateEvent upd mt None srv w = (out, s1, w1)" by (metis prod_cases3)
  then obtain e where "out = Return (Some e)" by (cases rule: event_cases) auto
  with Nil ev show ?case by simp
next
  case (Cons ev evs)
  obtain out s1 w1 where ev: "rotateEvent upd mt (Some ev) srv w = (out, s1, w1)" by (metis prod_cases3)
  show ?case
  proof (cases out)
    case (Return r)
    with ev Cons.prems have ret: "rotateEvent upd mt (Some ev) srv w = (Return None, srv', w')" by auto
    then obtain b where b: "ev = Recv FinalizeReq b" by (cases rule: event_cases) auto
    from finalize_ok [OF ret [unfolded b] Cons.prems(2)]
    obtain up where "lst = Some up" "loaded (ps_processor srv')" "committed getp mt up srv' w'" by auto
    with b have "ev # evs = [] @ Recv FinalizeReq b # evs \<and> lastUpload lst [] = Some up \<and>
        loaded (ps_processor srv') \<and> committed getp mt up srv' w'" by simp
    then show ?thesis by blast
  next
    case Continue
    from ev [unfolded Continue] obtain req
      where req: "ev = Recv req True" "processRotateRequest upd mt req srv w = (None, s1, w1)"
      by (cases rule: event_cases) auto
    from request_ok [OF req(2) Cons.prems(2)] obtain up force where up: "req = UploadReq up force"
      "synced mt (Some up) s1 w1" by blast
    from Cons.prems(1) ev Continue have "rotateLoop upd mt evs s1 w1 = (None, srv', w')" by simp
    from Cons.IH [OF this up(2)] obtain pre b rest up' where
      *: "evs = pre @ Recv FinalizeReq b # rest" "lastUpload (Some up) pre = Some up'"
         "loaded (ps_processor srv')" "committed getp mt up' srv' w'" by blast
    then have "ev # evs = (ev # pre) @ Recv FinalizeReq b # rest \<and> lastUpload lst (ev # pre) = Some up' \<and>
        loaded (ps_processor srv') \<and> committed getp mt up' srv' w'" by (simp add: req up)
    then show ?thesis by blast
  qed
qed

text \<open>A session starts from three unrelated paths, the metadata file not a link.\<close>

lemma rotate_commits:
  assumes "Rotate upd getp mt authOk locked evs srv w = (None, srv', w')"
    and "ps_metadata srv < length (ps_heap srv)"
    and "ps_policyFile srv \<noteq> ps_policyBackup srv" and "ps_policyFile srv \<noteq> ps_metaFile srv"
    and "\<not> hasPrefix (ps_metaFile srv) (ps_policyBackup srv)"
    and "\<And>q. map_of (w_files w) (ps_metaFile srv) \<noteq> Some (Symlink q)"
  shows "authOk \<and> \<not> locked \<and>
    (\<exists>pre b rest up. evs = pre @ Recv FinalizeReq b # rest \<and> lastUpload None pre = Some up \<and>
       loaded (ps_processor srv') \<and> committed getp mt up srv' w')"
proof -
  obtain r :: "'e rotate_error option" and s1 w1 where st: "startRotate getp srv w = (r, s1, w1)"
    by (metis prod_cases3)
  from assms(1) st have auth: "authOk" "\<not> locked" and r: "r = None"
    and loop: "rotateLoop upd mt evs s1 w1 = (None, srv', w')"
    by (auto simp: Rotate_def split: if_splits option.splits)
  from st r obtain w0 where chk: "fileCheck (ps_policyFile srv) w = (True, w0)"
    and cp: "copyFile (ps_policyFile srv) (ps_policyBackup srv) w0 = (True, w1)"
    and s1: "s1 = srv\<lparr>ps_policyCopy := getp (ps_processor srv), ps_policyUpdated := False,
                     ps_metadataCopy := Some (ps_metadata srv)\<rparr>"
    by (auto simp: startRotate_def createCheckpoint_def Let_def split: prod.splits bool.splits)
  from fileCheck_any [OF chk] obtain c where pol: "map_of (w_files w0) (ps_policyFile srv) = Some (Regular c)"
    and w0: "w_files w0 = w_files w" by auto
  from copyFile_replaced [OF cp] pol
  have rep: "replaced w0 (tempName (w_files w0) (ps_policyBackup srv)) (ps_policyBackup srv) c True w1" by auto
  then have files: "map_of (w_files w1) q = map_of (w_files w0) q"
    if "q \<noteq> ps_policyBackup srv" "map_of (w_files w0) q \<noteq> None" for q
    using that by (metis replaced_def tempName_fresh)
  have meta: "ps_metaFile srv \<noteq> ps_policyBackup srv" "ps_metaFile srv \<noteq> tempName (w_files w0) (ps_policyBackup srv)"
    using assms(5) by (auto simp: hasPrefix_def tempName_def)
  have "synced mt None s1 w1"
    using assms(2-6) meta files [of "ps_policyFile srv"] pol rep w0
    by (auto simp: synced_def s1 replaced_def)
  from loop_ok [OF loop this] auth show ?thesis by blast
qed

lemma revert_files:
  assumes "revertPolicy upd srv w = (ok, srv', w')" and "session pr0 srv"
    and "fileSession w0 (ps_policyFile srv) (ps_policyBackup srv) c w"
  shows "ok \<and> w_faults w' = [] \<and> w_db w' = w_db w0 \<and> map_of (w_files w') = (map_of (w_files w0))(ps_policyBackup srv := None)"
proof -
  from assms(3) obtain d where d: "map_of (w_files w) = (map_of (w_files w0))(ps_policyBackup srv \<mapsto> Regular c, ps_policyFile srv \<mapsto> Regular d)"
    and w: "w_faults w = []" "w_db w = w_db w0" "ps_policyFile srv \<noteq> ps_policyBackup srv"
      "map_of (w_files w0) (ps_policyFile srv) = Some (Regular c)"
    by (auto simp: fileSession_def)
  have "osRename (ps_policyBackup srv) (ps_policyFile srv) w = (ok, w')"
    using assms(1)
  proof (cases rule: revert_cases)
    case (stuck e pr)
    with assms(2) upd_again [of pr0 "ps_processor srv"] show ?thesis by (simp add: session_def)
  qed
  with osRename_ok [OF w(1), of "ps_policyBackup srv" "Regular c" "ps_policyFile srv"] d w
  have "ok \<and> w_faults w' = [] \<and> w_db w' = w_db w0 \<and>
      map_of (w_files w') = (map_of (w_files w))(ps_policyBackup srv := None, ps_policyFile srv := Some (Regular c))"
    by auto
  with d w show ?thesis by (auto simp: fun_eq_iff)
qed

lemma loop_files:
  assumes "rotateLoop upd mt evs srv w = (Some e, srv', w')" and "e \<noteq> CommitFailed" and "session pr0 srv"
    and "fileSession w0 (ps_policyFile srv) (ps_policyBackup srv) c w"
  shows "w_faults w' = [] \<and> w_db w' = w_db w0 \<and> map_of (w_files w') = (map_of (w_files w0))(ps_policyBackup srv := None)"
  using assms
proof (induction evs arbitrary: srv w)
  case Nil
  obtain out s1 w1 where ev: "rotateEvent upd mt None srv w = (out, s1, w1)" by (metis prod_cases3)
  then obtain ok e' where "revertPolicy upd srv w = (ok, s1, w1)" "out = Return (Some e')" by (cases rule: event_cases) auto
  with Nil ev revert_files show ?case by fastforce
next
  case (Cons ev evs)
  obtain out s1 w1 where ev: "rotateEvent upd mt (Some ev) srv w = (out, s1, w1)" by (metis prod_cases3)
  then show ?case
  proof (cases rule: event_cases)
    case (answered req)
    from request_files [OF answered(4) Cons.prems(4)] request_session [OF answered(4) Cons.prems(3)]
    show ?thesis using Cons.IH [of s1 w1] Cons.prems ev answered(3) by simp
  next
    case (refused req b e' s2 w2 ok)
    note files = request_files [OF refused(4) Cons.prems(4)]
    from revert_files [OF refused(5) request_session [OF refused(4) Cons.prems(3)] files(1)]
    show ?thesis using Cons.prems(1) ev refused(3) files by simp
  next
    case (unsent req s2 w2 ok)
    note files = request_files [OF unsent(4) Cons.prems(4)]
    from revert_files [OF unsent(5) request_session [OF unsent(4) Cons.prems(3)] files(1)]
    show ?thesis using Cons.prems(1) ev unsent(3) files by simp
  next
    case (ended e' ok)
    from revert_files [OF ended(3) Cons.prems(3,4)] show ?thesis using Cons.prems(1) ev ended(1) by simp
  qed (use Cons.prems ev in auto)
qed

lemma rotate_restores_files:
  assumes "Rotate upd getp mt True False evs srv w = (Some e, srv', w')" and "e \<noteq> CommitFailed"
    and "loaded (ps_processor srv)" and "w_faults w = []"
    and "map_of (w_files w) (ps_policyFile srv) = Some (Regular c)"
    and "ps_policyFile srv \<noteq> ps_policyBackup srv" and "map_of (w_files w) (ps_policyBackup srv) \<noteq> Some OtherNode"
  shows "w_faults w' = [] \<and> w_db w' = w_db w \<and> map_of (w_files w') = (map_of (w_files w))(ps_policyBackup srv := None)"
proof -
  from start_ok [OF assms(4-7)] obtain w1
    where st: "startRotate getp srv w = (None :: 'e rotate_error option, checkpointed getp srv, w1)"
      and files: "fileSession w (ps_policyFile srv) (ps_policyBackup srv) c w1" by blast
  from st assms(1) have loop: "rotateLoop upd mt evs (checkpointed getp srv) w1 = (Some e, srv', w')" by (simp add: Rotate_def)
  have "session (ps_processor srv) (checkpointed getp srv)" using assms(3) by (simp add: session_def checkpointed_def)
  from loop_files [OF loop assms(2) this] files show ?thesis by (simp add: checkpointed_def)
qed

end

section \<open>The processor of the server\<close>

abbreviation activePolicy :: "GnmiAuthzProcessor \<Rightarrow> AuthorizationPolicy option" where
  "activePolicy pr \<equiv> GetPolicy (Some pr)"

definition loadedProcessor :: "GnmiAuthzProcessor \<Rightarrow> bool" where
  "loadedProcessor pr \<longleftrightarrow> UpdatePolicyFromProto newProcessor (activePolicy pr) = (None, pr)"

interpretation pathz: policy_processor UpdatePolicyFromProto activePolicy loadedProcessor
proof
  fix pr q e pr'
  show "UpdatePolicyFromProto pr q = (Some e, pr') \<Longrightarrow> pr' = pr"
    by (auto simp: UpdatePolicyFromProto_def split: sum.splits prod.splits)
  show "UpdatePolicyFromProto pr q = (None, pr') \<Longrightarrow> activePolicy pr' = q \<and> loadedProcessor pr'"
    by (auto simp: UpdatePolicyFromProto_def loadedProcessor_def newProcessor_def GetPolicy_def
        split: sum.splits prod.splits)
  show "loadedProcessor pr \<Longrightarrow> UpdatePolicyFromProto pr' (activePolicy pr) = (None, pr)"
    by (cases pr') (auto simp: UpdatePolicyFromProto_def loadedProcessor_def newProcessor_def
        split: sum.splits prod.splits)
qed

abbreviation pathzRotate where
  "pathzRotate \<equiv> Rotate UpdatePolicyFromProto activePolicy"

end
