(* ===== verification/Pathz_Sessions.thy ===== *)
theory Pathz_Sessions
  imports Pathz_Server
begin

text \<open>
  Sessions of the pathz service: the interleaving of several clients as a step relation, and the
  properties of \<open>Rotate\<close> on the processor of the repository.
\<close>

section \<open>Interleaved sessions\<close>

text \<open>
  Sessions of different clients interleave message by message; \<open>pathzMu\<close> is the lock, held by the
  session in \<open>sys_lock\<close>. A session that finds it taken is refused without any effect.
\<close>

record 'p pathzSystem =
  sys_srv :: "'p GNSIPathzServer"
  sys_world :: world
  sys_lock :: "nat option"

inductive pathz_step ::
  "(AuthorizationPolicy option \<Rightarrow> string) \<Rightarrow> GnmiAuthzProcessor pathzSystem \<Rightarrow> GnmiAuthzProcessor pathzSystem \<Rightarrow> bool"
  for mt where
  refused: "sys_lock s \<noteq> None \<Longrightarrow> pathz_step mt s s"
| started: "sys_lock s = None \<Longrightarrow> startRotate activePolicy (sys_srv s) (sys_world s) = (None :: pathz_error rotate_error option, srv', w') \<Longrightarrow>
    pathz_step mt s \<lparr>sys_srv = srv', sys_world = w', sys_lock = Some i\<rparr>"
| notStarted: "sys_lock s = None \<Longrightarrow> startRotate activePolicy (sys_srv s) (sys_world s) = (Some (e :: pathz_error rotate_error), srv', w') \<Longrightarrow>
    pathz_step mt s \<lparr>sys_srv = srv', sys_world = w', sys_lock = None\<rparr>"
| message: "sys_lock s = Some i \<Longrightarrow>
    rotateEvent UpdatePolicyFromProto mt (Some ev) (sys_srv s) (sys_world s) = (Continue, srv', w') \<Longrightarrow>
    pathz_step mt s \<lparr>sys_srv = srv', sys_world = w', sys_lock = Some i\<rparr>"
| finished: "sys_lock s = Some i \<Longrightarrow>
    rotateEvent UpdatePolicyFromProto mt ev (sys_srv s) (sys_world s) = (Return r, srv', w') \<Longrightarrow>
    pathz_step mt s \<lparr>sys_srv = srv', sys_world = w', sys_lock = None\<rparr>"

inductive pathz_reach ::
  "(AuthorizationPolicy option \<Rightarrow> string) \<Rightarrow> GnmiAuthzProcessor pathzSystem \<Rightarrow> GnmiAuthzProcessor pathzSystem \<Rightarrow> bool"
  for mt s0 where
  reach_refl: "pathz_reach mt s0 s0"
| reach_step: "pathz_reach mt s0 s \<Longrightarrow> pathz_step mt s s' \<Longrightarrow> pathz_reach mt s0 s'"

text \<open>Running sessions one after the other, and the messages of an open session.\<close>

definition sequential ::
  "(AuthorizationPolicy option \<Rightarrow> string) \<Rightarrow> event list list \<Rightarrow> GnmiAuthzProcessor GNSIPathzServer \<times> world
   \<Rightarrow> GnmiAuthzProcessor GNSIPathzServer \<times> world" where
  "sequential mt runs st = foldl (\<lambda>(srv, w) evs. snd (pathzRotate mt True False evs srv w)) st runs"

fun answeredAll ::
  "(AuthorizationPolicy option \<Rightarrow> string) \<Rightarrow> event list \<Rightarrow> GnmiAuthzProcessor GNSIPathzServer \<times> world
   \<Rightarrow> GnmiAuthzProcessor GNSIPathzServer \<times> world \<Rightarrow> bool" where
  "answeredAll mt [] st st' = (st = st')"
| "answeredAll mt (ev # evs) st st' =
     (case rotateEvent UpdatePolicyFromProto mt (Some ev) (fst st) (snd st) of
        (Continue, st1) \<Rightarrow> answeredAll mt evs st1 st'
      | (Return _, _) \<Rightarrow> False)"

lemma answeredAll_snoc:
  "answeredAll mt evs st st1 \<Longrightarrow> rotateEvent UpdatePolicyFromProto mt (Some ev) (fst st1) (snd st1) = (Continue, st2) \<Longrightarrow>
   answeredAll mt (evs @ [ev]) st st2"
  by (induction evs arbitrary: st) (auto split: prod.splits outcome.splits)

lemma answeredAll_loop:
  "answeredAll mt evs st (srv1, w1) \<Longrightarrow>
   rotateLoop UpdatePolicyFromProto mt (evs @ evs') (fst st) (snd st) = rotateLoop UpdatePolicyFromProto mt evs' srv1 w1"
  by (induction evs arbitrary: st) (auto split: prod.splits outcome.splits)

lemma sequential_snoc:
  "sequential mt (runs @ [evs]) st = (case sequential mt runs st of (srv, w) \<Rightarrow> snd (pathzRotate mt True False evs srv w))"
  by (simp add: sequential_def split_beta)

text \<open>What is true of every reachable state: sessions ran one after the other, and perhaps one is open.\<close>

definition serialState ::
  "(AuthorizationPolicy option \<Rightarrow> string) \<Rightarrow> GnmiAuthzProcessor GNSIPathzServer \<times> world
   \<Rightarrow> GnmiAuthzProcessor pathzSystem \<Rightarrow> bool" where
  "serialState mt st0 s \<longleftrightarrow>
     (\<exists>runs. case sys_lock s of
        None \<Rightarrow> (sys_srv s, sys_world s) = sequential mt runs st0
      | Some _ \<Rightarrow>
          (\<exists>srv w srv1 w1 evs. sequential mt runs st0 = (srv, w) \<and>
             startRotate activePolicy srv w = (None :: pathz_error rotate_error option, srv1, w1) \<and>
             answeredAll mt evs (srv1, w1) (sys_srv s, sys_world s)))"

lemma serialState_closed:
  "sys_lock s = None \<Longrightarrow> serialState mt st0 s \<longleftrightarrow> (\<exists>runs. sequential mt runs st0 = (sys_srv s, sys_world s))"
  by (auto simp: serialState_def eq_commute)

lemma serialState_open:
  "sys_lock s = Some i \<Longrightarrow> serialState mt st0 s \<longleftrightarrow>
     (\<exists>runs srv w srv1 w1 evs. sequential mt runs st0 = (srv, w) \<and>
        startRotate activePolicy srv w = (None :: pathz_error rotate_error option, srv1, w1) \<and>
        answeredAll mt evs (srv1, w1) (sys_srv s, sys_world s))"
  by (simp add: serialState_def)

lemma serialState_closedI:
  "sequential mt runs st0 = (srv, w) \<Longrightarrow> serialState mt st0 \<lparr>sys_srv = srv, sys_world = w, sys_lock = None\<rparr>"
  by (subst serialState_closed) auto

lemma serialState_openI:
  assumes "sequential mt runs st0 = (srv, w)"
    and "startRotate activePolicy srv w = (None :: pathz_error rotate_error option, srv1, w1)"
    and "answeredAll mt evs (srv1, w1) (srv', w')"
  shows "serialState mt st0 \<lparr>sys_srv = srv', sys_world = w', sys_lock = Some i\<rparr>"
  using assms unfolding serialState_def by (simp only: pathzSystem.select_convs option.case) blast

lemma serialState_step:
  assumes "pathz_step mt s s'" and "serialState mt st0 s"
  shows "serialState mt st0 s'"
  using assms
proof (induction rule: pathz_step.induct)
  case (started s srv' w' i)
  then obtain runs where "sequential mt runs st0 = (sys_srv s, sys_world s)"
    by (auto simp: serialState_closed)
  then show ?case by (rule serialState_openI [where evs = "[]"]) (use started(2) in simp_all)
next
  case (notStarted s e srv' w')
  then obtain runs where runs: "sequential mt runs st0 = (sys_srv s, sys_world s)"
    by (auto simp: serialState_closed)
  have "pathzRotate mt True False [] (sys_srv s) (sys_world s) = (Some e, srv', w')"
    using notStarted by (simp add: Rotate_def)
  then have "sequential mt (runs @ [[]]) st0 = (srv', w')" by (simp add: sequential_snoc runs)
  then show ?case by (rule serialState_closedI)
next
  case (message s i ev srv' w')
  then obtain runs srv w srv1 w1 evs where *: "sequential mt runs st0 = (srv, w)"
    "startRotate activePolicy srv w = (None :: pathz_error rotate_error option, srv1, w1)"
    "answeredAll mt evs (srv1, w1) (sys_srv s, sys_world s)" by (auto simp: serialState_open)
  from answeredAll_snoc [OF *(3), of ev "(srv', w')"] message have "answeredAll mt (evs @ [ev]) (srv1, w1) (srv', w')"
    by simp
  with * show ?case by (intro serialState_openI)
next
  case (finished s i ev r srv' w')
  then obtain runs srv w srv1 w1 evs where *: "sequential mt runs st0 = (srv, w)"
    "startRotate activePolicy srv w = (None :: pathz_error rotate_error option, srv1, w1)"
    "answeredAll mt evs (srv1, w1) (sys_srv s, sys_world s)" by (auto simp: serialState_open)
  let ?last = "case ev of None \<Rightarrow> [] | Some e \<Rightarrow> [e]"
  have "rotateLoop UpdatePolicyFromProto mt ?last (sys_srv s) (sys_world s) = (r, srv', w')"
    using finished by (cases ev) simp_all
  with answeredAll_loop [OF *(3), of ?last] *(2)
  have "pathzRotate mt True False (evs @ ?last) srv w = (r, srv', w')" by (simp add: Rotate_def)
  then have "sequential mt (runs @ [evs @ ?last]) st0 = (srv', w')" by (simp add: sequential_snoc *(1))
  then show ?case by (rule serialState_closedI)
qed

lemma serialState_reach:
  "pathz_reach mt s0 s \<Longrightarrow> serialState mt st0 s0 \<Longrightarrow> serialState mt st0 s"
  by (induction rule: pathz_reach.induct) (auto intro: serialState_step)

section \<open>A session with one upload, without faults\<close>

definition quiet :: "'p GNSIPathzServer \<Rightarrow> string \<Rightarrow> world \<Rightarrow> bool" where
  "quiet srv c w \<longleftrightarrow>
     w_faults w = [] \<and> map_of (w_files w) (ps_policyFile srv) = Some (Regular c) \<and>
     ps_policyFile srv \<noteq> ps_policyBackup srv \<and> map_of (w_files w) (ps_policyBackup srv) \<noteq> Some OtherNode \<and>
     ps_metadata srv < length (ps_heap srv)"

definition acceptable :: "UploadRequest \<Rightarrow> bool \<Rightarrow> 'p GNSIPathzServer \<Rightarrow> bool" where
  "acceptable up force srv \<longleftrightarrow>
     up_version up \<noteq> [] \<and> (PathzVersion (metadata srv) \<noteq> up_version up \<or> force)"

lemma one_upload:
  assumes "quiet srv c w" and "acceptable up force srv"
    and "UpdatePolicyFromProto (ps_processor srv) (up_policy up) = (None, pr)"
  obtains w2 where "\<And>evs. pathzRotate mt True False (Recv (UploadReq up force) True # evs) srv w =
      rotateLoop UpdatePolicyFromProto mt evs (uploaded pr up (checkpointed activePolicy srv)) w2"
    and "fileSession w (ps_policyFile srv) (ps_policyBackup srv) c w2"
    and "map_of (w_files w2) (ps_policyFile srv) = Some (Regular (mt (up_policy up)))"
proof -
  let ?s = "checkpointed activePolicy srv"
  from assms(1) start_ok [of w srv c activePolicy] obtain w1 where
    st: "startRotate activePolicy srv w = (None :: pathz_error rotate_error option, ?s, w1)"
    and f1: "fileSession w (ps_policyFile srv) (ps_policyBackup srv) c w1"
    unfolding quiet_def by blast
  have fields: "ps_policyFile ?s = ps_policyFile srv" "ps_processor ?s = ps_processor srv" "metadata ?s = metadata srv"
    by (simp_all add: checkpointed_def metadata_def)
  from upload_ok [of w ?s "ps_policyBackup srv" c w1 up force UpdatePolicyFromProto pr mt] f1 assms(2,3)
  obtain w2 where
    up: "rotateEvent UpdatePolicyFromProto mt (Some (Recv (UploadReq up force) True)) ?s w1 = (Continue, uploaded pr up ?s, w2)"
    and f2: "fileSession w (ps_policyFile srv) (ps_policyBackup srv) c w2"
    and pol: "map_of (w_files w2) (ps_policyFile srv) = Some (Regular (mt (up_policy up)))"
    by (auto simp: fields acceptable_def)
  have "pathzRotate mt True False (Recv (UploadReq up force) True # evs) srv w =
      rotateLoop UpdatePolicyFromProto mt evs (uploaded pr up ?s) w2" for evs
    by (simp add: Rotate_def st up)
  with f2 pol that show thesis by blast
qed

lemma one_upload_commits:
  assumes "quiet srv c w" and "acceptable up force srv"
    and "UpdatePolicyFromProto (ps_processor srv) (up_policy up) = (None, pr)"
    and "map_of (w_files w) (ps_metaFile srv) = None \<or> map_of (w_files w) (ps_metaFile srv) = Some (Regular m)"
    and "ps_metaFile srv \<noteq> ps_policyFile srv" and "ps_metaFile srv \<noteq> ps_policyBackup srv"
  shows "fst (pathzRotate mt True False [Recv (UploadReq up force) True, Recv FinalizeReq b] srv w) = None"
proof -
  let ?s = "uploaded pr up (checkpointed activePolicy srv)"
  obtain w2 where run: "pathzRotate mt True False [Recv (UploadReq up force) True, Recv FinalizeReq b] srv w =
      rotateLoop UpdatePolicyFromProto mt [Recv FinalizeReq b] ?s w2"
    and f: "fileSession w (ps_policyFile srv) (ps_policyBackup srv) c w2"
    using one_upload [OF assms(1-3)] by metis
  have fields: "ps_metaFile ?s = ps_metaFile srv" "ps_policyUpdated ?s"
    by (simp_all add: uploaded_def checkpointed_def)
  from f have nf: "w_faults w2 = []" and same: "map_of (w_files w2) (ps_metaFile srv) = map_of (w_files w) (ps_metaFile srv)"
    using assms(5,6) by (auto simp: fileSession_def)
  obtain w3 where db: "writePathzMetadataToDB pathzPolicyActive ?s w2 = (True, w3)" "w_faults w3 = []" "w_files w3 = w_files w2"
    using nf by (simp add: writePathzMetadataToDB_def writeDB_ok)
  from attemptWrite_ok [OF db(2), of "ps_metaFile srv" m "encodeStrings (metaFields (metadata ?s))"] db same assms(4)
  obtain w4 where "attemptWrite (ps_metaFile srv) (encodeStrings (metaFields (metadata ?s))) w3 = (True, w4)" by auto
  with db(1) have "commitChanges ?s w2 = (True, w4)"
    unfolding commitChanges_def savePathzFileFreshess_def by (simp add: fields)
  with fields show ?thesis unfolding run by (simp add: rotateEvent_def)
qed

lemma one_upload_reverts:
  assumes "quiet srv c w" and "acceptable up force srv"
    and "UpdatePolicyFromProto (ps_processor srv) (up_policy up) = (None, pr)"
    and "loadedProcessor (ps_processor srv)"
  shows "\<exists>srv' w'. pathzRotate mt True False [Recv (UploadReq up force) True] srv w = (Some NoFinalize, srv', w') \<and>
    metadata srv' = uploadMeta up \<and> quiet srv' c w' \<and> ps_processor srv' = ps_processor srv"
proof -
  let ?s = "uploaded pr up (checkpointed activePolicy srv)"
  obtain w2 where run: "pathzRotate mt True False [Recv (UploadReq up force) True] srv w =
      rotateLoop UpdatePolicyFromProto mt [] ?s w2"
    and f: "fileSession w (ps_policyFile srv) (ps_policyBackup srv) c w2"
    using one_upload [OF assms(1-3)] by metis
  obtain ok srv' w' where rev: "revertPolicy UpdatePolicyFromProto ?s w2 = (ok, srv', w')" by (metis prod_cases3)
  have ses: "pathz.session (ps_processor srv) ?s"
    using assms(4) by (simp add: pathz.session_def uploaded_def checkpointed_def)
  have fields: "ps_policyFile ?s = ps_policyFile srv" "ps_policyBackup ?s = ps_policyBackup srv"
    by (simp_all add: uploaded_def checkpointed_def)
  from pathz.revert_files [OF rev ses, of w c] f fields
  have after: "ok" "w_faults w' = []" "map_of (w_files w') = (map_of (w_files w))(ps_policyBackup srv := None)" by auto
  from rev pathz.upd_again [OF assms(4), of pr]
  have srv': "srv' = restoreMetadata (?s\<lparr>ps_policyUpdated := False, ps_processor := ps_processor srv\<rparr>)"
    by (cases rule: revert_cases) (simp_all add: uploaded_def checkpointed_def)
  have "metadata srv' = uploadMeta up" "ps_policyFile srv' = ps_policyFile srv" "ps_policyBackup srv' = ps_policyBackup srv"
      "ps_metadata srv' < length (ps_heap srv')" "ps_processor srv' = ps_processor srv"
    using assms(1) by (simp_all add: srv' quiet_def metadata_def restoreMetadata_def uploaded_def checkpointed_def)
  with after assms(1) run rev show ?thesis by (simp add: rotateEvent_def quiet_def)
qed

section \<open>A small server\<close>

definition ruleOf :: "string \<Rightarrow> Action \<Rightarrow> AuthorizationRule" where
  "ruleOf u a = \<lparr>rule_id = u, rule_principal = PUser u,
     rule_path = [\<lparr>elem_name = ''if'', elem_key = []\<rparr>], rule_action = a, rule_mode = MODE_READ\<rparr>"

definition polA :: AuthorizationPolicy where
  "polA = \<lparr>policy_rules = [ruleOf ''ann'' ACTION_PERMIT], policy_groups = []\<rparr>"

definition polB :: AuthorizationPolicy where
  "polB = \<lparr>policy_rules = [ruleOf ''bob'' ACTION_PERMIT], policy_groups = []\<rparr>"

definition textOf :: "AuthorizationPolicy option \<Rightarrow> string" where
  "textOf p = (case p of None \<Rightarrow> ''<nil>'' | Some q \<Rightarrow> concat (map rule_id (policy_rules q)))"

definition serverWith :: "AuthorizationPolicy option \<Rightarrow> GnmiAuthzProcessor GNSIPathzServer" where
  "serverWith p = \<lparr>ps_processor = snd (UpdatePolicyFromProto newProcessor p), ps_heap = [NewPathzMetadata], ps_metadata = 0,
     ps_metadataCopy = None, ps_policyCopy = None, ps_policyUpdated = False,
     ps_policyFile = ''pol'', ps_policyBackup = ''pol.backup'', ps_metaFile = ''meta''\<rparr>"

definition hostEx :: "fault list \<Rightarrow> world" where
  "hostEx fs = \<lparr>w_files = [(''pol'', Regular ''ann'')], w_db = [], w_faults = fs\<rparr>"

definition uploadB :: UploadRequest where
  "uploadB = \<lparr>up_version = ''v2'', up_createdOn = 7, up_policy = Some polB\<rparr>"

lemma loaded_polA: "loadedProcessor (ps_processor (serverWith (Some polA)))"
  unfolding loadedProcessor_def by code_simp

lemma polB_ok:
  "UpdatePolicyFromProto (ps_processor (serverWith p)) (up_policy uploadB)
   = (None, snd (UpdatePolicyFromProto (ps_processor (serverWith p)) (Some polB)))"
proof -
  have "fst (UpdatePolicyFromProto newProcessor (Some polB)) = None" by code_simp
  then show ?thesis
    by (simp add: uploadB_def UpdatePolicyFromProto_def split: sum.splits)
qed

lemma quiet_hostEx: "quiet (serverWith p) ''ann'' (hostEx [])"
  by (simp add: quiet_def serverWith_def hostEx_def)

lemma acceptable_uploadB: "acceptable uploadB force (serverWith p)"
  by (simp add: acceptable_def serverWith_def metadata_def NewPathzMetadata_def uploadB_def)

section \<open>Properties\<close>



text \<open>
  C9. Whatever faults occur, if \<open>Rotate\<close> reports success then the caller was authenticated, no other
  session was open, a Finalize came after an upload, and everything agrees with the last upload: the
  policy in force, the policy file, the metadata, the metadata file and the version in the database.
\<close>

theorem rotate_success_consistent:
  assumes "pathzRotate mt authOk locked evs srv w = (None, srv', w')"
    and "ps_metadata srv < length (ps_heap srv)"
    and "ps_policyFile srv \<noteq> ps_policyBackup srv" and "ps_policyFile srv \<noteq> ps_metaFile srv"
    and "\<not> hasPrefix (ps_metaFile srv) (ps_policyBackup srv)"
    and "\<And>q. map_of (w_files w) (ps_metaFile srv) \<noteq> Some (Symlink q)"
  shows "authOk \<and> \<not> locked \<and>
    (\<exists>pre b rest up. evs = pre @ Recv FinalizeReq b # rest \<and> lastUpload None pre = Some up \<and>
       loadedProcessor (ps_processor srv') \<and> committed activePolicy mt up srv' w')"
  by (rule pathz.rotate_commits [OF assms])

theorem rotate_success_consistent_witness:
  "fst (pathzRotate textOf True False [Recv (UploadReq uploadB False) True, Recv FinalizeReq True]
     (serverWith (Some polA)) (hostEx [])) = None \<and>
   (\<exists>srv' w' pre b rest up. [Recv (UploadReq uploadB False) True, Recv FinalizeReq True] = pre @ Recv FinalizeReq b # rest \<and>
      lastUpload None pre = Some up \<and> committed activePolicy textOf up srv' w')"
proof -
  let ?run = "pathzRotate textOf True False [Recv (UploadReq uploadB False) True, Recv FinalizeReq True]
     (serverWith (Some polA)) (hostEx [])"
  have ok: "fst ?run = None"
    by (rule one_upload_commits [where c = "''ann''", OF quiet_hostEx acceptable_uploadB polB_ok])
      (simp_all add: serverWith_def hostEx_def)
  then obtain srv' w' where run: "?run = (None, srv', w')" by (metis prod.collapse)
  have "ps_metadata (serverWith (Some polA)) < length (ps_heap (serverWith (Some polA)))"
    "ps_policyFile (serverWith (Some polA)) \<noteq> ps_policyBackup (serverWith (Some polA))"
    "ps_policyFile (serverWith (Some polA)) \<noteq> ps_metaFile (serverWith (Some polA))"
    "\<not> hasPrefix (ps_metaFile (serverWith (Some polA))) (ps_policyBackup (serverWith (Some polA)))"
    "\<And>q. map_of (w_files (hostEx [])) (ps_metaFile (serverWith (Some polA))) \<noteq> Some (Symlink q)"
    by (simp_all add: serverWith_def hostEx_def hasPrefix_def)
  from rotate_success_consistent [OF run this] ok show ?thesis by blast
qed





text \<open>
  C12. Without faults, a session that uploads an acceptable policy (a version that is new or forced,
  rules that compile) and finalizes it succeeds.
\<close>

theorem rotate_completes:
  assumes "quiet srv c w" and "acceptable up force srv"
    and "UpdatePolicyFromProto (ps_processor srv) (up_policy up) = (None, pr)"
    and "map_of (w_files w) (ps_metaFile srv) = None \<or> map_of (w_files w) (ps_metaFile srv) = Some (Regular m)"
    and "ps_metaFile srv \<noteq> ps_policyFile srv" and "ps_metaFile srv \<noteq> ps_policyBackup srv"
  shows "\<exists>srv' w'. pathzRotate mt True False [Recv (UploadReq up force) True, Recv FinalizeReq b] srv w = (None, srv', w')"
  using one_upload_commits [OF assms, of mt b] by (metis prod.collapse)

theorem rotate_completes_witness:
  "\<exists>srv' w'. pathzRotate textOf True False [Recv (UploadReq uploadB False) True, Recv FinalizeReq True]
     (serverWith (Some polA)) (hostEx []) = (None, srv', w')"
  by (rule rotate_completes [where c = "''ann''", OF quiet_hostEx acceptable_uploadB polB_ok])
    (simp_all add: serverWith_def hostEx_def)

text \<open>
  The metadata are not reverted. After a session that uploads a policy and ends without Finalize,
  the old policy is back in force, but the server believes it has the new version: uploading that very
  version again is refused as already existing. The checkpoint keeps a pointer to the metadata that
  the upload overwrites.
\<close>

theorem reverted_rotation_keeps_version:
  assumes "quiet srv c w" and "acceptable up force srv"
    and "UpdatePolicyFromProto (ps_processor srv) (up_policy up) = (None, pr)"
    and "loadedProcessor (ps_processor srv)"
  shows "\<exists>srv' w'. pathzRotate mt True False [Recv (UploadReq up force) True] srv w = (Some NoFinalize, srv', w') \<and>
    ps_processor srv' = ps_processor srv \<and> PathzVersion (metadata srv') = up_version up \<and>
    fst (pathzRotate mt True False [Recv (UploadReq up False) b] srv' w')
      = Some (RequestFailed (VersionExists (up_version up)))"
proof -
  from one_upload_reverts [OF assms, of mt] obtain srv' w' where
    run: "pathzRotate mt True False [Recv (UploadReq up force) True] srv w = (Some NoFinalize, srv', w')"
    and srv': "metadata srv' = uploadMeta up" "quiet srv' c w'" "ps_processor srv' = ps_processor srv" by blast
  from srv'(2) start_ok [of w' srv' c activePolicy] obtain w1 where
    st: "startRotate activePolicy srv' w' = (None :: pathz_error rotate_error option, checkpointed activePolicy srv', w1)"
    unfolding quiet_def by blast
  have "PathzVersion (metadata (checkpointed activePolicy srv')) = up_version up"
    using srv'(1) by (simp add: metadata_def checkpointed_def uploadMeta_def)
  then have "fst (pathzRotate mt True False [Recv (UploadReq up False) b] srv' w')
      = Some (RequestFailed (VersionExists (up_version up)))"
    using assms(2) by (simp add: Rotate_def st rotateEvent_def processRotateRequest_def acceptable_def split: prod.splits)
  with run srv' show ?thesis by (auto simp: uploadMeta_def)
qed

theorem reverted_rotation_keeps_version_witness:
  "\<exists>srv' w'. pathzRotate textOf True False [Recv (UploadReq uploadB False) True] (serverWith (Some polA)) (hostEx [])
      = (Some NoFinalize, srv', w') \<and>
    ps_processor srv' = ps_processor (serverWith (Some polA)) \<and> PathzVersion (metadata srv') = ''v2'' \<and>
    fst (pathzRotate textOf True False [Recv (UploadReq uploadB False) True] srv' w')
      = Some (RequestFailed (VersionExists ''v2''))"
  using reverted_rotation_keeps_version [OF quiet_hostEx acceptable_uploadB polB_ok loaded_polA, of textOf False True]
  by (simp add: uploadB_def)

text \<open>
  A first policy cannot be reverted. On a server with no policy loaded, a session that uploads a
  policy and ends without Finalize leaves the uploaded policy in force and in the policy file: the
  revert tries to load the absent old policy, which fails, and then removes the backup.
\<close>

theorem first_rotation_cannot_revert:
  assumes "quiet srv c w" and "acceptable up force srv"
    and "UpdatePolicyFromProto (ps_processor srv) (up_policy up) = (None, pr)"
    and "activePolicy (ps_processor srv) = None"
  shows "\<exists>srv' w'. pathzRotate mt True False [Recv (UploadReq up force) True] srv w = (Some RevertFailed, srv', w') \<and>
    ps_processor srv' = pr \<and> activePolicy (ps_processor srv') = up_policy up \<and>
    map_of (w_files w') (ps_policyFile srv) = Some (Regular (mt (up_policy up))) \<and>
    map_of (w_files w') (ps_policyBackup srv) = None"
proof -
  let ?s = "uploaded pr up (checkpointed activePolicy srv)"
  obtain w2 where run: "pathzRotate mt True False [Recv (UploadReq up force) True] srv w =
      rotateLoop UpdatePolicyFromProto mt [] ?s w2"
    and f: "fileSession w (ps_policyFile srv) (ps_policyBackup srv) c w2"
    and pol: "map_of (w_files w2) (ps_policyFile srv) = Some (Regular (mt (up_policy up)))"
    using one_upload [OF assms(1-3)] by metis
  have fields: "ps_policyUpdated ?s" "ps_policyCopy ?s = None" "ps_processor ?s = pr"
      "ps_policyBackup ?s = ps_policyBackup srv"
    using assms(4) by (simp_all add: uploaded_def checkpointed_def)
  have none: "UpdatePolicyFromProto pr None = (Some NoRules, pr)"
    by (simp add: UpdatePolicyFromProto_def createNewPolicy_def createPolicies_def)
  from f have "w_faults w2 = []" "map_of (w_files w2) (ps_policyBackup srv) = Some (Regular c)"
    "ps_policyFile srv \<noteq> ps_policyBackup srv" by (auto simp: fileSession_def)
  with osRemove_ok [of w2 "ps_policyBackup srv" "Regular c"] pol
  have w': "map_of (w_files (snd (osRemove (ps_policyBackup srv) w2))) (ps_policyFile srv) = Some (Regular (mt (up_policy up)))"
    "map_of (w_files (snd (osRemove (ps_policyBackup srv) w2))) (ps_policyBackup srv) = None"
    by (auto simp: filesAfter_def)
  have "revertPolicy UpdatePolicyFromProto ?s w2 =
      (False, ?s\<lparr>ps_policyUpdated := False, ps_processor := pr\<rparr>, snd (osRemove (ps_policyBackup srv) w2))"
    by (simp add: revertPolicy_def fields none)
  with run w' pathz.upd_ok [OF assms(3)] show ?thesis by (simp add: rotateEvent_def)
qed

theorem first_rotation_cannot_revert_witness:
  "\<exists>srv' w'. pathzRotate textOf True False [Recv (UploadReq uploadB False) True] (serverWith None) (hostEx [])
      = (Some RevertFailed, srv', w') \<and>
    activePolicy (ps_processor srv') = Some polB \<and> map_of (w_files w') ''pol'' = Some (Regular ''bob'')"
proof -
  have none: "activePolicy (ps_processor (serverWith None)) = None" by code_simp
  have "ps_policyFile (serverWith None) = ''pol''" "textOf (up_policy uploadB) = ''bob''" "up_policy uploadB = Some polB"
    by (simp_all add: serverWith_def textOf_def uploadB_def polB_def ruleOf_def)
  then show ?thesis
    using first_rotation_cannot_revert [OF quiet_hostEx acceptable_uploadB polB_ok none, of textOf False]
    by auto
qed

text \<open>
  The freshness file is a faithful copy: metadata that were saved are what a later start loads,
  whatever characters the version has.
\<close>

theorem pathz_freshness_roundtrip:
  assumes "savePathzFileFreshess path srv w = (True, w')"
    and "\<And>q. map_of (w_files w) path \<noteq> Some (Symlink q)" and "w_faults w' = []"
    and "ps_metadata srv' < length (ps_heap srv')"
  shows "\<exists>srv''. loadPathzFreshness path srv' w' = (True, srv'', w') \<and> metadata srv'' = metadata srv"
proof -
  from attemptWrite_plain [OF assms(1) [unfolded savePathzFileFreshess_def] assms(2)]
  have "map_of (w_files w') path = Some (Regular (encodeStrings (metaFields (metadata srv))))" by simp
  from osReadFile_ok [OF assms(3) this]
  have "loadPathzFreshness path srv' w' =
      (case decodeStrings (encodeStrings (metaFields (metadata srv))) (metaFields (metadata srv')) of
             (ok, fs) \<Rightarrow> (ok, setMetadata (metaOfFields fs) srv', w'))"
    by (simp add: loadPathzFreshness_def)
  moreover have "decodeStrings (encodeStrings (metaFields (metadata srv))) (metaFields (metadata srv'))
      = (True, metaFields (metadata srv))"
    unfolding metaFields_def
    by (rule decode_encode_two) (simp add: pathzVersionFld_def pathzCreatedOnFld_def toLower_def lowerChar_def)
  moreover have "metaOfFields (metaFields (metadata srv)) = metadata srv"
    by (simp add: metaOfFields_def metaFields_def pathzVersionFld_def pathzCreatedOnFld_def)
  ultimately have "loadPathzFreshness path srv' w' = (True, setMetadata (metadata srv) srv', w')"
    "metadata (setMetadata (metadata srv) srv') = metadata srv"
    using assms(4) by (simp_all add: metadata_def setMetadata_def)
  then show ?thesis by blast
qed

theorem pathz_freshness_roundtrip_witness:
  "\<exists>w' srv''. savePathzFileFreshess ''meta'' (serverWith None) (hostEx []) = (True, w') \<and>
     loadPathzFreshness ''meta'' (setMetadata \<lparr>PathzVersion = ''x'', PathzCreatedOn = ''y''\<rparr> (serverWith None)) w'
       = (True, srv'', w') \<and> metadata srv'' = NewPathzMetadata"
proof -
  obtain w' where save: "savePathzFileFreshess ''meta'' (serverWith None) (hostEx []) = (True, w')" and nf: "w_faults w' = []"
    using attemptWrite_ok [of "hostEx []" "''meta''" "[]" "encodeStrings (metaFields (metadata (serverWith None)))"]
    by (auto simp: savePathzFileFreshess_def hostEx_def filesAfter_def)
  have "metadata (serverWith None) = NewPathzMetadata" by (simp add: metadata_def serverWith_def)
  then show ?thesis
    using pathz_freshness_roundtrip [OF save _ nf,
        of "setMetadata \<lparr>PathzVersion = ''x'', PathzCreatedOn = ''y''\<rparr> (serverWith None)"] save
    by (auto simp: hostEx_def serverWith_def setMetadata_def)
qed

end

