(* ===== verification/Bypass.thy ===== *)
theory Bypass
  imports Auth Host Json Gnmi_Proto "HOL-Library.Word"
begin

text \<open>
  The fast path of Set, \<^verbatim>\<open>pkg/bypass/bypass.go\<close>: requests that carry a header, on certain hardware and
  for certain tables, are written to CONFIG\_DB directly. Here \<open>w_db\<close> of the host is CONFIG\_DB.

  \<open>rng\<close> orders the iteration over a Go map, \<open>fnum\<close> is what \<open>Sprintf("%v")\<close> prints for the float64 of a JSON
  number. A redis call that fails takes a fault of the host. An HSET with several fields is one call.
\<close>

section \<open>Values of updates\<close>

datatype TypedValue =
    JsonIetfVal string
  | StringVal string
  | IntVal "64 word"
  | UintVal "64 word"
  | ProtoBytes string
  | OtherVal
  | NilVal

record Update =
  upd_path :: "Path option"
  upd_val :: TypedValue

datatype UpdateOp = OpDELETE | OpREPLACE | OpUPDATE

record UpdateResult =
  ur_path :: "Path option"
  ur_op :: UpdateOp

record SetResponse =
  sr_prefix :: "Path option"
  sr_response :: "UpdateResult list"

definition GetJsonIetfVal :: "TypedValue \<Rightarrow> string" where
  "GetJsonIetfVal v = (case v of JsonIetfVal s \<Rightarrow> s | _ \<Rightarrow> [])"

section \<open>Conditions\<close>

definition MetadataKeyBypassValidation :: string where
  "MetadataKeyBypassValidation = ''x-sonic-ss-bypass-validation''"

definition AllowedTables :: "string list" where
  "AllowedTables = [''VNET'', ''VNET_ROUTE_TUNNEL'', ''VLAN_SUB_INTERFACE'', ''ACL_RULE'', ''BGP_PEER_RANGE'']"

definition AllowedSKUPrefixes :: "string list" where
  "AllowedSKUPrefixes = [''Cisco-8102'', ''Cisco-8101'', ''Cisco-8223'']"

text \<open>Network and address of the client: \<open>REDIS_ADDR\<close> first, then the socket if it exists, then TCP.\<close>

definition getConfigDbClientDefault :: "string \<Rightarrow> bool \<Rightarrow> string \<times> string" where
  "getConfigDbClientDefault redisAddr socketExists =
     (if redisAddr \<noteq> [] then (if hasPrefix redisAddr ''/'' then ''unix'' else ''tcp'', redisAddr)
      else if socketExists then (''unix'', ''/var/run/redis/redis.sock'')
      else (''tcp'', ''127.0.0.1:6379''))"

definition hasBypassHeader :: "ReqCtx \<Rightarrow> bool" where
  "hasBypassHeader ctx =
     (case ctx_md ctx of
        None \<Rightarrow> False
      | Some md \<Rightarrow> map_of md MetadataKeyBypassValidation = Some ''true'')"

definition checkSKU :: "world \<Rightarrow> bool \<times> world" where
  "checkSKU w =
     (case nextFault w of
        (f, w1) \<Rightarrow>
          if f \<noteq> Works then (False, w1)
          else
            (case hget ''DEVICE_METADATA|localhost'' ''hwsku'' (w_db w1) of
               None \<Rightarrow> (False, w1)
             | Some hwsku \<Rightarrow> (list_ex (hasPrefix hwsku) AllowedSKUPrefixes, w1)))"

definition pathElems :: "Path option \<Rightarrow> PathElem list" where
  "pathElems p = (case p of None \<Rightarrow> [] | Some q \<Rightarrow> path_elem q)"

definition skipped :: "string \<Rightarrow> bool" where
  "skipped name \<longleftrightarrow> name = ''CONFIG_DB'' \<or> name = ''localhost''"

fun firstTable :: "PathElem list \<Rightarrow> string" where
  "firstTable [] = []"
| "firstTable (e # es) = (if skipped (elem_name e) then firstTable es else elem_name e)"

definition extractTable :: "Path option \<Rightarrow> Path option \<Rightarrow> string" where
  "extractTable prefix path = firstTable (pathElems prefix @ pathElems path)"

fun checkAllowedTables :: "Path option \<Rightarrow> Update list \<Rightarrow> bool" where
  "checkAllowedTables prefix [] = True"
| "checkAllowedTables prefix (u # us) =
     (let table = extractTable prefix (upd_path u) in
      if table = [] then False
      else if table \<notin> set AllowedTables then False
      else checkAllowedTables prefix us)"

fun checkAllowedDeletePaths :: "Path option \<Rightarrow> Path option list \<Rightarrow> bool" where
  "checkAllowedDeletePaths prefix [] = True"
| "checkAllowedDeletePaths prefix (p # ps) =
     (let table = extractTable prefix p in
      if table = [] then False
      else if table \<notin> set AllowedTables then False
      else checkAllowedDeletePaths prefix ps)"

definition ShouldBypass :: "ReqCtx \<Rightarrow> Path option \<Rightarrow> Update list \<Rightarrow> world \<Rightarrow> bool \<times> world" where
  "ShouldBypass ctx prefix updates w =
     (if \<not> hasBypassHeader ctx then (False, w)
      else (case checkSKU w of (ok, w1) \<Rightarrow> (ok \<and> checkAllowedTables prefix updates, w1)))"

definition ShouldBypassDelete :: "ReqCtx \<Rightarrow> Path option \<Rightarrow> Path option list \<Rightarrow> world \<Rightarrow> bool \<times> world" where
  "ShouldBypassDelete ctx prefix deletes w =
     (if \<not> hasBypassHeader ctx then (False, w)
      else (case checkSKU w of (ok, w1) \<Rightarrow> (ok \<and> checkAllowedDeletePaths prefix deletes, w1)))"

section \<open>Paths and values\<close>

definition decodeJsonPointer :: "string \<Rightarrow> string" where
  "decodeJsonPointer s = replaceAll ''~0'' ''~'' (replaceAll ''~1'' ''/'' s)"

definition parsePath :: "Path option \<Rightarrow> Path option \<Rightarrow> string \<times> string \<times> string" where
  "parsePath prefix path =
     (let parts = filter (\<lambda>n. \<not> skipped n) (map elem_name (pathElems prefix @ pathElems path))
      in (if length parts \<ge> 1 then parts ! 0 else [],
          if length parts \<ge> 2 then decodeJsonPointer (parts ! 1) else [],
          if length parts \<ge> 3 then parts ! 2 else []))"

text \<open>A JSON object as a Go map: a later member of the same name replaces an earlier one.\<close>

definition lastWins :: "(string \<times> 'a) list \<Rightarrow> 'a gomap" where
  "lastWins ms = foldl (\<lambda>m (k, v). AList.update k v m) [] ms"

text \<open>\<open>Sprintf("%v")\<close> of a decoded JSON value.\<close>

fun fmtV :: "(string \<Rightarrow> string) \<Rightarrow> json \<Rightarrow> string" where
  "fmtV fnum JNull = ''<nil>''"
| "fmtV fnum (JBool b) = (if b then ''true'' else ''false'')"
| "fmtV fnum (JNum n) = fnum n"
| "fmtV fnum (JStr s) = s"
| "fmtV fnum (JArr vs) = ''['' @ join '' '' (map (fmtV fnum) vs) @ '']''"
| "fmtV fnum (JObj ms) =
     (let m = lastWins (map (\<lambda>(k, v). (k, fmtV fnum v)) ms)
      in ''map['' @ join '' '' (map (\<lambda>k. k @ '':'' @ the (map_of m k)) (sorted_keys m)) @ '']'')"

definition redisField :: "(string \<Rightarrow> string) \<Rightarrow> string \<Rightarrow> json \<Rightarrow> string \<times> string" where
  "redisField fnum k v =
     (case v of
        JArr vs \<Rightarrow> (k @ ''@'', join '','' (map (fmtV fnum) vs))
      | _ \<Rightarrow> (k, fmtV fnum v))"

definition convertToRedisFields ::
  "(json gomap \<Rightarrow> json gomap) \<Rightarrow> (string \<Rightarrow> string) \<Rightarrow> json gomap \<Rightarrow> string gomap" where
  "convertToRedisFields rng fnum m =
     foldl (\<lambda>fs (k, v). case redisField fnum k v of (f, x) \<Rightarrow> AList.update f x fs) [] (rng m)"

text \<open>\<open>json.Unmarshal\<close> into \<open>map[string]interface{}\<close> and into a map of those; \<open>null\<close> leaves a nil map.\<close>

definition decodeObject :: "string \<Rightarrow> json gomap option" where
  "decodeObject s =
     (case parseJson s of
        Some (JObj ms) \<Rightarrow> Some (lastWins ms)
      | Some JNull \<Rightarrow> Some []
      | _ \<Rightarrow> None)"

fun asObject :: "json \<Rightarrow> json gomap option" where
  "asObject (JObj ms) = Some (lastWins ms)"
| "asObject JNull = Some []"
| "asObject _ = None"

definition decodeBulk :: "string \<Rightarrow> json gomap gomap option" where
  "decodeBulk s =
     (case decodeObject s of
        None \<Rightarrow> None
      | Some m \<Rightarrow>
          if list_all (\<lambda>(k, v). asObject v \<noteq> None) m
          then Some (map (\<lambda>(k, v). (k, the (asObject v))) m) else None)"

section \<open>Writing\<close>

datatype bypass_error =
    NoTable | BulkNeedsJson | BadJson | HSetFailed string | DelFailed string | BadDelete

definition hsetAll :: "string \<Rightarrow> string gomap \<Rightarrow> world \<Rightarrow> bool \<times> world" where
  "hsetAll k fvs w =
     (case nextFault w of
        (f, w1) \<Rightarrow>
          if f \<noteq> Works then (False, w1)
          else (True, w1\<lparr>w_db := foldl (\<lambda>db (fld, v). hset k fld v db) (w_db w1) fvs\<rparr>))"

definition orNull :: "string gomap \<Rightarrow> string gomap" where
  "orNull fs = (if fs = [] then [(''NULL'', ''NULL'')] else fs)"

fun applyBulk ::
  "(json gomap \<Rightarrow> json gomap) \<Rightarrow> (string \<Rightarrow> string) \<Rightarrow> string \<Rightarrow> json gomap gomap \<Rightarrow> world
   \<Rightarrow> bypass_error option \<times> world" where
  "applyBulk rng fnum table [] w = (None, w)"
| "applyBulk rng fnum table ((entryKey, entryFields) # es) w =
     (let redisKey = table @ ''|'' @ entryKey in
      case hsetAll redisKey (orNull (convertToRedisFields rng fnum entryFields)) w of
        (False, w1) \<Rightarrow> (Some (HSetFailed redisKey), w1)
      | (True, w1) \<Rightarrow> applyBulk rng fnum table es w1)"

definition scalarText :: "TypedValue \<Rightarrow> string" where
  "scalarText v =
     (case v of
        StringVal s \<Rightarrow> s
      | IntVal i \<Rightarrow> if i \<noteq> 0 then itoa (sint i) else []
      | UintVal u \<Rightarrow> if u \<noteq> 0 then formatUint (unat u) else []
      | _ \<Rightarrow> [])"

definition applyUpdate ::
  "(json gomap gomap \<Rightarrow> json gomap gomap) \<Rightarrow> (json gomap \<Rightarrow> json gomap) \<Rightarrow> (string \<Rightarrow> string)
   \<Rightarrow> Path option \<Rightarrow> Update \<Rightarrow> world \<Rightarrow> bypass_error option \<times> world" where
  "applyUpdate rngB rng fnum prefix u w =
     (case parsePath prefix (upd_path u) of
        (table, key, field) \<Rightarrow>
          if table = [] then (Some NoTable, w)
          else
            (let jsonVal = GetJsonIetfVal (upd_val u); redisKey = table @ ''|'' @ key in
             if key = [] then
               (if jsonVal = [] then (Some BulkNeedsJson, w)
                else
                  (case decodeBulk jsonVal of
                     None \<Rightarrow> (Some BadJson, w)
                   | Some bulk \<Rightarrow> applyBulk rng fnum table (rngB bulk) w))
             else if jsonVal \<noteq> [] then
               (case decodeObject jsonVal of
                  None \<Rightarrow> (Some BadJson, w)
                | Some d \<Rightarrow>
                    (case hsetAll redisKey (orNull (convertToRedisFields rng fnum d)) w of
                       (False, w1) \<Rightarrow> (Some (HSetFailed redisKey), w1)
                     | (True, w1) \<Rightarrow> (None, w1)))
             else if field \<noteq> [] then
               (case hsetAll redisKey [(field, scalarText (upd_val u))] w of
                  (False, w1) \<Rightarrow> (Some (HSetFailed redisKey), w1)
                | (True, w1) \<Rightarrow> (None, w1))
             else (None, w)))"

fun Apply ::
  "(json gomap gomap \<Rightarrow> json gomap gomap) \<Rightarrow> (json gomap \<Rightarrow> json gomap) \<Rightarrow> (string \<Rightarrow> string)
   \<Rightarrow> Path option \<Rightarrow> Update list \<Rightarrow> world \<Rightarrow> bypass_error option \<times> world" where
  "Apply rngB rng fnum prefix [] w = (None, w)"
| "Apply rngB rng fnum prefix (u # us) w =
     (case applyUpdate rngB rng fnum prefix u w of
        (Some e, w1) \<Rightarrow> (Some e, w1)
      | (None, w1) \<Rightarrow> Apply rngB rng fnum prefix us w1)"

definition redisDel :: "string \<Rightarrow> world \<Rightarrow> bool \<times> world" where
  "redisDel k w =
     (case nextFault w of
        (f, w1) \<Rightarrow> if f \<noteq> Works then (False, w1) else (True, w1\<lparr>w_db := AList.delete k (w_db w1)\<rparr>))"

fun Delete :: "Path option \<Rightarrow> Path option list \<Rightarrow> world \<Rightarrow> bypass_error option \<times> world" where
  "Delete prefix [] w = (None, w)"
| "Delete prefix (p # ps) w =
     (case parsePath prefix p of
        (table, key, _) \<Rightarrow>
          if table = [] \<or> key = [] then (Some BadDelete, w)
          else
            (case redisDel (table @ ''|'' @ key) w of
               (False, w1) \<Rightarrow> (Some (DelFailed (table @ ''|'' @ key)), w1)
             | (True, w1) \<Rightarrow> Delete prefix ps w1))"

section \<open>\<open>TrySet\<close>\<close>

datatype try_outcome = NotUsed | Used "bypass_error + SetResponse"

definition results :: "Path option list \<Rightarrow> Update list \<Rightarrow> UpdateResult list" where
  "results deletes updates =
     map (\<lambda>d. \<lparr>ur_path = d, ur_op = OpDELETE\<rparr>) deletes @
     map (\<lambda>u. \<lparr>ur_path = upd_path u, ur_op = OpUPDATE\<rparr>) updates"

definition TrySet ::
  "(json gomap gomap \<Rightarrow> json gomap gomap) \<Rightarrow> (json gomap \<Rightarrow> json gomap) \<Rightarrow> (string \<Rightarrow> string)
   \<Rightarrow> ReqCtx \<Rightarrow> Path option \<Rightarrow> Path option list \<Rightarrow> Update list \<Rightarrow> world \<Rightarrow> try_outcome \<times> world" where
  "TrySet rngB rng fnum ctx prefix deletes updates w =
     (if updates = [] \<and> deletes = [] then (NotUsed, w)
      else
        (case (if updates \<noteq> [] then ShouldBypass ctx prefix updates w else (True, w)) of
           (False, w1) \<Rightarrow> (NotUsed, w1)
         | (True, w1) \<Rightarrow>
             (case (if deletes \<noteq> [] then ShouldBypassDelete ctx prefix deletes w1 else (True, w1)) of
                (False, w2) \<Rightarrow> (NotUsed, w2)
              | (True, w2) \<Rightarrow>
                  (case (if deletes \<noteq> [] then Delete prefix deletes w2 else (None, w2)) of
                     (Some e, w3) \<Rightarrow> (Used (Inl e), w3)
                   | (None, w3) \<Rightarrow>
                       (case (if updates \<noteq> [] then Apply rngB rng fnum prefix updates w3 else (None, w3)) of
                          (Some e, w4) \<Rightarrow> (Used (Inl e), w4)
                        | (None, w4) \<Rightarrow> (Used (Inr \<lparr>sr_prefix = prefix, sr_response = results deletes updates\<rparr>), w4))))))"

section \<open>Lemmas\<close>

lemma parsePath_table: "fst (parsePath prefix path) = extractTable prefix path"
proof -
  have "firstTable es = (case filter (\<lambda>n. \<not> skipped n) (map elem_name es) of [] \<Rightarrow> [] | n # _ \<Rightarrow> n)" for es
    by (induction es) auto
  then show ?thesis
    unfolding parsePath_def extractTable_def Let_def
    by (cases "filter (\<lambda>n. \<not> skipped n) (map elem_name (pathElems prefix @ pathElems path))")
      (simp_all del: filter_append map_append)
qed

lemma Nil_not_allowed: "[] \<notin> set AllowedTables"
  by (simp add: AllowedTables_def)

lemma checkAllowedTables_iff:
  "checkAllowedTables prefix us \<longleftrightarrow> (\<forall>u \<in> set us. extractTable prefix (upd_path u) \<in> set AllowedTables)"
  by (induction us) (auto simp: Let_def Nil_not_allowed)

lemma checkAllowedDeletePaths_iff:
  "checkAllowedDeletePaths prefix ps \<longleftrightarrow> (\<forall>p \<in> set ps. extractTable prefix p \<in> set AllowedTables)"
  by (induction ps) (auto simp: Let_def Nil_not_allowed)

text \<open>\<open>confined T w w'\<close>: only keys of the tables in \<open>T\<close> may differ.\<close>

definition confined :: "string set \<Rightarrow> world \<Rightarrow> world \<Rightarrow> bool" where
  "confined T w w' \<longleftrightarrow>
     w_files w' = w_files w \<and>
     (\<forall>k. (\<forall>t \<in> T. \<not> hasPrefix k (t @ ''|'')) \<longrightarrow> map_of (w_db w') k = map_of (w_db w) k)"

lemma confined_refl [simp]: "confined T w w"
  by (simp add: confined_def)

lemma confined_trans: "confined T w w1 \<Longrightarrow> confined T w1 w2 \<Longrightarrow> confined T w w2"
  by (simp add: confined_def)

lemma foldl_hset_other: "k' \<noteq> k \<Longrightarrow> map_of (foldl (\<lambda>db (fld, v). hset k fld v db) db fvs) k' = map_of db k'"
  by (induction fvs arbitrary: db) (auto simp: hset_def)

lemma hsetAll_confined: "hsetAll (t @ CHR ''|'' # key) fvs w = (ok, w') \<Longrightarrow> t \<in> T \<Longrightarrow> confined T w w'"
proof (rule nextFault_cases [of w])
  fix f w1
  assume "hsetAll (t @ CHR ''|'' # key) fvs w = (ok, w')" "t \<in> T"
    and "nextFault w = (f, w1)" "w_files w1 = w_files w" "w_db w1 = w_db w"
  moreover have "\<not> hasPrefix k (t @ ''|'') \<Longrightarrow> k \<noteq> t @ CHR ''|'' # key" for k
    using hasPrefix_append [of "t @ ''|''" key] by auto
  ultimately show ?thesis
    by (auto simp: hsetAll_def confined_def foldl_hset_other split: if_splits)
qed

lemma redisDel_confined: "redisDel (t @ CHR ''|'' # key) w = (ok, w') \<Longrightarrow> t \<in> T \<Longrightarrow> confined T w w'"
proof (rule nextFault_cases [of w])
  fix f w1
  assume "redisDel (t @ CHR ''|'' # key) w = (ok, w')" "t \<in> T"
    and "nextFault w = (f, w1)" "w_files w1 = w_files w" "w_db w1 = w_db w"
  moreover have "\<not> hasPrefix k (t @ ''|'') \<Longrightarrow> k \<noteq> t @ CHR ''|'' # key" for k
    using hasPrefix_append [of "t @ ''|''" key] by auto
  ultimately show ?thesis
    by (auto simp: redisDel_def confined_def split: if_splits)
qed

lemma applyBulk_confined: "applyBulk rng fnum t es w = (r, w') \<Longrightarrow> t \<in> T \<Longrightarrow> confined T w w'"
proof (induction es arbitrary: w)
  case (Cons e es)
  obtain k fs where e: "e = (k, fs)" by force
  obtain ok w1 where h: "hsetAll (t @ CHR ''|'' # k) (orNull (convertToRedisFields rng fnum fs)) w = (ok, w1)" by force
  from hsetAll_confined [OF h Cons.prems(2)] Cons h e show ?case
    by (cases ok) (auto intro: confined_trans)
qed simp

lemma applyUpdate_confined:
  assumes "applyUpdate rngB rng fnum prefix u w = (r, w')" and "extractTable prefix (upd_path u) \<in> T"
  shows "confined T w w'"
proof -
  obtain table key field where p: "parsePath prefix (upd_path u) = (table, key, field)" by (metis prod_cases3)
  then have "table \<in> T" using assms(2) parsePath_table [of prefix "upd_path u"] by simp
  with assms(1) p show ?thesis
    by (auto simp: applyUpdate_def Let_def split: if_splits option.splits prod.splits bool.splits
        dest: applyBulk_confined hsetAll_confined)
qed

lemma Apply_confined:
  "Apply rngB rng fnum prefix us w = (r, w') \<Longrightarrow> \<forall>u \<in> set us. extractTable prefix (upd_path u) \<in> T \<Longrightarrow> confined T w w'"
proof (induction us arbitrary: w)
  case (Cons u us)
  obtain r1 w1 where a: "applyUpdate rngB rng fnum prefix u w = (r1, w1)" by force
  with Cons applyUpdate_confined [OF a, of T] show ?case
    by (cases r1) (auto intro: confined_trans)
qed simp

lemma Delete_confined:
  "Delete prefix ps w = (r, w') \<Longrightarrow> \<forall>p \<in> set ps. extractTable prefix p \<in> T \<Longrightarrow> confined T w w'"
proof (induction ps arbitrary: w)
  case (Cons p ps)
  obtain table key field where p: "parsePath prefix p = (table, key, field)" by (metis prod_cases3)
  then have t: "table \<in> T" using Cons.prems(2) parsePath_table [of prefix p] by simp
  obtain ok w1 where d: "redisDel (table @ CHR ''|'' # key) w = (ok, w1)" by force
  from redisDel_confined [OF d t] Cons p d show ?case
    by (cases ok) (auto split: if_splits intro: confined_trans)
qed simp

definition skuAllowed :: "world \<Rightarrow> bool" where
  "skuAllowed w \<longleftrightarrow>
     (\<exists>sku p. hget ''DEVICE_METADATA|localhost'' ''hwsku'' (w_db w) = Some sku \<and> p \<in> set AllowedSKUPrefixes \<and>
        hasPrefix sku p)"

lemma checkSKU_frame: "checkSKU w = (ok, w') \<Longrightarrow> w_files w' = w_files w \<and> w_db w' = w_db w \<and> (ok \<longrightarrow> skuAllowed w)"
  by (rule nextFault_cases [of w])
    (auto simp: checkSKU_def skuAllowed_def list_ex_iff split: option.splits if_splits)

lemma ShouldBypass_frame:
  "ShouldBypass ctx prefix us w = (ok, w') \<Longrightarrow> w_files w' = w_files w \<and> w_db w' = w_db w \<and>
     (ok \<longrightarrow> hasBypassHeader ctx \<and> skuAllowed w \<and> (\<forall>u \<in> set us. extractTable prefix (upd_path u) \<in> set AllowedTables))"
  by (auto simp: ShouldBypass_def checkAllowedTables_iff split: if_splits prod.splits dest: checkSKU_frame)

lemma ShouldBypassDelete_frame:
  "ShouldBypassDelete ctx prefix ps w = (ok, w') \<Longrightarrow> w_files w' = w_files w \<and> w_db w' = w_db w \<and>
     (ok \<longrightarrow> hasBypassHeader ctx \<and> skuAllowed w \<and> (\<forall>p \<in> set ps. extractTable prefix p \<in> set AllowedTables))"
  by (auto simp: ShouldBypassDelete_def checkAllowedDeletePaths_iff split: if_splits prod.splits dest: checkSKU_frame)

text \<open>The five steps of \<open>TrySet\<close> with the worlds between them.\<close>

lemma TrySet_steps:
  assumes "TrySet rngB rng fnum ctx prefix deletes updates w = (out, w')"
  obtains (unused) "out = NotUsed" "w_files w' = w_files w" "w_db w' = w_db w"
    | (used) r w2 w3 r1 where "out = Used r" "updates \<noteq> [] \<or> deletes \<noteq> []"
        "hasBypassHeader ctx" "skuAllowed w"
        "\<forall>u \<in> set updates. extractTable prefix (upd_path u) \<in> set AllowedTables"
        "\<forall>p \<in> set deletes. extractTable prefix p \<in> set AllowedTables"
        "w_files w2 = w_files w" "w_db w2 = w_db w"
        "Delete prefix deletes w2 = (r1, w3)"
        "r1 = None \<Longrightarrow> \<exists>r2. Apply rngB rng fnum prefix updates w3 = (r2, w')" "r1 \<noteq> None \<Longrightarrow> w' = w3"
proof -
  obtain ok1 w1 where 1: "(if updates \<noteq> [] then ShouldBypass ctx prefix updates w else (True, w)) = (ok1, w1)" by force
  obtain ok2 w2 where 2: "(if deletes \<noteq> [] then ShouldBypassDelete ctx prefix deletes w1 else (True, w1)) = (ok2, w2)" by force
  obtain r1 w3 where 3: "Delete prefix deletes w2 = (r1, w3)" by force
  obtain r2 w4 where 4: "Apply rngB rng fnum prefix updates w3 = (r2, w4)" by force
  have f1: "w_files w1 = w_files w \<and> w_db w1 = w_db w \<and>
      (ok1 \<and> updates \<noteq> [] \<longrightarrow> hasBypassHeader ctx \<and> skuAllowed w \<and> (\<forall>u \<in> set updates. extractTable prefix (upd_path u) \<in> set AllowedTables))"
    using 1 ShouldBypass_frame by (cases "updates = []") fastforce+
  have f2: "w_files w2 = w_files w1 \<and> w_db w2 = w_db w1 \<and>
      (ok2 \<and> deletes \<noteq> [] \<longrightarrow> hasBypassHeader ctx \<and> skuAllowed w1 \<and> (\<forall>p \<in> set deletes. extractTable prefix p \<in> set AllowedTables))"
    using 2 ShouldBypassDelete_frame by (cases "deletes = []") fastforce+
  have sku: "skuAllowed w1 = skuAllowed w" using f1 by (simp add: skuAllowed_def)
  have del: "(if deletes \<noteq> [] then Delete prefix deletes w2 else (None, w2)) = (r1, w3)" using 3 by (cases deletes) auto
  have app: "(if updates \<noteq> [] then Apply rngB rng fnum prefix updates w3 else (None, w3)) = (r2, w4)" using 4 by (cases updates) auto
  note run = assms [unfolded TrySet_def 1, unfolded prod.case]
  show thesis
  proof (cases "(updates = [] \<and> deletes = []) \<or> \<not> ok1 \<or> \<not> ok2")
    case True
    then have "out = NotUsed \<and> w_files w' = w_files w \<and> w_db w' = w_db w"
      using run f1 f2 2 by (auto split: if_splits bool.splits)
    with unused show thesis by blast
  next
    case False
    then have ok: "ok1" "ok2" "updates \<noteq> [] \<or> deletes \<noteq> []" by auto
    have res: "(case r1 of Some e \<Rightarrow> (Used (Inl e), w3)
       | None \<Rightarrow> (case r2 of Some e \<Rightarrow> (Used (Inl e), w4)
            | None \<Rightarrow> (Used (Inr \<lparr>sr_prefix = prefix, sr_response = results deletes updates\<rparr>), w4))) = (out, w')"
    proof -
      have "\<not> (updates = [] \<and> deletes = [])" using ok(3) by blast
      with ok(1,2) have "TrySet rngB rng fnum ctx prefix deletes updates w =
          (case r1 of Some e \<Rightarrow> (Used (Inl e), w3)
           | None \<Rightarrow> (case r2 of Some e \<Rightarrow> (Used (Inl e), w4)
                | None \<Rightarrow> (Used (Inr \<lparr>sr_prefix = prefix, sr_response = results deletes updates\<rparr>), w4)))"
        unfolding TrySet_def 1 prod.case
        by (cases r1; cases r2) (simp_all only: if_False bool.case prod.case option.case 2 del app)
      with assms show ?thesis by simp
    qed
    then obtain r where "out = Used r" by (auto split: option.splits)
    moreover from res have "r1 = None \<Longrightarrow> \<exists>r2. Apply rngB rng fnum prefix updates w3 = (r2, w')" "r1 \<noteq> None \<Longrightarrow> w' = w3"
      using 4 by (auto split: option.splits)
    moreover have "hasBypassHeader ctx" "skuAllowed w" using ok f1 f2 sku by auto
    moreover have "\<forall>u \<in> set updates. extractTable prefix (upd_path u) \<in> set AllowedTables"
      "\<forall>p \<in> set deletes. extractTable prefix p \<in> set AllowedTables" using ok f1 f2 by auto
    ultimately show thesis using used 3 ok f1 f2 by metis
  qed
qed

lemma TrySet_confined:
  assumes "TrySet rngB rng fnum ctx prefix deletes updates w = (out, w')"
  shows "confined (set AllowedTables) w w'"
  using assms
proof (cases rule: TrySet_steps)
  case (used r w2 w3 r1)
  have "confined (set AllowedTables) w w2" using used(7,8) by (simp add: confined_def)
  moreover have "confined (set AllowedTables) w2 w3" by (rule Delete_confined [OF used(9,6)])
  moreover have "confined (set AllowedTables) w3 w'"
    using used(10,11) Apply_confined [OF _ used(5)] by (cases "r1 = None") auto
  ultimately show ?thesis by (blast intro: confined_trans)
qed (simp add: confined_def)

section \<open>JSON pointers\<close>

text \<open>The escaping of RFC 6901, which clients apply to the key of a table.\<close>

definition encodeJsonPointer :: "string \<Rightarrow> string" where
  "encodeJsonPointer s = concat (map (\<lambda>c. if c = CHR ''~'' then ''~0'' else if c = CHR ''/'' then ''~1'' else [c]) s)"

lemma replaceAll_other: "c \<noteq> CHR ''~'' \<Longrightarrow> replaceAll [CHR ''~'', d] r (c # s) = c # replaceAll [CHR ''~'', d] r s"
  by (subst replaceAll.simps) (simp add: hasPrefix_def)

lemma replaceAll_tilde_other:
  "e \<noteq> d \<Longrightarrow> replaceAll [CHR ''~'', d] r (CHR ''~'' # e # s) = CHR ''~'' # replaceAll [CHR ''~'', d] r (e # s)"
  by (subst replaceAll.simps) (simp add: hasPrefix_def)

lemma replaceAll_tilde:
  "replaceAll [CHR ''~'', d] r (CHR ''~'' # d # s) = r @ replaceAll [CHR ''~'', d] r s"
  by (subst replaceAll.simps) (simp add: hasPrefix_def)

lemma unescape_slash:
  "replaceAll ''~1'' ''/'' (encodeJsonPointer s) = concat (map (\<lambda>c. if c = CHR ''~'' then ''~0'' else [c]) s)"
  by (induction s)
    (auto simp: encodeJsonPointer_def replaceAll_other replaceAll_tilde_other replaceAll_tilde
      simp del: replaceAll.simps(2))

lemma unescape_tilde: "replaceAll ''~0'' ''~'' (concat (map (\<lambda>c. if c = CHR ''~'' then ''~0'' else [c]) s)) = s"
  by (induction s) (auto simp: replaceAll_other replaceAll_tilde simp del: replaceAll.simps(2))

section \<open>What a write leaves\<close>

lemma hget_foldl_hset:
  "hget k f (foldl (\<lambda>db (fld, v). hset k fld v db) db fvs) =
     (case map_of (rev fvs) f of Some v \<Rightarrow> Some v | None \<Rightarrow> hget k f db)"
  by (induction fvs arbitrary: db) (auto simp: map_add_def split: option.splits)

lemma lastWins_distinct: "distinct (map fst (lastWins ms))"
proof -
  have "distinct (map fst m) \<Longrightarrow> distinct (map fst (foldl (\<lambda>m (k, v). AList.update k v m) m ms))" for m :: "(string \<times> 'a) list"
    by (induction ms arbitrary: m) (auto simp: distinct_update)
  then show ?thesis by (simp add: lastWins_def)
qed

lemma convert_distinct: "distinct (map fst (convertToRedisFields rng fnum m))"
proof -
  have "distinct (map fst fs) \<Longrightarrow>
      distinct (map fst (foldl (\<lambda>fs (k, v). case redisField fnum k v of (f, x) \<Rightarrow> AList.update f x fs) fs ms))" for fs ms
    by (induction ms arbitrary: fs) (auto simp: distinct_update split: prod.splits)
  then show ?thesis by (simp add: convertToRedisFields_def)
qed

lemma orNull_distinct: "distinct (map fst (orNull (convertToRedisFields rng fnum m)))"
  using convert_distinct by (simp add: orNull_def)

lemma hsetAll_ok:
  "hsetAll k fvs w = (True, w') \<Longrightarrow> distinct (map fst fvs) \<Longrightarrow>
   hget k f (w_db w') = (case map_of fvs f of Some v \<Rightarrow> Some v | None \<Rightarrow> hget k f (w_db w))"
  by (rule nextFault_cases [of w])
    (auto simp: hsetAll_def hget_foldl_hset map_of_rev_distinct split: if_splits option.splits)

section \<open>A small switch\<close>

definition elemN :: "string \<Rightarrow> PathElem" where
  "elemN n = \<lparr>elem_name = n, elem_key = []\<rparr>"

definition pathN :: "string list \<Rightarrow> Path option" where
  "pathN ns = Some \<lparr>path_origin = ''sonic-db'', path_target = [], path_elem = map elemN ns\<rparr>"

definition switchEx :: world where
  "switchEx = \<lparr>w_files = [], w_db = [(''DEVICE_METADATA|localhost'', [(''hwsku'', ''Cisco-8102-C64'')]),
      (''VNET|a'', [(''vni'', ''1''), (''guid'', ''g'')])], w_faults = []\<rparr>"

definition bypassCtx :: ReqCtx where
  "bypassCtx = \<lparr>ctx_peer = None, ctx_md = Some [(''x-sonic-ss-bypass-validation'', ''true'')]\<rparr>"

definition vnetUpdate :: Update where
  "vnetUpdate = \<lparr>upd_path = pathN [''CONFIG_DB'', ''localhost'', ''VNET'', ''a'', ''vni''], upd_val = StringVal ''2''\<rparr>"

section \<open>Properties\<close>



text \<open>
  Decoding a key undoes the escaping of JSON pointers, for every key.
\<close>

theorem json_pointer_roundtrip: "decodeJsonPointer (encodeJsonPointer s) = s"
  by (simp add: decodeJsonPointer_def unescape_slash unescape_tilde)

text \<open>
  C15. A JSON update of one entry sets exactly the converted fields of the entry and keeps every other
  field it had. The caller passes the replace operations of a request through here too, so a replace
  on the fast path merges: fields absent from the new value stay.
\<close>

theorem bypass_update_merges:
  assumes "applyUpdate rngB rng fnum prefix u w = (None, w')"
    and "parsePath prefix (upd_path u) = (table, key, field)" and "key \<noteq> []"
    and "GetJsonIetfVal (upd_val u) \<noteq> []"
  shows "\<exists>d. decodeObject (GetJsonIetfVal (upd_val u)) = Some d \<and>
    (\<forall>f. hget (table @ ''|'' @ key) f (w_db w') =
       (case map_of (orNull (convertToRedisFields rng fnum d)) f of
          Some v \<Rightarrow> Some v
        | None \<Rightarrow> hget (table @ ''|'' @ key) f (w_db w)))"
proof -
  from assms obtain d where "decodeObject (GetJsonIetfVal (upd_val u)) = Some d"
    and "hsetAll (table @ ''|'' @ key) (orNull (convertToRedisFields rng fnum d)) w = (True, w')"
    by (auto simp: applyUpdate_def Let_def split: if_splits option.splits prod.splits bool.splits)
  with hsetAll_ok [OF _ orNull_distinct] show ?thesis by blast
qed

definition vnetReplace :: Update where
  "vnetReplace = \<lparr>upd_path = pathN [''VNET'', ''a''], upd_val = JsonIetfVal ''{}''\<rparr>"

theorem bypass_update_merges_witness:
  "\<exists>w'. applyUpdate id id id None vnetReplace switchEx = (None, w') \<and>
     hget ''VNET|a'' ''guid'' (w_db w') = Some ''g''"
proof -
  let ?run = "applyUpdate id id id None vnetReplace switchEx"
  have "fst ?run = None" by code_simp
  then obtain w' where run: "?run = (None, w')" by (metis prod.collapse)
  have p: "parsePath None (upd_path vnetReplace) = (''VNET'', ''a'', [])" by code_simp
  have d: "decodeObject (GetJsonIetfVal (upd_val vnetReplace)) = Some []" by code_simp
  have "hget ''VNET|a'' ''guid'' (w_db switchEx) = Some ''g''"
    by (simp add: switchEx_def hget_def)
  moreover have "GetJsonIetfVal (upd_val vnetReplace) \<noteq> []" by (simp add: vnetReplace_def GetJsonIetfVal_def)
  ultimately have "hget ''VNET|a'' ''guid'' (w_db w') = Some ''g''"
    using bypass_update_merges [OF run p] d by (simp add: orNull_def convertToRedisFields_def)
  with run show ?thesis by blast
qed

end
