(* ===== verification/Counters.thy ===== *)
theory Counters
  imports Auth "HOL-Library.Word"
begin

text \<open>
  Request contexts and the internal counters of \<^verbatim>\<open>common_utils/context.go\<close>, their copy in shared memory
  (\<^verbatim>\<open>common_utils/shareMem.go\<close>) and its reader \<^verbatim>\<open>gnmi_dump\<close>.

  Counters are 64-bit words. The shared memory segment is a list of words, zero when the kernel
  creates it; a store outside it is \<^const>\<open>None\<close>. \<open>shmget\<close> and \<open>shmat\<close> may fail.

  RPC handlers run in goroutines of their own, so calls of \<open>IncCounter\<close> interleave. Only the addition is
  atomic: copying a counter reads it and then stores it. \<open>cstep\<close> is the step relation of such calls.
\<close>

section \<open>Request contexts\<close>

record RequestContext =
  rc_ID :: string
  rc_Auth :: AuthInfo
  rc_BundleVersion :: "string option"

definition GetContext ::
  "RequestContext option \<Rightarrow> 64 word \<Rightarrow> RequestContext \<times> RequestContext option \<times> 64 word" where
  "GetContext cv requestCounter =
     (case cv of
        Some rc \<Rightarrow> (rc, cv, requestCounter)
      | None \<Rightarrow>
          (let n = requestCounter + 1;
               rc = \<lparr>rc_ID = ''TELEMETRY-'' @ formatUint (unat n),
                     rc_Auth = \<lparr>auth_User = '''', auth_Enabled = False, auth_Roles = []\<rparr>,
                     rc_BundleVersion = None\<rparr>
           in (rc, Some rc, n)))"

definition GetUsername :: "RequestContext option \<Rightarrow> 64 word \<Rightarrow> string \<times> 64 word" where
  "GetUsername cv requestCounter =
     (case GetContext cv requestCounter of (rc, _, n) \<Rightarrow> (auth_User (rc_Auth rc), n))"

section \<open>Counters\<close>

datatype CounterType =
    GNMI_GET | GNMI_GET_FAIL | GNMI_SET | GNMI_SET_FAIL | GNMI_SET_BYPASS
  | GNOI_REBOOT | GNOI_FACTORY_RESET | GNOI_OS_INSTALL
  | GNOI_HEALTHZ_ACK | GNOI_HEALTHZ_CHECK | GNOI_HEALTHZ_COLLECT
  | DBUS | DBUS_FAIL | DBUS_APPLY_PATCH_DB | DBUS_APPLY_PATCH_YANG
  | DBUS_CREATE_CHECKPOINT | DBUS_DELETE_CHECKPOINT | DBUS_CONFIG_SAVE | DBUS_CONFIG_RELOAD
  | DBUS_STOP_SERVICE | DBUS_RESTART_SERVICE | DBUS_FILE_STAT | DBUS_FILE_DOWNLOAD
  | DBUS_FILE_REMOVE | DBUS_IMAGE_DOWNLOAD | DBUS_IMAGE_INSTALL | DBUS_IMAGE_LIST
  | DBUS_IMAGE_ACTIVATE | DBUS_DOCKER_LOAD | DBUS_CONFIG_REPLACE

text \<open>The constants in the order of \<open>iota\<close>; \<open>COUNTER_SIZE\<close> comes after the last one.\<close>

definition counterTypes :: "CounterType list" where
  "counterTypes =
     [GNMI_GET, GNMI_GET_FAIL, GNMI_SET, GNMI_SET_FAIL, GNMI_SET_BYPASS,
      GNOI_REBOOT, GNOI_FACTORY_RESET, GNOI_OS_INSTALL,
      GNOI_HEALTHZ_ACK, GNOI_HEALTHZ_CHECK, GNOI_HEALTHZ_COLLECT,
      DBUS, DBUS_FAIL, DBUS_APPLY_PATCH_DB, DBUS_APPLY_PATCH_YANG,
      DBUS_CREATE_CHECKPOINT, DBUS_DELETE_CHECKPOINT, DBUS_CONFIG_SAVE, DBUS_CONFIG_RELOAD,
      DBUS_STOP_SERVICE, DBUS_RESTART_SERVICE, DBUS_FILE_STAT, DBUS_FILE_DOWNLOAD,
      DBUS_FILE_REMOVE, DBUS_IMAGE_DOWNLOAD, DBUS_IMAGE_INSTALL, DBUS_IMAGE_LIST,
      DBUS_IMAGE_ACTIVATE, DBUS_DOCKER_LOAD, DBUS_CONFIG_REPLACE]"

definition COUNTER_SIZE :: nat where
  "COUNTER_SIZE = length counterTypes"

fun position :: "'a \<Rightarrow> 'a list \<Rightarrow> nat" where
  "position x [] = 0"
| "position x (y # ys) = (if x = y then 0 else Suc (position x ys))"

abbreviation ordinal :: "CounterType \<Rightarrow> nat" where
  "ordinal c \<equiv> position c counterTypes"

fun CounterType_String :: "CounterType \<Rightarrow> string" where
  "CounterType_String GNMI_GET = ''GNMI get''"
| "CounterType_String GNMI_GET_FAIL = ''GNMI get fail''"
| "CounterType_String GNMI_SET = ''GNMI set''"
| "CounterType_String GNMI_SET_FAIL = ''GNMI set fail''"
| "CounterType_String GNMI_SET_BYPASS = ''GNMI set bypass''"
| "CounterType_String GNOI_REBOOT = ''GNOI reboot''"
| "CounterType_String GNOI_FACTORY_RESET = ''GNOI Factory Reset''"
| "CounterType_String GNOI_OS_INSTALL = ''GNOI OS Install''"
| "CounterType_String GNOI_HEALTHZ_ACK = ''GNOI Healthz Ack''"
| "CounterType_String GNOI_HEALTHZ_CHECK = ''GNOI Healthz Check''"
| "CounterType_String GNOI_HEALTHZ_COLLECT = ''GNOI Healthz Collect''"
| "CounterType_String DBUS = ''DBUS''"
| "CounterType_String DBUS_FAIL = ''DBUS fail''"
| "CounterType_String DBUS_APPLY_PATCH_DB = ''DBUS apply patch db''"
| "CounterType_String DBUS_APPLY_PATCH_YANG = ''DBUS apply patch yang''"
| "CounterType_String DBUS_CREATE_CHECKPOINT = ''DBUS create checkpoint''"
| "CounterType_String DBUS_DELETE_CHECKPOINT = ''DBUS delete checkpoint''"
| "CounterType_String DBUS_CONFIG_SAVE = ''DBUS config save''"
| "CounterType_String DBUS_CONFIG_RELOAD = ''DBUS config reload''"
| "CounterType_String DBUS_STOP_SERVICE = ''DBUS stop service''"
| "CounterType_String DBUS_RESTART_SERVICE = ''DBUS restart service''"
| "CounterType_String DBUS_FILE_STAT = ''DBUS file stat''"
| "CounterType_String DBUS_FILE_DOWNLOAD = ''DBUS file download''"
| "CounterType_String DBUS_IMAGE_DOWNLOAD = ''DBUS image download''"
| "CounterType_String DBUS_FILE_REMOVE = ''DBUS file remove''"
| "CounterType_String DBUS_IMAGE_INSTALL = ''DBUS image install''"
| "CounterType_String DBUS_IMAGE_LIST = ''DBUS image list''"
| "CounterType_String DBUS_IMAGE_ACTIVATE = ''DBUS image activate''"
| "CounterType_String DBUS_DOCKER_LOAD = ''DBUS docker load''"
| "CounterType_String DBUS_CONFIG_REPLACE = ''DBUS config replace''"

section \<open>Shared memory\<close>

definition memSize :: nat where "memSize = 1024"

datatype shm_fault = ShmWorks | ShmgetFails | ShmatFails

definition shmget :: "64 word list option \<Rightarrow> 64 word list" where
  "shmget seg = (case seg of None \<Rightarrow> replicate (memSize div 8) 0 | Some ws \<Rightarrow> ws)"

definition storeWord :: "nat \<Rightarrow> 64 word \<Rightarrow> 64 word list \<Rightarrow> 64 word list option" where
  "storeWord i v ws = (if i < length ws then Some (ws[i := v]) else None)"

definition loadWord :: "nat \<Rightarrow> 64 word list \<Rightarrow> 64 word option" where
  "loadWord i ws = (if i < length ws then Some (ws ! i) else None)"

fun storeWords :: "nat \<Rightarrow> 64 word list \<Rightarrow> 64 word list \<Rightarrow> 64 word list option" where
  "storeWords i [] ws = Some ws"
| "storeWords i (c # cs) ws =
     (case storeWord i c ws of None \<Rightarrow> None | Some ws' \<Rightarrow> storeWords (Suc i) cs ws')"

fun loadWords :: "nat \<Rightarrow> nat \<Rightarrow> 64 word list \<Rightarrow> 64 word list option" where
  "loadWords i 0 ws = Some []"
| "loadWords i (Suc n) ws =
     (case loadWord i ws of
        None \<Rightarrow> None
      | Some v \<Rightarrow> map_option ((#) v) (loadWords (Suc i) n ws))"

text \<open>The outer \<^const>\<open>None\<close> is an access outside the segment; the bool is whether the call succeeded.\<close>

definition SetMemCounters ::
  "shm_fault \<Rightarrow> 64 word list \<Rightarrow> 64 word list option \<Rightarrow> (bool \<times> 64 word list option) option" where
  "SetMemCounters flt counters seg =
     (case flt of
        ShmgetFails \<Rightarrow> Some (False, seg)
      | ShmatFails \<Rightarrow> Some (False, Some (shmget seg))
      | ShmWorks \<Rightarrow> map_option (\<lambda>ws. (True, Some ws)) (storeWords 0 counters (shmget seg)))"

definition GetMemCounters ::
  "shm_fault \<Rightarrow> 64 word list option \<Rightarrow> (64 word list option \<times> 64 word list option) option" where
  "GetMemCounters flt seg =
     (case flt of
        ShmgetFails \<Rightarrow> Some (None, seg)
      | ShmatFails \<Rightarrow> Some (None, Some (shmget seg))
      | ShmWorks \<Rightarrow>
          map_option (\<lambda>cs. (Some cs, Some (shmget seg))) (loadWords 0 COUNTER_SIZE (shmget seg)))"

record counters =
  globalCounters :: "64 word list"
  segment :: "64 word list option"

definition publish :: "shm_fault \<Rightarrow> counters \<Rightarrow> counters option" where
  "publish flt s =
     map_option (\<lambda>(_, seg). s\<lparr>segment := seg\<rparr>) (SetMemCounters flt (globalCounters s) (segment s))"

definition InitCounters :: "shm_fault \<Rightarrow> counters \<Rightarrow> counters option" where
  "InitCounters flt s = publish flt (s\<lparr>globalCounters := replicate COUNTER_SIZE 0\<rparr>)"

definition bump :: "CounterType \<Rightarrow> 64 word list \<Rightarrow> 64 word list" where
  "bump c ws = ws[ordinal c := ws ! ordinal c + 1]"

definition IncCounter :: "shm_fault \<Rightarrow> CounterType \<Rightarrow> counters \<Rightarrow> counters option" where
  "IncCounter flt c s = publish flt (s\<lparr>globalCounters := bump c (globalCounters s)\<rparr>)"

text \<open>\<open>gnmi_dump\<close> prints one line for each counter.\<close>

definition gnmi_dump :: "shm_fault \<Rightarrow> 64 word list option \<Rightarrow> string list option" where
  "gnmi_dump flt seg =
     map_option
       (\<lambda>(r, _). case r of
          None \<Rightarrow> [''Error: Fail to read counters'']
        | Some cs \<Rightarrow>
            ''Dump GNMI counters'' #
            map2 (\<lambda>t n. CounterType_String t @ ''---'' @ formatUint (unat n)) counterTypes cs)
       (GetMemCounters flt seg)"

section \<open>Interleaved calls\<close>

text \<open>
  Where a call of \<open>IncCounter\<close> is: before the addition, about to read the \<open>i\<close>-th counter, about to
  store the value it read, or finished. The segment exists, as after \<open>InitCounters\<close>.
\<close>

datatype cpc = Adding CounterType | Reading nat | Storing nat "64 word" | Finished

record cstate =
  c_global :: "64 word list"
  c_shm :: "64 word list"
  c_calls :: "cpc list"

definition afterStore :: "nat \<Rightarrow> cpc" where
  "afterStore i = (if Suc i < COUNTER_SIZE then Reading (Suc i) else Finished)"

definition cmove :: "cstate \<Rightarrow> nat \<Rightarrow> cstate" where
  "cmove s k =
     (case c_calls s ! k of
        Adding c \<Rightarrow> s\<lparr>c_global := bump c (c_global s), c_calls := (c_calls s)[k := Reading 0]\<rparr>
      | Reading i \<Rightarrow> s\<lparr>c_calls := (c_calls s)[k := Storing i (c_global s ! i)]\<rparr>
      | Storing i v \<Rightarrow> s\<lparr>c_shm := (c_shm s)[i := v], c_calls := (c_calls s)[k := afterStore i]\<rparr>
      | Finished \<Rightarrow> s)"

inductive cstep :: "cstate \<Rightarrow> cstate \<Rightarrow> bool" where
  move: "k < length (c_calls s) \<Longrightarrow> cstep s (cmove s k)"
| call: "cstep s (s\<lparr>c_calls := c_calls s @ [Adding c]\<rparr>)"

inductive creach :: "cstate \<Rightarrow> bool" where
  init: "creach \<lparr>c_global = replicate COUNTER_SIZE 0, c_shm = replicate (memSize div 8) 0, c_calls = []\<rparr>"
| step: "creach s \<Longrightarrow> cstep s s' \<Longrightarrow> creach s'"

section \<open>Lemmas\<close>

lemma COUNTER_SIZE_eq [simp]: "COUNTER_SIZE = 30"
  by (simp add: COUNTER_SIZE_def counterTypes_def)

lemma memSize_words [simp]: "memSize div 8 = 128"
  by (simp add: memSize_def)

lemma ordinal_less [simp]: "ordinal c < 30"
  by (cases c) (simp_all add: counterTypes_def)

lemma ordinal_nth: "counterTypes ! ordinal c = c"
  by (cases c) (simp_all add: counterTypes_def)

lemma ordinal_inject [simp]: "ordinal c = ordinal d \<longleftrightarrow> c = d"
  by (metis ordinal_nth)

lemma GetContext_fresh:
  "unat n + 1 < 2 ^ 64 \<Longrightarrow> rc_ID (fst (GetContext None n)) = ''TELEMETRY-'' @ formatUint (Suc (unat n))"
  by (simp add: GetContext_def Let_def unat_add_lem [THEN iffD1])

lemma storeWords_eq:
  "storeWords i cs ws =
     (if i + length cs \<le> length ws then Some (take i ws @ cs @ drop (i + length cs) ws)
      else if cs = [] then Some ws else None)"
proof (induction i cs ws rule: storeWords.induct)
  case (2 i c cs ws)
  show ?case
  proof (cases "i < length ws")
    case True
    then have "take (Suc i) (ws[i := c]) = take i ws @ [c]"
      by (simp add: take_Suc_conv_app_nth)
    with True 2 show ?thesis by (auto simp: storeWord_def)
  qed (simp add: storeWord_def)
qed simp

lemma loadWords_eq:
  "loadWords i n ws =
     (if i + n \<le> length ws then Some (take n (drop i ws)) else if n = 0 then Some [] else None)"
proof (induction i n ws rule: loadWords.induct)
  case (2 i n ws)
  then show ?case
    by (cases "i < length ws") (auto simp: loadWord_def Cons_nth_drop_Suc [symmetric])
qed simp

text \<open>The segment, once it exists, has the size it was created with.\<close>

definition segment_ok :: "64 word list option \<Rightarrow> bool" where
  "segment_ok seg \<longleftrightarrow> (case seg of None \<Rightarrow> True | Some ws \<Rightarrow> length ws = memSize div 8)"

lemma length_shmget: "segment_ok seg \<Longrightarrow> length (shmget seg) = 128"
  by (auto simp: segment_ok_def shmget_def split: option.splits)

definition mirrored :: "counters \<Rightarrow> bool" where
  "mirrored s \<longleftrightarrow> GetMemCounters ShmWorks (segment s) = Some (Some (globalCounters s), segment s)"

lemma publish_ok:
  assumes "segment_ok (segment s)" and "length (globalCounters s) = COUNTER_SIZE"
  shows "\<exists>s'. publish flt s = Some s' \<and> globalCounters s' = globalCounters s \<and> segment_ok (segment s')
              \<and> (flt = ShmWorks \<longrightarrow> mirrored s')"
  using assms length_shmget [OF assms(1)]
  by (cases flt)
     (auto simp: publish_def SetMemCounters_def GetMemCounters_def mirrored_def storeWords_eq loadWords_eq
        shmget_def segment_ok_def)

fun incAll :: "(shm_fault \<times> CounterType) list \<Rightarrow> counters \<Rightarrow> counters option" where
  "incAll [] s = Some s"
| "incAll ((flt, c) # calls) s =
     (case IncCounter flt c s of None \<Rightarrow> None | Some s' \<Rightarrow> incAll calls s')"

lemma length_bump [simp]: "length (bump c ws) = length ws"
  by (simp add: bump_def)

lemma nth_bump: "length ws = 30 \<Longrightarrow> bump c ws ! ordinal d = ws ! ordinal d + (if c = d then 1 else 0)"
  by (auto simp: bump_def nth_list_update)

lemma incAll_ok:
  assumes "segment_ok (segment s)" and "length (globalCounters s) = COUNTER_SIZE"
  shows "\<exists>s'. incAll calls s = Some s' \<and> segment_ok (segment s') \<and> length (globalCounters s') = COUNTER_SIZE
           \<and> (\<forall>c. globalCounters s' ! ordinal c
                    = globalCounters s ! ordinal c + of_nat (count_list (map snd calls) c))
           \<and> (calls \<noteq> [] \<and> fst (last calls) = ShmWorks \<longrightarrow> mirrored s')"
  using assms
proof (induction calls arbitrary: s)
  case (Cons call calls)
  obtain flt c where call: "call = (flt, c)" by (cases call)
  from publish_ok [of "s\<lparr>globalCounters := bump c (globalCounters s)\<rparr>" flt] Cons.prems
  obtain s1 where s1: "IncCounter flt c s = Some s1" "globalCounters s1 = bump c (globalCounters s)"
      "segment_ok (segment s1)" "flt = ShmWorks \<longrightarrow> mirrored s1"
    by (auto simp: IncCounter_def)
  from Cons.IH [of s1] s1 Cons.prems obtain s' where
    s': "incAll calls s1 = Some s'" "segment_ok (segment s')" "length (globalCounters s') = COUNTER_SIZE"
      "\<forall>d. globalCounters s' ! ordinal d = globalCounters s1 ! ordinal d + of_nat (count_list (map snd calls) d)"
      "calls \<noteq> [] \<and> fst (last calls) = ShmWorks \<longrightarrow> mirrored s'"
    by auto
  have "mirrored s'" if "fst (last (call # calls)) = ShmWorks"
    using that s1(4) s'(1,5) call by (cases "calls = []") auto
  with s1 s' call Cons.prems show ?case
    by (auto simp: nth_bump)
qed simp

section \<open>Interleaving: invariant\<close>

definition pcOk :: "64 word list \<Rightarrow> cpc \<Rightarrow> bool" where
  "pcOk g pc \<longleftrightarrow>
     (case pc of
        Adding _ \<Rightarrow> True
      | Reading i \<Rightarrow> i < COUNTER_SIZE
      | Storing i v \<Rightarrow> i < COUNTER_SIZE \<and> unat v \<le> unat (g ! i)
      | Finished \<Rightarrow> True)"

fun added :: "cpc \<Rightarrow> bool" where
  "added (Adding _) = False"
| "added _ = True"

definition cinv :: "cstate \<Rightarrow> bool" where
  "cinv s \<longleftrightarrow>
     length (c_global s) = COUNTER_SIZE \<and> length (c_shm s) = memSize div 8
     \<and> (\<forall>i < COUNTER_SIZE. unat (c_shm s ! i) \<le> unat (c_global s ! i)
          \<and> unat (c_global s ! i) \<le> length (filter added (c_calls s)))
     \<and> (\<forall>pc \<in> set (c_calls s). pcOk (c_global s) pc)"

lemma length_filter_update:
  "k < length xs \<Longrightarrow> length (filter P (xs[k := x])) + (if P (xs ! k) then 1 else 0)
     = length (filter P xs) + (if P x then 1 else 0)"
  by (subst (2) id_take_nth_drop [of k xs]) (simp_all add: upd_conv_take_nth_drop)

lemma unat_Suc_below: "unat (w :: 64 word) < 2 ^ 64 - 1 \<Longrightarrow> unat (w + 1) = Suc (unat w)"
  by (subst unat_add_lem [THEN iffD1]) auto

lemma nth_bump_le:
  assumes "length g = 30" and "i < 30" and "unat (g ! i) < 2 ^ 64 - 1"
  shows "unat (g ! i) \<le> unat (bump c g ! i)" and "unat (bump c g ! i) \<le> Suc (unat (g ! i))"
  using assms unat_Suc_below [of "g ! i"] by (auto simp: bump_def nth_list_update)

lemma pcOk_simps [simp]:
  "pcOk g (Adding c)" "pcOk g (Reading i) \<longleftrightarrow> i < 30"
  "pcOk g (Storing i v) \<longleftrightarrow> i < 30 \<and> unat v \<le> unat (g ! i)" "pcOk g Finished"
  by (simp_all add: pcOk_def)

lemma pcOk_mono: "pcOk g pc \<Longrightarrow> (\<And>i. i < 30 \<Longrightarrow> unat (g ! i) \<le> unat (g' ! i)) \<Longrightarrow> pcOk g' pc"
  by (cases pc) (auto intro: le_trans)

lemma pcOk_update:
  "\<forall>pc \<in> set calls. pcOk g pc \<Longrightarrow> pcOk g pc' \<Longrightarrow> \<forall>pc \<in> set (calls[k := pc']). pcOk g pc"
  by (auto dest: set_update_subset_insert [THEN subsetD])

lemma added_afterStore [simp]: "added (afterStore i)"
  by (simp add: afterStore_def)

lemma cmove_cinv:
  assumes inv: "cinv s" and few: "length (c_calls s) < 2 ^ 64" and k: "k < length (c_calls s)"
  shows "cinv (cmove s k)"
proof (cases "c_calls s ! k")
  case (Adding c)
  let ?g = "c_global s" and ?calls = "c_calls s"
  have len: "length ?g = 30" using inv by (simp add: cinv_def)
  have n: "length (filter added (?calls[k := Reading 0])) = Suc (length (filter added ?calls))"
    using length_filter_update [OF k, of added "Reading 0"] Adding by simp
  then have "Suc (length (filter added ?calls)) \<le> length ?calls"
    by (metis length_filter_le length_list_update)
  moreover have le: "unat (?g ! i) \<le> length (filter added ?calls)" if "i < 30" for i
    using inv that by (simp add: cinv_def)
  ultimately have small: "unat (?g ! i) < 2 ^ 64 - 1" if "i < 30" for i
    using few that le [OF that] by linarith
  note grow = nth_bump_le [OF len _ small]
  have "\<forall>pc \<in> set (?calls[k := Reading 0]). pcOk (bump c ?g) pc"
    using inv grow(1) by (intro pcOk_update ballI) (auto simp: cinv_def intro: pcOk_mono)
  moreover have "unat (c_shm s ! i) \<le> unat (bump c ?g ! i)
      \<and> unat (bump c ?g ! i) \<le> Suc (length (filter added ?calls))" if "i < 30" for i
  proof -
    have "unat (c_shm s ! i) \<le> unat (?g ! i)" using inv that by (simp add: cinv_def)
    then show ?thesis using grow [of i c] that le [OF that] by simp
  qed
  ultimately show ?thesis
    using inv n by (simp add: cmove_def Adding cinv_def)
next
  case (Reading i)
  have i: "i < 30" using inv k Reading by (auto simp: cinv_def pcOk_def dest!: nth_mem)
  have "length (filter added ((c_calls s)[k := Storing i (c_global s ! i)])) = length (filter added (c_calls s))"
    using length_filter_update [OF k, of added "Storing i (c_global s ! i)"] Reading by simp
  moreover have "\<forall>pc \<in> set ((c_calls s)[k := Storing i (c_global s ! i)]). pcOk (c_global s) pc"
    using inv i by (intro pcOk_update) (auto simp: cinv_def)
  ultimately show ?thesis
    using inv by (simp add: cmove_def Reading cinv_def)
next
  case (Storing i v)
  have i: "i < 30" and v: "unat v \<le> unat (c_global s ! i)"
    using inv k Storing by (auto simp: cinv_def pcOk_def dest!: nth_mem)
  have "length (filter added ((c_calls s)[k := afterStore i])) = length (filter added (c_calls s))"
    using length_filter_update [OF k, of added "afterStore i"] Storing by simp
  moreover have "\<forall>pc \<in> set ((c_calls s)[k := afterStore i]). pcOk (c_global s) pc"
    using inv by (intro pcOk_update) (auto simp: cinv_def afterStore_def)
  ultimately show ?thesis
    using inv i v by (simp add: cmove_def Storing cinv_def nth_list_update)
qed (use inv in \<open>simp add: cmove_def\<close>)

lemma length_calls_cstep: "cstep s s' \<Longrightarrow> length (c_calls s) \<le> length (c_calls s')"
  by (auto elim!: cstep.cases simp: cmove_def split: cpc.splits)

lemma cinv_cstep: "cstep s s' \<Longrightarrow> cinv s \<Longrightarrow> length (c_calls s) < 2 ^ 64 \<Longrightarrow> cinv s'"
proof (induction rule: cstep.induct)
  case (move k s)
  then show ?case by (simp add: cmove_cinv)
next
  case (call s c)
  then show ?case by (simp add: cinv_def)
qed

lemma creach_cinv: "creach s \<Longrightarrow> length (c_calls s) < 2 ^ 64 \<Longrightarrow> cinv s"
proof (induction rule: creach.induct)
  case (step s s')
  with length_calls_cstep [OF step.hyps(2)] show ?case
    by (intro cinv_cstep [OF step.hyps(2)]) auto
qed (simp add: cinv_def)

section \<open>Interleaving: finishing a call\<close>

lemma creach_move: "creach s \<Longrightarrow> k < length (c_calls s) \<Longrightarrow> creach (cmove s k)"
  by (blast intro: creach.step cstep.move)

lemma creach_call: "creach s \<Longrightarrow> creach (s\<lparr>c_calls := c_calls s @ [Adding c]\<rparr>)"
  by (blast intro: creach.step cstep.call)

text \<open>A call left alone from its \<open>i\<close>-th counter on finishes, and stores nothing below \<open>i\<close>.\<close>

lemma finish_call:
  assumes "creach s" and "k < length (c_calls s)" and "c_calls s ! k = Reading i" and "i < COUNTER_SIZE"
  shows "\<exists>shm. creach (s\<lparr>c_shm := shm, c_calls := (c_calls s)[k := Finished]\<rparr>) \<and> (\<forall>j < i. shm ! j = c_shm s ! j)"
  using assms
proof (induction "COUNTER_SIZE - i" arbitrary: i s)
  case (Suc n)
  let ?s2 = "cmove (cmove s k) k"
  have s2: "creach ?s2" by (intro creach_move) (use Suc.prems in \<open>simp_all add: cmove_def\<close>)
  have s2_eq: "?s2 = s\<lparr>c_shm := (c_shm s)[i := c_global s ! i], c_calls := (c_calls s)[k := afterStore i]\<rparr>"
    using Suc.prems by (simp add: cmove_def)
  show ?case
  proof (cases "Suc i < COUNTER_SIZE")
    case True
    with Suc.prems have "c_calls ?s2 ! k = Reading (Suc i)" by (simp add: s2_eq afterStore_def)
    moreover have "n = COUNTER_SIZE - Suc i" using Suc.hyps(2) by simp
    ultimately have "\<exists>shm. creach (?s2\<lparr>c_shm := shm, c_calls := (c_calls ?s2)[k := Finished]\<rparr>)
        \<and> (\<forall>j < Suc i. shm ! j = c_shm ?s2 ! j)"
      using Suc.hyps(1) [OF _ s2] Suc.prems True by (simp add: s2_eq)
    then obtain shm where "creach (?s2\<lparr>c_shm := shm, c_calls := (c_calls ?s2)[k := Finished]\<rparr>)"
        "\<forall>j < Suc i. shm ! j = c_shm ?s2 ! j"
      by blast
    then show ?thesis by (intro exI [of _ shm]) (simp add: s2_eq)
  next
    case False
    then show ?thesis
      using s2 by (intro exI [of _ "c_shm ?s2"]) (simp add: s2_eq afterStore_def)
  qed
qed simp

section \<open>Properties\<close>

text \<open>
  Calls of \<open>IncCounter\<close> that do not overlap count exactly, modulo \<open>2 ^ 64\<close>, whatever shared memory
  calls fail; no store leaves the segment; and after a call whose shared memory calls succeed,
  \<open>GetMemCounters\<close> reads the counters back.
\<close>

theorem counters_exact:
  assumes "segment_ok (segment s)"
  shows "\<exists>s1 s2. InitCounters flt s = Some s1 \<and> incAll calls s1 = Some s2
           \<and> (\<forall>c. globalCounters s2 ! ordinal c = of_nat (count_list (map snd calls) c))
           \<and> (calls \<noteq> [] \<and> fst (last calls) = ShmWorks
                \<longrightarrow> GetMemCounters ShmWorks (segment s2) = Some (Some (globalCounters s2), segment s2))"
proof -
  from publish_ok [of "s\<lparr>globalCounters := replicate COUNTER_SIZE 0\<rparr>" flt] assms
  obtain s1 where s1: "InitCounters flt s = Some s1" "globalCounters s1 = replicate 30 0" "segment_ok (segment s1)"
    by (auto simp: InitCounters_def)
  from incAll_ok [of s1 calls] s1 obtain s2 where
    "incAll calls s1 = Some s2" "\<forall>c. globalCounters s2 ! ordinal c = of_nat (count_list (map snd calls) c)"
    "calls \<noteq> [] \<and> fst (last calls) = ShmWorks \<longrightarrow> mirrored s2"
    by auto
  with s1(1) show ?thesis by (auto simp: mirrored_def)
qed

theorem counters_exact_witness:
  "\<exists>s1 s2. InitCounters ShmgetFails \<lparr>globalCounters = [], segment = None\<rparr> = Some s1
     \<and> incAll [(ShmWorks, GNMI_GET), (ShmatFails, GNMI_SET), (ShmWorks, GNMI_GET)] s1 = Some s2
     \<and> globalCounters s2 ! ordinal GNMI_GET = 2
     \<and> GetMemCounters ShmWorks (segment s2) = Some (Some (globalCounters s2), segment s2)"
  (is "\<exists>s1 s2. InitCounters _ ?s = _ \<and> incAll ?calls _ = _ \<and> _ \<and> _")
proof -
  have "segment_ok (segment ?s)" by (simp add: segment_ok_def)
  from counters_exact [OF this, of ShmgetFails ?calls] obtain s1 s2 where
    s: "InitCounters ShmgetFails ?s = Some s1" "incAll ?calls s1 = Some s2"
    and m: "?calls \<noteq> [] \<and> fst (last ?calls) = ShmWorks
      \<longrightarrow> GetMemCounters ShmWorks (segment s2) = Some (Some (globalCounters s2), segment s2)"
    and n: "\<forall>c. globalCounters s2 ! ordinal c = of_nat (count_list (map snd ?calls) c)"
    by blast
  from m have "GetMemCounters ShmWorks (segment s2) = Some (Some (globalCounters s2), segment s2)" by simp
  moreover from n have "globalCounters s2 ! ordinal GNMI_GET = of_nat (count_list (map snd ?calls) GNMI_GET)" by blast
  then have "globalCounters s2 ! ordinal GNMI_GET = 2" by simp
  ultimately show ?thesis using s by blast
qed

text \<open>
  C16. However calls of \<open>IncCounter\<close> interleave, the copy in shared memory is never ahead of a counter,
  and no counter exceeds the number of calls, while there are fewer than \<open>2 ^ 64\<close> of them.
\<close>

theorem counters_never_ahead:
  assumes "creach s" and "length (c_calls s) < 2 ^ 64"
  shows "c_shm s ! ordinal c \<le> c_global s ! ordinal c \<and> unat (c_global s ! ordinal c) \<le> length (c_calls s)"
proof -
  have "unat (c_shm s ! ordinal c) \<le> unat (c_global s ! ordinal c)"
    and "unat (c_global s ! ordinal c) \<le> length (filter added (c_calls s))"
    using creach_cinv [OF assms] ordinal_less [of c] by (auto simp: cinv_def)
  then show ?thesis
    using le_trans [OF _ length_filter_le] by (auto simp: word_le_nat_alt)
qed

theorem counters_never_ahead_witness:
  "creach (cmove \<lparr>c_global = replicate 30 0, c_shm = replicate 128 0, c_calls = [Adding DBUS]\<rparr> 0)
   \<and> (\<forall>c. c_shm (cmove \<lparr>c_global = replicate 30 0, c_shm = replicate 128 0, c_calls = [Adding DBUS]\<rparr> 0) ! ordinal c
          \<le> c_global (cmove \<lparr>c_global = replicate 30 0, c_shm = replicate 128 0, c_calls = [Adding DBUS]\<rparr> 0) ! ordinal c)"
proof -
  have "creach (cmove \<lparr>c_global = replicate 30 0, c_shm = replicate 128 0, c_calls = [Adding DBUS]\<rparr> 0)"
    using creach_call [OF creach.init, of DBUS] by (intro creach_move) simp_all
  with counters_never_ahead [OF this] show ?thesis by (simp add: cmove_def)
qed

text \<open>
  The copy can stay behind: two overlapping calls of \<open>IncCounter\<close> for the same counter can both
  finish with the counter at 2 and its copy in shared memory at 1, since the slower call stores the
  value it read before the other one added.
\<close>

theorem counters_copy_stale:
  "\<exists>s. creach s \<and> c_calls s = [Finished, Finished]
       \<and> c_global s ! ordinal GNMI_GET = 2 \<and> c_shm s ! ordinal GNMI_GET = 1"
proof -
  define s0 where "s0 = \<lparr>c_global = replicate COUNTER_SIZE (0 :: 64 word), c_shm = replicate (memSize div 8) 0,
                         c_calls = [Adding GNMI_GET, Adding GNMI_GET]\<rparr>"
  let ?s1 = "cmove (cmove (cmove s0 0) 0) 1"
  have 0: "ordinal GNMI_GET = 0" by (simp add: counterTypes_def)
  have "creach s0" using creach_call [OF creach_call [OF creach.init]] by (simp add: s0_def)
  then have s1: "creach ?s1" by (intro creach_move) (simp_all add: s0_def cmove_def)
  have s1_eq: "c_global ?s1 ! 0 = 2" "c_calls ?s1 = [Storing 0 1, Reading 0]"
    by (simp_all add: s0_def cmove_def bump_def 0)
  obtain shm where s2: "creach (?s1\<lparr>c_shm := shm, c_calls := [Storing 0 1, Finished]\<rparr>)" (is "creach ?s2")
    using finish_call [OF s1, of 1 0] s1_eq by auto
  let ?s3 = "cmove ?s2 0"
  have s3: "creach ?s3" using s2 by (intro creach_move) simp_all
  have len: "length shm = 128" using creach_cinv [OF s2] by (simp add: cinv_def)
  have s3_eq: "c_global ?s3 = c_global ?s1" "c_shm ?s3 ! 0 = 1" "c_calls ?s3 = [Reading 1, Finished]"
    using len by (simp_all add: cmove_def afterStore_def)
  obtain shm' where "creach (?s3\<lparr>c_shm := shm', c_calls := [Finished, Finished]\<rparr>)" "shm' ! 0 = 1"
    using finish_call [OF s3, of 0 1] s3_eq by auto
  then show ?thesis using s1_eq(1) s3_eq(1) 0
    by (intro exI [of _ "?s3\<lparr>c_shm := shm', c_calls := [Finished, Finished]\<rparr>"]) simp
qed

end
