(* ===== verification/Gnmi_Server.thy ===== *)
theory Gnmi_Server
  imports Pathz_Authorizer Bypass Counters
begin

text \<open>
  The gNMI handlers of \<^verbatim>\<open>gnmi_server/server.go\<close>: \<open>Get\<close>, \<open>Set\<close>, \<open>Capabilities\<close>, the handler of the
  \<open>OPERATIONAL\<close> target and master arbitration. They compose the authentication of \<open>Auth\<close>, the path
  authorization of \<open>Pathz_Authorizer\<close>, the fast path of \<open>Bypass\<close> and the counters of \<open>Counters\<close>.

  The data clients (\<open>sdc.Client\<close>) are values of an interface: a record of their operations. Their
  constructors, the host services behind D-Bus and the handler of operational data are fields of
  \<open>rpc_env\<close>. A constructor may fail but writes nothing; \<open>Get\<close> and \<open>Set\<close> of a client act on the host.

  A handler replies, fails with an error (and may then have a response too, which gRPC drops), or panics.
  Nothing recovers from a panic of these handlers, so it ends the process. \<open>RBypass\<close> stands for the status
  \<open>Internal\<close> with the text of the error.
\<close>

section \<open>Messages\<close>

datatype DataType = DT_ALL | DT_CONFIG | DT_STATE | DT_OPERATIONAL

datatype Encoding = JSON | BYTES | PROTO | ASCII | JSON_IETF | EncodingOther int

record uint128 =
  High :: "64 word"
  Low :: "64 word"

record MasterArbitration =
  ma_ElectionId :: "uint128 option"
  ma_Role :: "string option"

datatype Extension = MasterArbitrationExt MasterArbitration | OtherExt string

record GetRequest =
  gr_Prefix :: "Path option"
  gr_Path :: "Path list"
  gr_Type :: DataType
  gr_Encoding :: Encoding
  gr_Extension :: "Extension list"

record SetRequest =
  sr_Prefix :: "Path option"
  sr_Delete :: "Path list"
  sr_Replace :: "Update list"
  sr_Update :: "Update list"
  sr_Extension :: "Extension list"

record Value =
  val_Path :: "Path option"
  val_Val :: TypedValue
  val_Timestamp :: int

record Notification =
  n_Timestamp :: int
  n_Prefix :: "Path option"
  n_Update :: "Update list"

record ModelData =
  md_Name :: string
  md_Organization :: string
  md_Version :: string

record CapabilityResponse =
  cr_Models :: "ModelData list"
  cr_Encodings :: "Encoding list"
  cr_Version :: string
  cr_Bundle :: "string \<times> string"

section \<open>Configuration, environment and state\<close>

record Config = AuthConfig +
  cfg_LogLevel :: int
  cfg_Threshold :: int
  cfg_EnableTranslibWrite :: bool
  cfg_EnableNativeWrite :: bool
  cfg_ZmqPort :: string
  cfg_Vrf :: string
  cfg_PathzPolicy :: bool

datatype dc_error = DcStatus code | DcPlain string

datatype rpc_error = RStatus code | RAuth auth_error | RBypass bypass_error | RData dc_error

datatype 'a rpc = Reply 'a | Fail rpc_error "'a option" | Panic

record DataClient =
  dc_Get :: "world \<Rightarrow> (dc_error + Value option list) \<times> world"
  dc_Set :: "Path list \<Rightarrow> Update list \<Rightarrow> Update list \<Rightarrow> world \<Rightarrow> dc_error option \<times> world"
  dc_Capabilities :: "ModelData list"

record rpc_env =
  re_auth :: auth_env
  re_crlExpiry :: int
  re_now :: int
  re_shm :: "CounterType \<Rightarrow> shm_fault"
  re_rngB :: "json gomap gomap \<Rightarrow> json gomap gomap"
  re_rng :: "json gomap \<Rightarrow> json gomap"
  re_fnum :: "string \<Rightarrow> string"
  re_rngP :: "permission gomap \<Rightarrow> permission gomap"
  re_IsTargetDb :: "string \<Rightarrow> string \<times> bool"
  re_NewNonDbClient :: "Path list \<Rightarrow> Path option \<Rightarrow> string + DataClient"
  re_NewShowClient :: "Path list \<Rightarrow> Path option \<Rightarrow> string + DataClient"
  re_NewDbClient :: "Path list \<Rightarrow> Path option \<Rightarrow> string + DataClient"
  re_NewMixedDbClient :: "Path option list \<Rightarrow> Path option \<Rightarrow> string \<Rightarrow> Encoding \<Rightarrow> string \<Rightarrow> string
                          \<Rightarrow> (string + DataClient) \<times> string"
  re_NewTranslClient :: "Path option \<Rightarrow> Path list \<Rightarrow> ReqCtx \<Rightarrow> Extension list \<Rightarrow> string + DataClient"
  re_NewOperationalHandler :: "Path list \<Rightarrow> Path option \<Rightarrow> string + (world \<Rightarrow> (dc_error + Value list) \<times> world)"
  re_ConfigSave :: "string \<Rightarrow> world \<Rightarrow> bool \<times> world"
  re_bundleVersions :: "string \<times> string"

record Server =
  srv_config :: Config
  srv_masterEID :: uint128
  srv_withMA :: bool
  srv_saveOnSet :: bool
  srv_pathz :: "GnmiAuthzProcessor option"
  srv_counters :: counters
  srv_crls :: CrlCache
  srv_host :: world

text \<open>Counting an event. The segment of the counters has the right size, so no store leaves it.\<close>

definition count :: "rpc_env \<Rightarrow> CounterType \<Rightarrow> Server \<Rightarrow> Server" where
  "count e c s =
     (case IncCounter (re_shm e c) c (srv_counters s) of
        None \<Rightarrow> s
      | Some cs \<Rightarrow> s\<lparr>srv_counters := cs\<rparr>)"

definition noAuth :: AuthInfo where
  "noAuth = \<lparr>auth_User = '''', auth_Enabled = False, auth_Roles = []\<rparr>"

text \<open>A request starts with a new \<open>RequestContext\<close>.\<close>

definition authRequest :: "rpc_env \<Rightarrow> ReqCtx \<Rightarrow> string \<Rightarrow> bool \<Rightarrow> Server \<Rightarrow> auth_error option \<times> Server" where
  "authRequest e ctx target writeAccess s =
     (case authenticate (re_auth e) (re_crlExpiry e) (re_now e) (AuthConfig.truncate (srv_config s)) ctx
             target writeAccess noAuth (srv_crls s) of
        (err, _, cache) \<Rightarrow> (err, s\<lparr>srv_crls := cache\<rparr>))"

section \<open>Helpers\<close>

definition supportedEncodings :: "Encoding list" where
  "supportedEncodings = [JSON, JSON_IETF, PROTO]"

definition checkEncodingAndModel :: "Encoding \<Rightarrow> bool" where
  "checkEncodingAndModel enc \<longleftrightarrow> list_ex (\<lambda>x. enc = x) supportedEncodings"

text \<open>Reading \<open>Origin\<close> of a nil path panics: \<^const>\<open>None\<close>.\<close>

fun sameOrigin :: "string \<Rightarrow> Path option list \<Rightarrow> (rpc_error + string) option" where
  "sameOrigin origin [] = Some (Inr origin)"
| "sameOrigin origin (None # paths) = None"
| "sameOrigin origin (Some p # paths) =
     (if origin \<noteq> path_origin p then Some (Inl (RStatus Unimplemented)) else sameOrigin origin paths)"

fun ParseOrigin :: "Path option list \<Rightarrow> (rpc_error + string) option" where
  "ParseOrigin [] = Some (Inr [])"
| "ParseOrigin (None # paths) = None"
| "ParseOrigin (Some p # paths) = sameOrigin (path_origin p) paths"

definition IsNativeOrigin :: "string \<Rightarrow> bool" where
  "IsNativeOrigin origin \<longleftrightarrow> origin = ''sonic-db''"

definition getUsername :: "ReqCtx \<Rightarrow> rpc_error + string" where
  "getUsername ctx =
     (case ctx_peer ctx of
        None \<Rightarrow> Inl (RStatus Unauthenticated)
      | Some pr \<Rightarrow>
          (case peer_TLS pr of
             None \<Rightarrow> Inl (RStatus Unauthenticated)
           | Some tls \<Rightarrow>
               (case tls_SPIFFEPath tls of
                  None \<Rightarrow> Inl (RStatus Unauthenticated)
                | Some path \<Rightarrow>
                    (case lastIndex path (CHR ''/'') of
                       None \<Rightarrow> Inl (RStatus Unauthenticated)
                     | Some usernamePos \<Rightarrow> Inr (drop (usernamePos + 1) path)))))"

definition prefixElems :: "Path option \<Rightarrow> PathElem list" where
  "prefixElems prefix = (case prefix of None \<Rightarrow> [] | Some p \<Rightarrow> path_elem p)"

definition pathzAuthorize :: "rpc_env \<Rightarrow> Server \<Rightarrow> string \<Rightarrow> Path option \<Rightarrow> Path option \<Rightarrow> Mode \<Rightarrow> pathz_error + Result" where
  "pathzAuthorize e s user prefix path mode =
     AuthorizeWithPrefix (re_rngP e) (srv_pathz s) user (prefixElems prefix) (prefixElems path) mode"

section \<open>Master arbitration\<close>

definition Compare :: "uint128 \<Rightarrow> uint128 option \<Rightarrow> int" where
  "Compare lh rh0 =
     (let rh = (case rh0 of None \<Rightarrow> \<lparr>High = 0, Low = 0\<rparr> | Some r \<Rightarrow> r) in
      if High lh > High rh then 1
      else if High lh < High rh then -1
      else if Low lh > Low rh then 1
      else if Low lh < Low rh then -1
      else 0)"

text \<open>The election id of the last extension counts.\<close>

fun requestEID :: "Extension list \<Rightarrow> uint128 option \<Rightarrow> rpc_error + uint128 option" where
  "requestEID [] eid = Inr eid"
| "requestEID (OtherExt x # es) eid = requestEID es eid"
| "requestEID (MasterArbitrationExt ma # es) eid =
     (case ma_ElectionId ma of
        None \<Rightarrow> Inl (RStatus InvalidArgument)
      | Some x \<Rightarrow>
          if ma_Role ma \<noteq> None then Inl (RStatus Unimplemented)
          else requestEID es (Some x))"

definition ReqFromMasterEnabledMA :: "Extension list \<Rightarrow> uint128 \<Rightarrow> rpc_error option \<times> uint128" where
  "ReqFromMasterEnabledMA exts masterEID =
     (case requestEID exts None of
        Inl err \<Rightarrow> (Some err, masterEID)
      | Inr None \<Rightarrow> (None, masterEID)
      | Inr (Some reqEID) \<Rightarrow>
          (let c = Compare masterEID (Some reqEID) in
           if c = 1 then (Some (RStatus PermissionDenied), masterEID)
           else if c = -1 then (None, reqEID)
           else (None, masterEID)))"

definition ReqFromMasterDisabledMA :: "Extension list \<Rightarrow> uint128 \<Rightarrow> rpc_error option \<times> uint128" where
  "ReqFromMasterDisabledMA exts masterEID = (None, masterEID)"

definition ReqFromMaster :: "Server \<Rightarrow> Extension list \<Rightarrow> uint128 \<Rightarrow> rpc_error option \<times> uint128" where
  "ReqFromMaster s = (if srv_withMA s then ReqFromMasterEnabledMA else ReqFromMasterDisabledMA)"

section \<open>\<open>Get\<close>\<close>

definition toNotification :: "Path option \<Rightarrow> Value \<Rightarrow> Notification" where
  "toNotification prefix v =
     \<lparr>n_Timestamp = val_Timestamp v, n_Prefix = prefix,
      n_Update = [\<lparr>upd_path = val_Path v, upd_val = val_Val v\<rparr>]\<rparr>"

definition handleOperationalGet ::
  "rpc_env \<Rightarrow> ReqCtx \<Rightarrow> Path list \<Rightarrow> Path option \<Rightarrow> Server \<Rightarrow> Notification list rpc \<times> Server" where
  "handleOperationalGet e ctx paths prefix s =
     (case authRequest e ctx ''gnoi'' False s of
        (Some err, s1) \<Rightarrow> (Fail (RAuth err) None, count e GNMI_GET_FAIL s1)
      | (None, s1) \<Rightarrow>
          (case re_NewOperationalHandler e paths prefix of
             Inl err \<Rightarrow> (Fail (RStatus NotFound) None, count e GNMI_GET_FAIL s1)
           | Inr get \<Rightarrow>
               (case get (srv_host s1) of
                  (Inl err, w) \<Rightarrow> (Fail (RData err) None, count e GNMI_GET_FAIL (s1\<lparr>srv_host := w\<rparr>))
                | (Inr values, w) \<Rightarrow> (Reply (map (toNotification prefix) values), s1\<lparr>srv_host := w\<rparr>))))"

definition nonNil :: "'a option list \<Rightarrow> 'a list" where
  "nonNil vs = map the (filter (\<lambda>v. v \<noteq> None) vs)"

text \<open>After the client is made: authentication and the read. A constructor without an error gives a client.\<close>

definition getWith ::
  "rpc_env \<Rightarrow> ReqCtx \<Rightarrow> Path option \<Rightarrow> string \<Rightarrow> string + DataClient \<Rightarrow> Server \<Rightarrow> Notification list rpc \<times> Server"
where
  "getWith e ctx prefix authTarget client s =
     (case client of
        Inl err \<Rightarrow> (Fail (RStatus NotFound) None, count e GNMI_GET_FAIL s)
      | Inr dc \<Rightarrow>
          (case authRequest e ctx authTarget False s of
             (Some err, s1) \<Rightarrow> (Fail (RAuth err) None, count e GNMI_GET_FAIL s1)
           | (None, s1) \<Rightarrow>
               (case dc_Get dc (srv_host s1) of
                  (Inl (DcStatus c), w) \<Rightarrow>
                    (Fail (RStatus c) None, count e GNMI_GET_FAIL (s1\<lparr>srv_host := w\<rparr>))
                | (Inl (DcPlain msg), w) \<Rightarrow>
                    (Fail (RStatus NotFound) None, count e GNMI_GET_FAIL (s1\<lparr>srv_host := w\<rparr>))
                | (Inr spbValues, w) \<Rightarrow>
                    (Reply (map (toNotification prefix) (nonNil spbValues)), s1\<lparr>srv_host := w\<rparr>))))"

text \<open>
  Path authorization of a \<open>Get\<close>: the paths that are processed (\<open>newPaths\<close>) start empty and no result of
  \<open>AuthorizeWithPrefix\<close> adds to them.
\<close>

definition getPathz :: "rpc_env \<Rightarrow> ReqCtx \<Rightarrow> GetRequest \<Rightarrow> Server \<Rightarrow> rpc_error + Path list" where
  "getPathz e ctx req s =
     (if cfg_PathzPolicy (srv_config s) \<and> gr_Path req \<noteq> [] then
        (case getUsername ctx of
           Inl err \<Rightarrow> Inl err
         | Inr user \<Rightarrow>
             (let newPaths = [];
                  checked = map (\<lambda>p. pathzAuthorize e s user (gr_Prefix req) (Some p) MODE_READ) (gr_Path req)
              in if newPaths = [] then Inl (RStatus PermissionDenied) else Inr newPaths))
      else Inr (gr_Path req))"

definition getRoute ::
  "rpc_env \<Rightarrow> ReqCtx \<Rightarrow> GetRequest \<Rightarrow> Path list \<Rightarrow> Server \<Rightarrow> Notification list rpc \<times> Server" where
  "getRoute e ctx req paths s =
     (let prefix = gr_Prefix req;
          target = (case prefix of None \<Rightarrow> [] | Some p \<Rightarrow> path_target p);
          origin0 = (case prefix of None \<Rightarrow> [] | Some p \<Rightarrow> path_origin p)
      in if target = ''OPERATIONAL'' then handleOperationalGet e ctx paths prefix s
         else if target = ''OTHERS'' then getWith e ctx prefix ''gnmi_other'' (re_NewNonDbClient e paths prefix) s
         else if target = ''SHOW'' then getWith e ctx prefix ''gnmi_show'' (re_NewShowClient e paths prefix) s
         else if snd (re_IsTargetDb e target)
         then getWith e ctx prefix (''gnmi_'' @ fst (re_IsTargetDb e target)) (re_NewDbClient e paths prefix) s
         else
           (case (if origin0 = [] then ParseOrigin (map Some paths) else Some (Inr origin0)) of
              None \<Rightarrow> (Panic, s)
            | Some (Inl err) \<Rightarrow> (Fail err None, s)
            | Some (Inr origin) \<Rightarrow>
                if IsNativeOrigin origin then
                  (case re_NewMixedDbClient e (map Some paths) prefix origin (gr_Encoding req)
                          (cfg_ZmqPort (srv_config s)) (cfg_Vrf (srv_config s)) of
                     (client, targetDbName) \<Rightarrow> getWith e ctx prefix (''gnmi_'' @ targetDbName) client s)
                else getWith e ctx prefix ''gnmi'' (re_NewTranslClient e prefix paths ctx (gr_Extension req)) s))"

definition Server_Get :: "rpc_env \<Rightarrow> ReqCtx \<Rightarrow> GetRequest \<Rightarrow> Server \<Rightarrow> Notification list rpc \<times> Server" where
  "Server_Get e ctx req s0 =
     (let s = count e GNMI_GET s0 in
      if gr_Type req \<noteq> DT_ALL then (Fail (RStatus Unimplemented) None, count e GNMI_GET_FAIL s)
      else
        (case getPathz e ctx req s of
           Inl err \<Rightarrow> (Fail err None, s)
         | Inr paths \<Rightarrow>
             if \<not> checkEncodingAndModel (gr_Encoding req)
             then (Fail (RStatus Unimplemented) None, count e GNMI_GET_FAIL s)
             else getRoute e ctx req paths s))"

section \<open>\<open>Set\<close>\<close>

text \<open>Saving the configuration: getting a D-Bus client may fail, and the host service may.\<close>

definition SaveOnSetEnabled :: "rpc_env \<Rightarrow> world \<Rightarrow> bool \<times> world" where
  "SaveOnSetEnabled e w =
     (case nextFault w of
        (f, w1) \<Rightarrow> if f \<noteq> Works then (False, w1) else re_ConfigSave e ''/etc/sonic/config_db.json'' w1)"

definition saveOnSetDisabled :: "world \<Rightarrow> bool \<times> world" where
  "saveOnSetDisabled w = (True, w)"

definition SaveStartupConfig :: "rpc_env \<Rightarrow> Server \<Rightarrow> Server" where
  "SaveStartupConfig e s =
     s\<lparr>srv_host := snd (if srv_saveOnSet s then SaveOnSetEnabled e (srv_host s) else saveOnSetDisabled (srv_host s))\<rparr>"

definition setPaths :: "SetRequest \<Rightarrow> Path option list" where
  "setPaths req = map Some (sr_Delete req) @ map upd_path (sr_Replace req) @ map upd_path (sr_Update req)"

definition setResults :: "SetRequest \<Rightarrow> UpdateResult list" where
  "setResults req =
     map (\<lambda>p. \<lparr>ur_path = Some p, ur_op = OpDELETE\<rparr>) (sr_Delete req) @
     map (\<lambda>u. \<lparr>ur_path = upd_path u, ur_op = OpREPLACE\<rparr>) (sr_Replace req) @
     map (\<lambda>u. \<lparr>ur_path = upd_path u, ur_op = OpUPDATE\<rparr>) (sr_Update req)"

text \<open>Path authorization of a \<open>Set\<close>: \<open>permitted\<close> starts true and no result changes it.\<close>

definition setPathz :: "rpc_env \<Rightarrow> ReqCtx \<Rightarrow> SetRequest \<Rightarrow> Server \<Rightarrow> rpc_error option" where
  "setPathz e ctx req s =
     (if cfg_PathzPolicy (srv_config s) then
        (case getUsername ctx of
           Inl err \<Rightarrow> Some err
         | Inr user \<Rightarrow>
             (let permitted = True;
                  checked = map (\<lambda>p. pathzAuthorize e s user (sr_Prefix req) p MODE_WRITE) (setPaths req)
              in if \<not> permitted then Some (RStatus PermissionDenied) else None))
      else None)"

definition setWith ::
  "rpc_env \<Rightarrow> ReqCtx \<Rightarrow> SetRequest \<Rightarrow> string \<Rightarrow> string + DataClient \<Rightarrow> Server \<Rightarrow> SetResponse rpc \<times> Server" where
  "setWith e ctx req authTarget client s =
     (case client of
        Inl err \<Rightarrow> (Fail (RStatus NotFound) None, count e GNMI_SET_FAIL s)
      | Inr dc \<Rightarrow>
          (case authRequest e ctx authTarget True s of
             (Some err, s1) \<Rightarrow> (Fail (RAuth err) None, count e GNMI_SET_FAIL s1)
           | (None, s1) \<Rightarrow>
               (let resp = \<lparr>sr_prefix = sr_Prefix req, sr_response = setResults req\<rparr> in
                case dc_Set dc (sr_Delete req) (sr_Replace req) (sr_Update req) (srv_host s1) of
                  (Some err, w) \<Rightarrow> (Fail (RData err) (Some resp), count e GNMI_SET_FAIL (s1\<lparr>srv_host := w\<rparr>))
                | (None, w) \<Rightarrow> (Reply resp, SaveStartupConfig e (s1\<lparr>srv_host := w\<rparr>)))))"

definition setNative ::
  "rpc_env \<Rightarrow> ReqCtx \<Rightarrow> SetRequest \<Rightarrow> string \<Rightarrow> Server \<Rightarrow> SetResponse rpc \<times> Server" where
  "setNative e ctx req origin s =
     (if \<not> cfg_EnableNativeWrite (srv_config s)
      then (Fail (RStatus Unimplemented) None, count e GNMI_SET_FAIL s)
      else
        (case TrySet (re_rngB e) (re_rng e) (re_fnum e) ctx (sr_Prefix req) (map Some (sr_Delete req))
                (sr_Replace req @ sr_Update req) (srv_host s) of
           (Used (Inl err), w) \<Rightarrow> (Fail (RBypass err) None, count e GNMI_SET_FAIL (s\<lparr>srv_host := w\<rparr>))
         | (Used (Inr resp), w) \<Rightarrow> (Reply resp, count e GNMI_SET_BYPASS (s\<lparr>srv_host := w\<rparr>))
         | (NotUsed, w) \<Rightarrow>
             (case re_NewMixedDbClient e (setPaths req) (sr_Prefix req) origin JSON_IETF
                     (cfg_ZmqPort (srv_config s)) (cfg_Vrf (srv_config s)) of
                (client, targetDbName) \<Rightarrow>
                  setWith e ctx req (''gnmi_'' @ targetDbName) client (s\<lparr>srv_host := w\<rparr>))))"

definition setOrigin :: "SetRequest \<Rightarrow> (rpc_error + string) option" where
  "setOrigin req =
     (let origin = (case sr_Prefix req of None \<Rightarrow> [] | Some p \<Rightarrow> path_origin p) in
      if origin = [] then ParseOrigin (setPaths req) else Some (Inr origin))"

definition setRoute :: "rpc_env \<Rightarrow> ReqCtx \<Rightarrow> SetRequest \<Rightarrow> Server \<Rightarrow> SetResponse rpc \<times> Server" where
  "setRoute e ctx req s =
     (case setOrigin req of
        None \<Rightarrow> (Panic, s)
      | Some (Inl err) \<Rightarrow> (Fail err None, s)
      | Some (Inr origin) \<Rightarrow>
          if IsNativeOrigin origin then setNative e ctx req origin s
          else if \<not> cfg_EnableTranslibWrite (srv_config s)
          then (Fail (RStatus Unimplemented) None, count e GNMI_SET_FAIL s)
          else setWith e ctx req ''gnmi'' (re_NewTranslClient e (sr_Prefix req) [] ctx (sr_Extension req)) s)"

definition Server_Set :: "rpc_env \<Rightarrow> ReqCtx \<Rightarrow> SetRequest \<Rightarrow> Server \<Rightarrow> SetResponse rpc \<times> Server" where
  "Server_Set e ctx req s0 =
     (case ReqFromMaster s0 (sr_Extension req) (srv_masterEID s0) of
        (Some err, eid) \<Rightarrow> (Fail err None, s0\<lparr>srv_masterEID := eid\<rparr>)
      | (None, eid) \<Rightarrow>
          (let s = count e GNMI_SET (s0\<lparr>srv_masterEID := eid\<rparr>) in
           if \<not> cfg_EnableTranslibWrite (srv_config s) \<and> \<not> cfg_EnableNativeWrite (srv_config s)
           then (Fail (RStatus Unimplemented) None, count e GNMI_SET_FAIL s)
           else
             (case setPathz e ctx req s of
                Some err \<Rightarrow> (Fail err None, s)
              | None \<Rightarrow> setRoute e ctx req s)))"

section \<open>\<open>Capabilities\<close>\<close>

text \<open>An error of a constructor is dropped; the client is then nil and asking it panics.\<close>

definition Capabilities :: "rpc_env \<Rightarrow> ReqCtx \<Rightarrow> Extension list \<Rightarrow> Server \<Rightarrow> CapabilityResponse rpc \<times> Server" where
  "Capabilities e ctx exts s =
     (case authRequest e ctx ''gnmi'' False s of
        (Some err, s1) \<Rightarrow> (Fail (RAuth err) None, s1)
      | (None, s1) \<Rightarrow>
          (case (re_NewTranslClient e None [] ctx exts,
                 fst (re_NewMixedDbClient e [] None [] JSON_IETF (cfg_ZmqPort (srv_config s1)) (cfg_Vrf (srv_config s1)))) of
             (Inr dc, Inr dc') \<Rightarrow>
               (Reply \<lparr>cr_Models = dc_Capabilities dc @ dc_Capabilities dc', cr_Encodings = supportedEncodings,
                       cr_Version = ''0.7.0'', cr_Bundle = re_bundleVersions e\<rparr>, s1)
           | _ \<Rightarrow> (Panic, s1)))"

section \<open>Lemmas\<close>

named_theorems server_frame \<open>what counting and authentication leave alone\<close>

lemma count_frame [simp, server_frame]:
  "srv_config (count e c s) = srv_config s" "srv_masterEID (count e c s) = srv_masterEID s"
  "srv_pathz (count e c s) = srv_pathz s" "srv_crls (count e c s) = srv_crls s"
  "srv_host (count e c s) = srv_host s" "srv_withMA (count e c s) = srv_withMA s"
  "srv_saveOnSet (count e c s) = srv_saveOnSet s"
  by (simp_all add: count_def split: option.splits)

lemma count_pathz [simp]: "count e c (s\<lparr>srv_pathz := p\<rparr>) = (count e c s)\<lparr>srv_pathz := p\<rparr>"
  by (simp add: count_def split: option.splits)

text \<open>The outcome of authentication depends on the configuration and the cache of revocation lists only.\<close>

lemma authRequest_frame:
  "authRequest e ctx t wr s = (err, s') \<Longrightarrow> \<exists>c. s' = s\<lparr>srv_crls := c\<rparr>"
  by (auto simp: authRequest_def split: prod.splits)

lemma authRequest_cong:
  "srv_config s' = srv_config s \<Longrightarrow> srv_crls s' = srv_crls s \<Longrightarrow>
     fst (authRequest e ctx t wr s') = fst (authRequest e ctx t wr s)"
  by (simp add: authRequest_def split: prod.splits)

lemma authRequest_pathz [simp]:
  "authRequest e ctx t wr (s\<lparr>srv_pathz := p\<rparr>) = apsnd (\<lambda>s'. s'\<lparr>srv_pathz := p\<rparr>) (authRequest e ctx t wr s)"
  by (simp add: authRequest_def split: prod.splits)

lemma sameOrigin_Some: "sameOrigin origin (map Some paths) \<noteq> None"
  by (induction paths) auto

lemma ParseOrigin_Some: "ParseOrigin (map Some paths) \<noteq> None"
  by (cases paths) (auto simp: sameOrigin_Some)

lemma sameOrigin_None_iff: "sameOrigin origin paths = None \<longleftrightarrow>
    None \<in> set paths \<and> (\<forall>p \<in> set (takeWhile (\<lambda>p. p \<noteq> None) paths). path_origin (the p) = origin)"
  by (induction origin paths rule: sameOrigin.induct) auto

text \<open>The number an election id stands for.\<close>

definition eidNat :: "uint128 \<Rightarrow> nat" where
  "eidNat x = unat (High x) * 2 ^ 64 + unat (Low x)"

lemma unat64_less [simp]: "unat (w :: 64 word) < 18446744073709551616"
  using unsigned_less [of w] by (rule order_less_le_trans) simp

lemma two_words_less:
  fixes a b c d :: nat
  assumes "b < n" "d < n" "a < c"
  shows "a * n + b < c * n + d"
proof -
  have "a * n + b < Suc a * n" using assms by simp
  also have "\<dots> \<le> c * n" using assms by (intro mult_le_mono1) simp
  finally show ?thesis by simp
qed

lemma Compare_eidNat: "Compare x (Some y) = (if eidNat x > eidNat y then 1 else if eidNat x < eidNat y then -1 else 0)"
proof -
  have l: "unat (Low x) < 2 ^ 64" "unat (Low y) < 2 ^ 64"
    by simp_all
  consider "unat (High x) < unat (High y)" | "unat (High y) < unat (High x)" | "High x = High y"
    using linorder_less_linear [of "unat (High x)" "unat (High y)"] by (auto simp: word_unat_eq_iff)
  then show ?thesis
  proof cases
    case 1
    with two_words_less [OF l 1] show ?thesis by (simp add: Compare_def eidNat_def word_less_nat_alt)
  next
    case 2
    with two_words_less [OF l(2,1) 2] show ?thesis by (simp add: Compare_def eidNat_def word_less_nat_alt)
  next
    case 3
    then show ?thesis by (simp add: Compare_def eidNat_def word_less_nat_alt)
  qed
qed

subsection \<open>The steps of a \<open>Set\<close>\<close>

definition unchanged :: "world \<Rightarrow> world \<Rightarrow> bool" where
  "unchanged w w' \<longleftrightarrow> w_files w' = w_files w \<and> w_db w' = w_db w"

lemma unchanged_refl [simp]: "unchanged w w"
  by (simp add: unchanged_def)

text \<open>The role prefix a \<open>Set\<close> is authorized for.\<close>

definition setAuthTarget :: "rpc_env \<Rightarrow> SetRequest \<Rightarrow> Server \<Rightarrow> string \<Rightarrow> string" where
  "setAuthTarget e req s origin =
     (if IsNativeOrigin origin
      then ''gnmi_'' @ snd (re_NewMixedDbClient e (setPaths req) (sr_Prefix req) origin JSON_IETF
                              (cfg_ZmqPort (srv_config s)) (cfg_Vrf (srv_config s)))
      else ''gnmi'')"

lemma setAuthTarget_cong: "srv_config s' = srv_config s \<Longrightarrow> setAuthTarget e req s' = setAuthTarget e req s"
  by (simp add: setAuthTarget_def fun_eq_iff)

lemma setWith_authorized:
  assumes "setWith e ctx req t client s = (r, s')"
    and "(\<exists>resp. r = Reply resp) \<or> \<not> unchanged (srv_host s) (srv_host s')"
  shows "fst (authRequest e ctx t True s) = None"
proof (rule ccontr)
  assume "fst (authRequest e ctx t True s) \<noteq> None"
  then obtain err s1 where a: "authRequest e ctx t True s = (Some err, s1)"
    by (cases "authRequest e ctx t True s") auto
  with authRequest_frame [OF a] assms show False
    by (auto simp: setWith_def split: sum.splits)
qed

lemma setNative_authorized:
  assumes run: "setNative e ctx req origin s = (r, s')"
    and eff: "(\<exists>resp. r = Reply resp) \<or> \<not> unchanged (srv_host s) (srv_host s')"
    and nat: "IsNativeOrigin origin"
  shows "fst (authRequest e ctx (setAuthTarget e req s origin) True s) = None
         \<or> hasBypassHeader ctx \<and> skuAllowed (srv_host s) \<and> confined (set AllowedTables) (srv_host s) (srv_host s')"
proof -
  let ?run = "TrySet (re_rngB e) (re_rng e) (re_fnum e) ctx (sr_Prefix req) (map Some (sr_Delete req))
                (sr_Replace req @ sr_Update req) (srv_host s)"
  obtain out w where tr: "?run = (out, w)" by (cases ?run)
  have on: "cfg_EnableNativeWrite (srv_config s)"
    using run eff by (auto simp: setNative_def split: if_splits)
  show ?thesis
  proof (cases out)
    case NotUsed
    obtain client db where mixed: "re_NewMixedDbClient e (setPaths req) (sr_Prefix req) origin JSON_IETF
        (cfg_ZmqPort (srv_config s)) (cfg_Vrf (srv_config s)) = (client, db)" by (meson surj_pair)
    have "unchanged (srv_host s) w"
      using tr unfolding NotUsed by (cases rule: TrySet_steps) (auto simp: unchanged_def)
    moreover have "setWith e ctx req (''gnmi_'' @ db) client (s\<lparr>srv_host := w\<rparr>) = (r, s')"
      using run on by (simp add: setNative_def tr NotUsed mixed)
    ultimately have "fst (authRequest e ctx (''gnmi_'' @ db) True (s\<lparr>srv_host := w\<rparr>)) = None"
      using eff by (intro setWith_authorized) (auto simp: unchanged_def)
    then show ?thesis
      using nat mixed authRequest_cong [of "s\<lparr>srv_host := w\<rparr>" s] by (simp add: setAuthTarget_def)
  next
    case (Used res)
    have "hasBypassHeader ctx \<and> skuAllowed (srv_host s)"
      using tr unfolding Used by (cases rule: TrySet_steps) auto
    moreover have "srv_host s' = w"
      using run on by (cases res) (auto simp: setNative_def tr Used)
    ultimately show ?thesis using TrySet_confined [OF tr] by simp
  qed
qed

lemma setRoute_authorized:
  assumes "setRoute e ctx req s = (r, s')"
    and "(\<exists>resp. r = Reply resp) \<or> \<not> unchanged (srv_host s) (srv_host s')"
  shows "(\<exists>origin. setOrigin req = Some (Inr origin) \<and> fst (authRequest e ctx (setAuthTarget e req s origin) True s) = None)
         \<or> hasBypassHeader ctx \<and> skuAllowed (srv_host s) \<and> confined (set AllowedTables) (srv_host s) (srv_host s')"
proof -
  from assms obtain origin where o: "setOrigin req = Some (Inr origin)"
    by (auto simp: setRoute_def split: option.splits sum.splits)
  show ?thesis
  proof (cases "IsNativeOrigin origin")
    case True
    with assms o setNative_authorized [of e ctx req origin s r s'] show ?thesis
      unfolding setRoute_def o by auto
  next
    case False
    with assms o have "setWith e ctx req ''gnmi'' (re_NewTranslClient e (sr_Prefix req) [] ctx (sr_Extension req)) s = (r, s')"
      unfolding setRoute_def o by (auto split: if_splits)
    from setWith_authorized [OF this assms(2)] False o show ?thesis by (auto simp: setAuthTarget_def)
  qed
qed

lemma eidNat_inject: "eidNat x = eidNat y \<longleftrightarrow> x = y"
proof
  assume eq: "eidNat x = eidNat y"
  have l: "unat (Low x) < 2 ^ 64" "unat (Low y) < 2 ^ 64" by simp_all
  have "\<not> unat (High x) < unat (High y)" "\<not> unat (High y) < unat (High x)"
    using two_words_less [OF l, of "unat (High x)" "unat (High y)"] two_words_less [OF l(2,1), of "unat (High y)" "unat (High x)"] eq
    by (auto simp: eidNat_def)
  then have "unat (High x) = unat (High y)" by simp
  with eq show "x = y" by (simp add: eidNat_def word_unat_eq_iff)
qed simp

lemma master_frame:
  "srv_masterEID (snd (authRequest e ctx t wr s)) = srv_masterEID s"
  "srv_masterEID (SaveStartupConfig e s) = srv_masterEID s"
  by (simp_all add: authRequest_def SaveStartupConfig_def split: prod.splits)

lemma setWith_master: "srv_masterEID (snd (setWith e ctx req t client s)) = srv_masterEID s"
  using master_frame(1) [of e ctx t True s]
  by (auto simp: setWith_def Let_def master_frame(2) split: sum.splits prod.splits option.splits)

lemma setRoute_master: "srv_masterEID (snd (setRoute e ctx req s)) = srv_masterEID s"
  by (simp add: setRoute_def setNative_def setWith_master split: option.splits sum.splits prod.splits try_outcome.splits)

subsection \<open>The policy of paths plays no part in a \<open>Set\<close>\<close>

abbreviation withPathz :: "GnmiAuthzProcessor option \<Rightarrow> 'a \<times> Server \<Rightarrow> 'a \<times> Server" where
  "withPathz p \<equiv> apsnd (\<lambda>s. s\<lparr>srv_pathz := p\<rparr>)"

lemma setPathz_pathz [simp]: "setPathz e ctx req (s\<lparr>srv_pathz := p\<rparr>) = setPathz e ctx req s"
  by (simp add: setPathz_def split: sum.splits)

lemma SaveStartupConfig_pathz [simp]:
  "SaveStartupConfig e (s\<lparr>srv_pathz := p\<rparr>) = (SaveStartupConfig e s)\<lparr>srv_pathz := p\<rparr>"
  by (simp add: SaveStartupConfig_def)

lemma update_pathz [simp]:
  "s\<lparr>srv_pathz := p, srv_host := w\<rparr> = s\<lparr>srv_host := w, srv_pathz := p\<rparr>"
  "s\<lparr>srv_pathz := p, srv_masterEID := eid\<rparr> = s\<lparr>srv_masterEID := eid, srv_pathz := p\<rparr>"
  by simp_all

lemma setWith_pathz: "setWith e ctx req t client (s\<lparr>srv_pathz := p\<rparr>) = withPathz p (setWith e ctx req t client s)"
proof (cases client)
  case (Inr dc)
  obtain err s1 where a: "authRequest e ctx t True s = (err, s1)" by (meson surj_pair)
  obtain r w where "dc_Set dc (sr_Delete req) (sr_Replace req) (sr_Update req) (srv_host s1) = (r, w)" by (meson surj_pair)
  with Inr a show ?thesis
    by (cases err; cases r) (simp_all add: setWith_def Let_def)
qed (simp add: setWith_def)

lemma setNative_pathz: "setNative e ctx req o' (s\<lparr>srv_pathz := p\<rparr>) = withPathz p (setNative e ctx req o' s)"
proof -
  obtain client db where mixed: "re_NewMixedDbClient e (setPaths req) (sr_Prefix req) o' JSON_IETF
      (cfg_ZmqPort (srv_config s)) (cfg_Vrf (srv_config s)) = (client, db)" by (meson surj_pair)
  obtain out w where "TrySet (re_rngB e) (re_rng e) (re_fnum e) ctx (sr_Prefix req) (map Some (sr_Delete req))
                (sr_Replace req @ sr_Update req) (srv_host s) = (out, w)" by (meson surj_pair)
  then show ?thesis
    by (cases out) (simp_all add: setNative_def setWith_pathz mixed split: sum.splits)
qed

lemma setRoute_pathz: "setRoute e ctx req (s\<lparr>srv_pathz := p\<rparr>) = withPathz p (setRoute e ctx req s)"
  by (simp add: setRoute_def setNative_pathz setWith_pathz split: option.splits sum.splits)

section \<open>An example\<close>

text \<open>A switch with certificates required, and a client that has none.\<close>

definition certConfig :: Config where
  "certConfig = \<lparr>cfg_UserAuth = [(''cert'', True)], cfg_ConfigTableName = '''', cfg_EnableCrl = False,
     cfg_LogLevel = 3, cfg_Threshold = 100, cfg_EnableTranslibWrite = False, cfg_EnableNativeWrite = True,
     cfg_ZmqPort = '''', cfg_Vrf = '''', cfg_PathzPolicy = False\<rparr>"

definition authEnvEx :: auth_env where
  "authEnvEx = \<lparr>env_groupIds = (\<lambda>u. None), env_groupName = (\<lambda>g. None), env_ssh = (\<lambda>u p. False),
     env_jwt = (\<lambda>t. None), env_entry = (\<lambda>t k. []), env_download = (\<lambda>u. None), env_revoked = (\<lambda>cs crls. False)\<rparr>"

definition rpcEnvEx :: rpc_env where
  "rpcEnvEx = \<lparr>re_auth = authEnvEx, re_crlExpiry = 0, re_now = 0, re_shm = (\<lambda>c. ShmWorks),
     re_rngB = id, re_rng = id, re_fnum = id, re_rngP = id, re_IsTargetDb = (\<lambda>t. (t, False)),
     re_NewNonDbClient = (\<lambda>ps p. Inl []), re_NewShowClient = (\<lambda>ps p. Inl []), re_NewDbClient = (\<lambda>ps p. Inl []),
     re_NewMixedDbClient = (\<lambda>ps p o' enc z v. (Inl [], [])), re_NewTranslClient = (\<lambda>p ps c x. Inl []),
     re_NewOperationalHandler = (\<lambda>ps p. Inl []), re_ConfigSave = (\<lambda>f w. (True, w)), re_bundleVersions = ([], [])\<rparr>"

definition serverEx :: Server where
  "serverEx = \<lparr>srv_config = certConfig, srv_masterEID = \<lparr>High = 0, Low = 5\<rparr>, srv_withMA = True, srv_saveOnSet = False,
     srv_pathz = None, srv_counters = \<lparr>globalCounters = replicate COUNTER_SIZE 0, segment = None\<rparr>,
     srv_crls = None, srv_host = switchEx\<rparr>"

definition requestEx :: "Update list \<Rightarrow> Extension list \<Rightarrow> SetRequest" where
  "requestEx us exts = \<lparr>sr_Prefix = None, sr_Delete = [], sr_Replace = [], sr_Update = us, sr_Extension = exts\<rparr>"

lemma bypassCtx_unauthenticated: "fst (authRequest rpcEnvEx bypassCtx t wr serverEx) \<noteq> None"
  by (simp add: authRequest_def authenticate_def serverEx_def certConfig_def AuthConfig.truncate_def bypassCtx_def
        AuthTypes_Any_def AuthTypes_Enabled_def isSet_def certAuth_def ClientCertAuthenAndAuthor_def)

section \<open>Properties\<close>

text \<open>
  C17. Whatever a \<open>Set\<close> request does, if it succeeds or changes files or databases, then either the client
  was authenticated with write access for the target of the request, or the bypass header was set on an
  allowed SKU and nothing outside the allowed tables changed.
\<close>

theorem set_changes_authorized:
  assumes "Server_Set e ctx req s = (r, s')"
    and "(\<exists>resp. r = Reply resp) \<or> \<not> unchanged (srv_host s) (srv_host s')"
  shows "(\<exists>origin. setOrigin req = Some (Inr origin) \<and> fst (authRequest e ctx (setAuthTarget e req s origin) True s) = None)
         \<or> hasBypassHeader ctx \<and> skuAllowed (srv_host s) \<and> confined (set AllowedTables) (srv_host s) (srv_host s')"
proof -
  obtain m eid where master: "ReqFromMaster s (sr_Extension req) (srv_masterEID s) = (m, eid)" by (meson surj_pair)
  let ?s = "count e GNMI_SET (s\<lparr>srv_masterEID := eid\<rparr>)"
  have "setRoute e ctx req ?s = (r, s')" if "m = None"
    using assms that by (auto simp: Server_Set_def master Let_def split: if_splits option.splits)
  moreover have "m = None"
    using assms by (cases m) (auto simp: Server_Set_def master)
  ultimately have "(\<exists>origin. setOrigin req = Some (Inr origin) \<and> fst (authRequest e ctx (setAuthTarget e req ?s origin) True ?s) = None)
      \<or> hasBypassHeader ctx \<and> skuAllowed (srv_host s) \<and> confined (set AllowedTables) (srv_host s) (srv_host s')"
    using setRoute_authorized [of e ctx req ?s r s'] assms(2) by simp
  then show ?thesis
    using authRequest_cong [of ?s s e ctx _ True] by (simp add: setAuthTarget_cong [of ?s s])
qed

theorem set_changes_authorized_witness:
  "\<exists>resp s'. Server_Set rpcEnvEx bypassCtx (requestEx [vnetUpdate] []) serverEx = (Reply resp, s')
     \<and> hasBypassHeader bypassCtx \<and> skuAllowed (srv_host serverEx)
     \<and> confined (set AllowedTables) (srv_host serverEx) (srv_host s')"
proof -
  have "case fst (Server_Set rpcEnvEx bypassCtx (requestEx [vnetUpdate] []) serverEx) of Reply _ \<Rightarrow> True | _ \<Rightarrow> False"
    by code_simp
  then obtain resp s' where run: "Server_Set rpcEnvEx bypassCtx (requestEx [vnetUpdate] []) serverEx = (Reply resp, s')"
    by (cases "Server_Set rpcEnvEx bypassCtx (requestEx [vnetUpdate] []) serverEx") (auto split: rpc.splits)
  with set_changes_authorized [OF run] bypassCtx_unauthenticated show ?thesis by blast
qed

text \<open>
  A request for the native origin that meets the conditions of the bypass is carried out without
  authentication: the outcome of \<open>Set\<close> is that of \<open>TrySet\<close>, whatever the client presents.
\<close>

theorem set_bypass_skips_authentication:
  assumes "TrySet (re_rngB e) (re_rng e) (re_fnum e) ctx (sr_Prefix req) (map Some (sr_Delete req))
             (sr_Replace req @ sr_Update req) (srv_host s) = (Used (Inr resp), w)"
    and "setOrigin req = Some (Inr ''sonic-db'')" and "cfg_EnableNativeWrite (srv_config s)"
    and "\<not> cfg_PathzPolicy (srv_config s)" and "fst (ReqFromMaster s (sr_Extension req) (srv_masterEID s)) = None"
  shows "\<exists>s'. Server_Set e ctx req s = (Reply resp, s') \<and> srv_host s' = w"
proof -
  obtain eid where "ReqFromMaster s (sr_Extension req) (srv_masterEID s) = (None, eid)"
    using assms(5) by (metis prod.collapse)
  then show ?thesis
    using assms by (simp add: Server_Set_def Let_def setPathz_def setRoute_def setNative_def IsNativeOrigin_def)
qed

theorem set_bypass_skips_authentication_witness:
  "\<exists>resp s'. Server_Set rpcEnvEx bypassCtx (requestEx [vnetUpdate] []) serverEx = (Reply resp, s')
     \<and> (\<forall>t. fst (authRequest rpcEnvEx bypassCtx t True serverEx) \<noteq> None)
     \<and> hget ''VNET|a'' ''vni'' (w_db (srv_host serverEx)) = Some ''1''
     \<and> hget ''VNET|a'' ''vni'' (w_db (srv_host s')) = Some ''2''"
proof -
  let ?run = "TrySet id id id bypassCtx None [] [vnetUpdate] switchEx"
  have "fst ?run = Used (Inr \<lparr>sr_prefix = None, sr_response = [\<lparr>ur_path = upd_path vnetUpdate, ur_op = OpUPDATE\<rparr>]\<rparr>)"
    and vni: "hget ''VNET|a'' ''vni'' (w_db (snd ?run)) = Some ''2''" by code_simp+
  then obtain resp where "?run = (Used (Inr resp), snd ?run)" by (metis prod.collapse)
  then have t: "TrySet (re_rngB rpcEnvEx) (re_rng rpcEnvEx) (re_fnum rpcEnvEx) bypassCtx (sr_Prefix (requestEx [vnetUpdate] []))
      (map Some (sr_Delete (requestEx [vnetUpdate] []))) (sr_Replace (requestEx [vnetUpdate] []) @ sr_Update (requestEx [vnetUpdate] []))
      (srv_host serverEx) = (Used (Inr resp), snd ?run)"
    by (simp add: rpcEnvEx_def requestEx_def serverEx_def)
  have o: "setOrigin (requestEx [vnetUpdate] []) = Some (Inr ''sonic-db'')" by code_simp
  from set_bypass_skips_authentication [OF t o] vni obtain s' where
    "Server_Set rpcEnvEx bypassCtx (requestEx [vnetUpdate] []) serverEx = (Reply resp, s')"
    "hget ''VNET|a'' ''vni'' (w_db (srv_host s')) = Some ''2''"
    by (auto simp: serverEx_def certConfig_def requestEx_def ReqFromMaster_def ReqFromMasterEnabledMA_def)
  moreover have "hget ''VNET|a'' ''vni'' (w_db (srv_host serverEx)) = Some ''1''" by code_simp
  ultimately show ?thesis using bypassCtx_unauthenticated by blast
qed

text \<open>
  With path authorization enabled the policy has no effect on \<open>Set\<close>: replacing it by any other policy
  gives the same outcome and the same changes.
\<close>

theorem set_ignores_pathz_policy:
  "Server_Set e ctx req (s\<lparr>srv_pathz := p\<rparr>)
   = (fst (Server_Set e ctx req s), (snd (Server_Set e ctx req s))\<lparr>srv_pathz := p\<rparr>)"
proof -
  obtain m eid where "ReqFromMaster s (sr_Extension req) (srv_masterEID s) = (m, eid)" by (meson surj_pair)
  moreover have "ReqFromMaster (s\<lparr>srv_pathz := p\<rparr>) = ReqFromMaster s" by (simp add: ReqFromMaster_def)
  ultimately show ?thesis
    by (cases m) (simp_all add: Server_Set_def Let_def setRoute_pathz apsnd_def map_prod_def split_def split: option.splits)
qed

text \<open>
  With path authorization enabled, every \<open>Get\<close> that names a path is denied, whatever the policy.
\<close>

theorem get_pathz_denies_all:
  assumes "cfg_PathzPolicy (srv_config s)" and "gr_Path req \<noteq> []"
  shows "\<exists>c s'. Server_Get e ctx req s = (Fail (RStatus c) None, s') \<and> c \<in> {Unimplemented, Unauthenticated, PermissionDenied}
           \<and> srv_host s' = srv_host s"
proof -
  have "\<exists>c \<in> {Unauthenticated, PermissionDenied}. getPathz e ctx req s' = Inl (RStatus c)" if "srv_config s' = srv_config s" for s'
    using assms that by (auto simp: getPathz_def getUsername_def Let_def split: option.splits sum.splits)
  from this [of "count e GNMI_GET s"] show ?thesis by (auto simp: Server_Get_def Let_def)
qed

theorem get_pathz_denies_all_witness:
  "\<exists>c s'. Server_Get rpcEnvEx \<lparr>ctx_peer = Some \<lparr>peer_isUnix = False, peer_TLS = Some \<lparr>tls_VerifiedChains = [],
             tls_SPIFFEPath = Some ''/role/alice''\<rparr>\<rparr>, ctx_md = None\<rparr>
           \<lparr>gr_Prefix = None, gr_Path = [the (pathN [''a''])], gr_Type = DT_ALL, gr_Encoding = JSON, gr_Extension = []\<rparr>
           (serverEx\<lparr>srv_config := certConfig\<lparr>cfg_PathzPolicy := True\<rparr>\<rparr>) = (Fail (RStatus c) None, s')"
  by (rule exE [OF get_pathz_denies_all [where s = "serverEx\<lparr>srv_config := certConfig\<lparr>cfg_PathzPolicy := True\<rparr>\<rparr>"
        and req = "\<lparr>gr_Prefix = None, gr_Path = [the (pathN [''a''])], gr_Type = DT_ALL, gr_Encoding = JSON, gr_Extension = []\<rparr>"]])
    auto

text \<open>
  C18. Master arbitration compares election ids as 128-bit numbers. A \<open>Set\<close> with a smaller id than the
  master's is rejected and changes nothing; otherwise its id becomes the master's, before and whatever
  authentication decides.
\<close>

theorem set_master_arbitration:
  assumes "Server_Set e ctx req s = (r, s')" and "srv_withMA s"
    and "requestEID (sr_Extension req) None = Inr (Some eid)"
  shows "if eidNat eid < eidNat (srv_masterEID s)
         then r = Fail (RStatus PermissionDenied) None \<and> s' = s
         else eidNat (srv_masterEID s') = eidNat eid"
proof (cases "eidNat eid < eidNat (srv_masterEID s)")
  case True
  with assms show ?thesis
    by (auto simp: Server_Set_def ReqFromMaster_def ReqFromMasterEnabledMA_def Compare_eidNat)
next
  case False
  obtain eid' where eid': "ReqFromMaster s (sr_Extension req) (srv_masterEID s) = (None, eid')" "eidNat eid' = eidNat eid"
    using assms(2,3) False
    by (cases "eidNat (srv_masterEID s) < eidNat eid") (auto simp: ReqFromMaster_def ReqFromMasterEnabledMA_def Compare_eidNat Let_def)
  then have "srv_masterEID (snd (Server_Set e ctx req s)) = eid'"
    by (simp add: Server_Set_def Let_def setRoute_master split: option.splits)
  with False assms(1) eid'(2) show ?thesis by simp
qed

theorem set_master_arbitration_witness:
  "srv_masterEID (snd (Server_Set rpcEnvEx bypassCtx
      (requestEx [] [MasterArbitrationExt \<lparr>ma_ElectionId = Some \<lparr>High = 1, Low = 0\<rparr>, ma_Role = None\<rparr>]) serverEx)) = \<lparr>High = 1, Low = 0\<rparr>
   \<and> (\<forall>t wr. fst (authRequest rpcEnvEx bypassCtx t wr serverEx) \<noteq> None)"
proof -
  let ?exts = "[MasterArbitrationExt \<lparr>ma_ElectionId = Some \<lparr>High = 1, Low = 0\<rparr>, ma_Role = None\<rparr>]"
  obtain r s' where run: "Server_Set rpcEnvEx bypassCtx (requestEx [] ?exts) serverEx = (r, s')" by (meson surj_pair)
  from set_master_arbitration [OF run, of "\<lparr>High = 1, Low = 0\<rparr>"]
  have n: "eidNat (srv_masterEID s') = eidNat \<lparr>High = 1, Low = 0\<rparr>"
    by (simp add: serverEx_def requestEx_def eidNat_def)
  show ?thesis using eidNat_inject [THEN iffD1, OF n] run bypassCtx_unauthenticated by simp
qed

text \<open>
  A \<open>Set\<close> whose first operation is an update or a replace without a path, and whose prefix names no
  origin, panics before authentication, with writes enabled and path authorization off.
\<close>

theorem set_missing_path_panics:
  assumes "setPaths req = None # paths" and "\<forall>p. sr_Prefix req = Some p \<longrightarrow> path_origin p = []"
    and "cfg_EnableTranslibWrite (srv_config s) \<or> cfg_EnableNativeWrite (srv_config s)"
    and "\<not> cfg_PathzPolicy (srv_config s)" and "fst (ReqFromMaster s (sr_Extension req) (srv_masterEID s)) = None"
  shows "fst (Server_Set e ctx req s) = Panic"
proof -
  obtain eid where "ReqFromMaster s (sr_Extension req) (srv_masterEID s) = (None, eid)"
    using assms(5) by (metis prod.collapse)
  moreover have "setOrigin req = None"
    using assms(1,2) by (auto simp: setOrigin_def Let_def split: option.splits)
  ultimately show ?thesis
    using assms(3,4) by (auto simp: Server_Set_def Let_def setPathz_def setRoute_def)
qed

theorem set_missing_path_panics_witness:
  "fst (Server_Set rpcEnvEx bypassCtx (requestEx [\<lparr>upd_path = None, upd_val = OtherVal\<rparr>] []) serverEx) = Panic
   \<and> (\<forall>t wr. fst (authRequest rpcEnvEx bypassCtx t wr serverEx) \<noteq> None)"
  using set_missing_path_panics [of "requestEx [\<lparr>upd_path = None, upd_val = OtherVal\<rparr>] []" "[]" serverEx rpcEnvEx bypassCtx]
    bypassCtx_unauthenticated
  by (simp add: setPaths_def requestEx_def serverEx_def certConfig_def ReqFromMaster_def ReqFromMasterEnabledMA_def)

end
