(* ===== verification/Subscribe.thy ===== *)
theory Subscribe
  imports Gnmi_Server
begin

text \<open>
  The Subscribe RPC: \<open>Server.Subscribe\<close> of \<^verbatim>\<open>gnmi_server/server.go\<close>, the client of
  \<^verbatim>\<open>gnmi_server/client_subscribe.go\<close> and the connection manager of \<^verbatim>\<open>gnmi_server/connection_manager.go\<close>.

  The first part follows one RPC up to the start of its data client (\<open>runSetup\<close>), with the key it adds to the
  connection manager and removes when it ends. The second part has several RPCs add connections at the same
  time: checking the threshold and inserting the key are two critical sections (\<open>conn_step\<close>). The third part
  is a running client: the goroutine that receives, the one that sends, the data client and a later RPC from
  the same address all act on its channels (\<open>client_step\<close>).

  The text of a protobuf message and the formatted time are parameters.
\<close>

section \<open>Connection manager\<close>

definition connTable :: string where "connTable = ''TELEMETRY_CONNECTIONS''"

record ConnectionManager =
  cm_connections :: "string list"
  cm_threshold :: int

definition hdel :: "string \<Rightarrow> string \<Rightarrow> string gomap gomap \<Rightarrow> string gomap gomap" where
  "hdel k fld db = (case map_of db k of None \<Rightarrow> db | Some h \<Rightarrow>
       (let h' = AList.delete fld h in if h' = [] then AList.delete k db else AList.update k h' db))"

definition storeKeyRedis :: "bool \<Rightarrow> string \<Rightarrow> world \<Rightarrow> world" where
  "storeKeyRedis rclient key w =
     (if \<not> rclient then w
      else (case nextFault w of
              (f, w1) \<Rightarrow> if f = Works then w1\<lparr>w_db := hset connTable key ''active'' (w_db w1)\<rparr> else w1))"

definition deleteKeyRedis :: "bool \<Rightarrow> string \<Rightarrow> world \<Rightarrow> world" where
  "deleteKeyRedis rclient key w =
     (if \<not> rclient then w
      else (case nextFault w of
              (f, w1) \<Rightarrow> if f = Works then w1\<lparr>w_db := hdel connTable key (w_db w1)\<rparr> else w1))"

text \<open>
  The address and the number of \<open>STATE_DB\<close> may be unknown; then the client stays as it was. A failed HGETALL
  gives a nil map.
\<close>

definition PrepareRedis :: "(string list \<Rightarrow> string list) \<Rightarrow> bool \<Rightarrow> bool \<Rightarrow> world \<Rightarrow> bool \<times> world" where
  "PrepareRedis rng addrKnown rclient w =
     (if \<not> addrKnown then (rclient, w)
      else
        (case nextFault w of
           (f, w1) \<Rightarrow>
             (let res = (if f = Works then (case map_of (w_db w1) connTable of None \<Rightarrow> [] | Some h \<Rightarrow> map fst h) else [])
              in (True, fold (deleteKeyRedis True) (rng res) w1))))"

text \<open>The matches of the regular expression, from left to right without overlap.\<close>

definition keyChar :: "char \<Rightarrow> bool" where
  "keyChar c \<longleftrightarrow>
     (let n = (of_char c :: nat) in
      48 \<le> n \<and> n \<le> 57 \<or> 65 \<le> n \<and> n \<le> 90 \<or> 97 \<le> n \<and> n \<le> 122) \<or> c \<in> set ''-_*''"

definition matchHere :: "string \<Rightarrow> (string \<times> string) option" where
  "matchHere s =
     (let alt = (\<lambda>p. if hasPrefix s p then
                        (let r = drop (length p) s; v = takeWhile keyChar r; r' = dropWhile keyChar r in
                         case r' of c # r'' \<Rightarrow> if c = CHR 0x22 then Some (v, r'') else None | [] \<Rightarrow> None)
                      else None)
      in case alt (''target:'' @ [CHR 0x22]) of
           Some m \<Rightarrow> Some m
         | None \<Rightarrow> alt (''element:'' @ [CHR 0x22]))"

lemma matchHere_shorter: "matchHere s = Some (v, r) \<Longrightarrow> length r < length s"
proof -
  have tail: "length r' < length s" if "dropWhile keyChar (drop n s) = c # r'" for n c r'
    using that length_dropWhile_le [of keyChar "drop n s"] by simp
  assume "matchHere s = Some (v, r)"
  then show ?thesis
    unfolding matchHere_def Let_def
    by (auto split: if_splits option.splits list.splits dest: tail)
qed

function findMatches :: "string \<Rightarrow> string list" where
  "findMatches [] = []"
| "findMatches (c # s) =
     (case matchHere (c # s) of
        Some (v, r) \<Rightarrow> v # findMatches r
      | None \<Rightarrow> findMatches s)"
  by pat_completeness auto
termination
  by (relation "measure length") (auto dest: matchHere_shorter)

definition createKey :: "string \<Rightarrow> string \<Rightarrow> string \<Rightarrow> string" where
  "createKey addr query now = addr @ ''|'' @ concat (map (\<lambda>m. m @ ''|'') (findMatches query)) @ now"

text \<open>The two critical sections of \<open>Add\<close>: the check of the threshold, and the insertion.\<close>

definition addCheck :: "ConnectionManager \<Rightarrow> bool" where
  "addCheck cm \<longleftrightarrow> \<not> (int (length (cm_connections cm)) \<ge> cm_threshold cm \<and> cm_threshold cm \<noteq> 0)"

definition addInsert :: "string \<Rightarrow> ConnectionManager \<Rightarrow> ConnectionManager" where
  "addInsert key cm = cm\<lparr>cm_connections := List.insert key (cm_connections cm)\<rparr>"

definition Add ::
  "bool \<Rightarrow> string \<Rightarrow> string \<Rightarrow> string \<Rightarrow> ConnectionManager \<Rightarrow> world \<Rightarrow> string option \<times> ConnectionManager \<times> world" where
  "Add rclient addr query now cm w =
     (if \<not> addCheck cm then (None, cm, w)
      else (let key = createKey addr query now in (Some key, addInsert key cm, storeKeyRedis rclient key w)))"

definition removeKey :: "string \<Rightarrow> ConnectionManager \<Rightarrow> ConnectionManager" where
  "removeKey key cm = cm\<lparr>cm_connections := remove1 key (cm_connections cm)\<rparr>"

definition Remove :: "bool \<Rightarrow> string \<Rightarrow> ConnectionManager \<Rightarrow> world \<Rightarrow> bool \<times> ConnectionManager \<times> world" where
  "Remove rclient key cm w =
     (let exists = key \<in> set (cm_connections cm) in
      (exists, if exists then removeKey key cm else cm, deleteKeyRedis rclient key w))"

section \<open>Setting up a subscription\<close>

datatype SubMode = STREAM | ONCE | POLL | ModeOther int

record SubscriptionList =
  sl_Prefix :: "Path option"
  sl_Subscription :: "Path option list"
  sl_Mode :: SubMode

record SubscribeRequest =
  rq_Subscribe :: "SubscriptionList option"
  rq_Extension :: "Extension list"

datatype recv = RecvMsg SubscribeRequest | RecvEOF | RecvErr code

record sub_env =
  se_rpc :: rpc_env
  se_NewEventClient :: "Path list \<Rightarrow> Path option \<Rightarrow> int \<Rightarrow> string + DataClient"
  se_NewTranslClient :: "Path option \<Rightarrow> Path list \<Rightarrow> ReqCtx \<Rightarrow> Extension list \<Rightarrow> string + DataClient"
  se_text :: "SubscribeRequest \<Rightarrow> string"
  se_stamp :: string
  se_addrKnown :: bool
  se_rngK :: "string list \<Rightarrow> string list"

record sub_state =
  ss_server :: Server
  ss_manager :: "ConnectionManager option"
  ss_rclient :: bool
  ss_clients :: "nat gomap"

abbreviation ss_host :: "sub_state \<Rightarrow> world" where
  "ss_host s \<equiv> srv_host (ss_server s)"

definition setHost :: "world \<Rightarrow> sub_state \<Rightarrow> sub_state" where
  "setHost w s = s\<lparr>ss_server := (ss_server s)\<lparr>srv_host := w\<rparr>\<rparr>"

definition setConnectionManager :: "sub_env \<Rightarrow> int \<Rightarrow> sub_state \<Rightarrow> sub_state" where
  "setConnectionManager e threshold s =
     (if (case ss_manager s of None \<Rightarrow> False | Some cm \<Rightarrow> threshold = cm_threshold cm) then s
      else
        (case PrepareRedis (se_rngK e) (se_addrKnown e) (ss_rclient s) (ss_host s) of
           (rclient, w) \<Rightarrow>
             (setHost w s)\<lparr>ss_manager := Some \<lparr>cm_connections = [], cm_threshold = threshold\<rparr>, ss_rclient := rclient\<rparr>))"

definition populateDbPathSubscrition :: "SubscriptionList \<Rightarrow> Path option list option" where
  "populateDbPathSubscrition sl = (if sl_Subscription sl = [] then None else Some (sl_Subscription sl))"

text \<open>The origin of a subscription: of its prefix or its paths, which must not disagree.\<close>

definition subOrigin :: "string \<Rightarrow> Path option list \<Rightarrow> (rpc_error + string) option" where
  "subOrigin origin paths =
     (case ParseOrigin paths of
        None \<Rightarrow> None
      | Some (Inl err) \<Rightarrow> Some (Inl err)
      | Some (Inr o') \<Rightarrow>
          if origin = [] then Some (Inr o')
          else if o' \<noteq> [] \<and> o' \<noteq> origin then Some (Inl (RStatus InvalidArgument))
          else Some (Inr origin))"

text \<open>The data client for a subscription, with the prefix of roles that grants access to it.\<close>

definition subClient ::
  "sub_env \<Rightarrow> ReqCtx \<Rightarrow> int \<Rightarrow> SubscriptionList \<Rightarrow> Extension list \<Rightarrow> string \<Rightarrow> Path list
   \<Rightarrow> rpc_error + (string \<times> (string + DataClient))" where
  "subClient e ctx logLevel sl exts origin paths =
     (let prefix = sl_Prefix sl;
          target = (case prefix of None \<Rightarrow> [] | Some p \<Rightarrow> path_target p)
      in if origin = ''openconfig'' then Inr (''gnmi'', se_NewTranslClient e prefix paths ctx exts)
         else if IsNativeOrigin origin then
           (case re_NewMixedDbClient (se_rpc e) (map Some paths) prefix origin JSON_IETF [] [] of
              (client, targetDbName) \<Rightarrow> Inr (''gnmi_'' @ targetDbName, client))
         else if origin \<noteq> [] then Inl (RStatus Unimplemented)
         else if target = [] then Inl (RStatus Unimplemented)
         else if target = ''OTHERS'' then Inr (''gnmi_others'', re_NewNonDbClient (se_rpc e) paths prefix)
         else if target = ''SHOW'' then Inl (RStatus Unimplemented)
         else if target = ''EVENTS'' \<and> sl_Mode sl = STREAM then Inr (''gnmi_events'', se_NewEventClient e paths prefix logLevel)
         else if snd (re_IsTargetDb (se_rpc e) target)
         then Inr (''gnmi_'' @ fst (re_IsTargetDb (se_rpc e) target), re_NewDbClient (se_rpc e) paths prefix)
         else Inr (''gnmi'', se_NewTranslClient e prefix paths ctx exts))"

datatype setup_result = SetupFails rpc_error | SetupPanics | Started DataClient SubMode

text \<open>After the key was added: the data client, authentication and the mode.\<close>

definition startClient ::
  "sub_env \<Rightarrow> ReqCtx \<Rightarrow> SubscriptionList \<Rightarrow> Extension list \<Rightarrow> string \<Rightarrow> Path list \<Rightarrow> sub_state \<Rightarrow> setup_result \<times> sub_state" where
  "startClient e ctx sl exts origin paths s =
     (case subClient e ctx (cfg_LogLevel (srv_config (ss_server s))) sl exts origin paths of
        Inl err \<Rightarrow> (SetupFails err, s)
      | Inr (authTarget, Inl err) \<Rightarrow> (SetupFails (RStatus NotFound), s)
      | Inr (authTarget, Inr dc) \<Rightarrow>
          (case authRequest (se_rpc e) ctx authTarget False (ss_server s) of
             (Some err, srv) \<Rightarrow> (SetupFails (RAuth err), s\<lparr>ss_server := srv\<rparr>)
           | (None, srv) \<Rightarrow>
               (case sl_Mode sl of
                  ModeOther _ \<Rightarrow> (SetupFails (RStatus InvalidArgument), s\<lparr>ss_server := srv\<rparr>)
                | mode \<Rightarrow> (Started dc mode, s\<lparr>ss_server := srv\<rparr>))))"

definition runSetup ::
  "sub_env \<Rightarrow> ReqCtx \<Rightarrow> string \<Rightarrow> recv \<Rightarrow> ConnectionManager \<Rightarrow> sub_state \<Rightarrow> setup_result \<times> string option \<times> sub_state" where
  "runSetup e ctx addr msg cm s =
     (case msg of
        RecvEOF \<Rightarrow> (SetupFails (RStatus Aborted), None, s)
      | RecvErr c \<Rightarrow> (SetupFails (RStatus c), None, s)
      | RecvMsg query \<Rightarrow>
          (case rq_Subscribe query of
             None \<Rightarrow> (SetupFails (RStatus InvalidArgument), None, s)
           | Some sl \<Rightarrow>
               (case populateDbPathSubscrition sl of
                  None \<Rightarrow> (SetupFails (RStatus NotFound), None, s)
                | Some paths \<Rightarrow>
                    (case subOrigin (case sl_Prefix sl of None \<Rightarrow> [] | Some p \<Rightarrow> path_origin p) paths of
                       None \<Rightarrow> (SetupPanics, None, s)
                     | Some (Inl err) \<Rightarrow> (SetupFails err, None, s)
                     | Some (Inr origin) \<Rightarrow>
                         (case Add (ss_rclient s) addr (se_text e query) (se_stamp e) cm (ss_host s) of
                            (None, cm1, w1) \<Rightarrow> (SetupFails (RStatus Unavailable), None, s)
                          | (Some key, cm1, w1) \<Rightarrow>
                              (case startClient e ctx sl (rq_Extension query) origin (map the paths)
                                      ((setHost w1 s)\<lparr>ss_manager := Some cm1\<rparr>) of
                                 (r, s1) \<Rightarrow> (r, Some key, s1)))))))"

text \<open>
  \<open>Run\<close>. The deferred \<open>Remove\<close> runs whatever happens after \<open>Add\<close>. \<open>body\<close> is what happens from the start of the data
  client until the goroutine that sends returns; the result is then always an error.
\<close>

definition removeConn :: "string option \<Rightarrow> sub_state \<Rightarrow> sub_state" where
  "removeConn key s =
     (case (key, ss_manager s) of
        (Some k, Some cm) \<Rightarrow>
          (case Remove (ss_rclient s) k cm (ss_host s) of
             (_, cm', w) \<Rightarrow> (setHost w s)\<lparr>ss_manager := Some cm'\<rparr>)
      | _ \<Rightarrow> s)"

definition Run ::
  "sub_env \<Rightarrow> ReqCtx \<Rightarrow> string \<Rightarrow> recv \<Rightarrow> (DataClient \<Rightarrow> SubMode \<Rightarrow> sub_state \<Rightarrow> sub_state) \<Rightarrow> ConnectionManager
   \<Rightarrow> sub_state \<Rightarrow> unit rpc \<times> sub_state" where
  "Run e ctx addr msg body cm s =
     (case runSetup e ctx addr msg cm s of
        (SetupFails err, key, s1) \<Rightarrow> (Fail err None, removeConn key s1)
      | (SetupPanics, key, s1) \<Rightarrow> (Panic, removeConn key s1)
      | (Started dc mode, key, s1) \<Rightarrow> (Fail (RStatus InvalidArgument) None, removeConn key (body dc mode s1)))"

text \<open>
  The registry of running clients is keyed by the address of the peer; values identify clients. A client that is
  replaced is closed. Without a peer address the RPC fails.
\<close>

definition register :: "string \<Rightarrow> nat \<Rightarrow> nat gomap \<Rightarrow> nat option \<times> nat gomap" where
  "register addr c clients = (map_of clients addr, AList.update addr c (AList.delete addr clients))"

definition unregister :: "string \<Rightarrow> nat gomap \<Rightarrow> nat gomap" where
  "unregister addr clients = AList.delete addr clients"

definition Server_Subscribe ::
  "sub_env \<Rightarrow> ReqCtx \<Rightarrow> string option \<Rightarrow> nat \<Rightarrow> recv \<Rightarrow> (DataClient \<Rightarrow> SubMode \<Rightarrow> sub_state \<Rightarrow> sub_state)
   \<Rightarrow> sub_state \<Rightarrow> unit rpc \<times> sub_state" where
  "Server_Subscribe e ctx peerAddr c msg body s =
     (if ctx_peer ctx = None then (Fail (RStatus InvalidArgument) None, s)
      else
        (case peerAddr of
           None \<Rightarrow> (Fail (RStatus InvalidArgument) None, s)
         | Some addr \<Rightarrow>
             (let s1 = setConnectionManager e (cfg_Threshold (srv_config (ss_server s))) s;
                  s2 = s1\<lparr>ss_clients := snd (register addr c (ss_clients s1))\<rparr>
              in case Run e ctx addr msg body (the (ss_manager s2)) s2 of
                   (r, s3) \<Rightarrow> (r, s3\<lparr>ss_clients := unregister addr (ss_clients s3)\<rparr>))))"

section \<open>Adding connections at the same time\<close>

text \<open>
  Where an RPC is: before the check of \<open>Add\<close>, between the two critical sections, connected, or done.
  \<open>conn_step k\<close> lets at most \<open>k\<close> RPCs be between the sections at once.
\<close>

datatype conn_pc = Arriving string | Passed string | Connected string | Refused | Left

record conn_state =
  co_manager :: ConnectionManager
  co_rpcs :: "conn_pc list"

fun passed :: "conn_pc \<Rightarrow> bool" where
  "passed (Passed _) = True"
| "passed _ = False"

definition passing :: "conn_state \<Rightarrow> nat" where
  "passing s = length (filter passed (co_rpcs s))"

inductive conn_step :: "nat \<Rightarrow> conn_state \<Rightarrow> conn_state \<Rightarrow> bool" for k where
  arrive: "conn_step k s (s\<lparr>co_rpcs := co_rpcs s @ [Arriving key]\<rparr>)"
| check: "i < length (co_rpcs s) \<Longrightarrow> co_rpcs s ! i = Arriving key \<Longrightarrow> addCheck (co_manager s) \<Longrightarrow> passing s < k \<Longrightarrow>
    conn_step k s (s\<lparr>co_rpcs := (co_rpcs s)[i := Passed key]\<rparr>)"
| refuse: "i < length (co_rpcs s) \<Longrightarrow> co_rpcs s ! i = Arriving key \<Longrightarrow> \<not> addCheck (co_manager s) \<Longrightarrow>
    conn_step k s (s\<lparr>co_rpcs := (co_rpcs s)[i := Refused]\<rparr>)"
| insert: "i < length (co_rpcs s) \<Longrightarrow> co_rpcs s ! i = Passed key \<Longrightarrow>
    conn_step k s (s\<lparr>co_manager := addInsert key (co_manager s), co_rpcs := (co_rpcs s)[i := Connected key]\<rparr>)"
| leave: "i < length (co_rpcs s) \<Longrightarrow> co_rpcs s ! i = Connected key \<Longrightarrow>
    conn_step k s (s\<lparr>co_manager := removeKey key (co_manager s), co_rpcs := (co_rpcs s)[i := Left]\<rparr>)"

inductive conn_reach :: "nat \<Rightarrow> int \<Rightarrow> conn_state \<Rightarrow> bool" for k t where
  init: "conn_reach k t \<lparr>co_manager = \<lparr>cm_connections = [], cm_threshold = t\<rparr>, co_rpcs = []\<rparr>"
| step: "conn_reach k t s \<Longrightarrow> conn_step k s s' \<Longrightarrow> conn_reach k t s'"

section \<open>A running client\<close>

text \<open>
  A channel has a number of buffered values and may be closed. Closing a closed channel panics, as does a
  send on a closed one, also when the channel is closed while the send waits for room.
\<close>

datatype chan = Chan nat bool

definition closeChan :: "chan option \<Rightarrow> chan option option" where
  "closeChan ch =
     (case ch of
        None \<Rightarrow> Some None
      | Some (Chan n closed) \<Rightarrow> if closed then None else Some (Some (Chan n True)))"

datatype recv_pc = NotStarted | Receiving | Polling | RecvDone

record Client =
  cl_mode :: SubMode
  cl_disposed :: bool
  cl_stop :: "chan option"
  cl_polled :: "chan option"
  cl_once :: "chan option"
  cl_recv :: recv_pc

definition NewClient :: "SubMode \<Rightarrow> Client" where
  "NewClient mode = \<lparr>cl_mode = mode, cl_disposed = False, cl_stop = None, cl_polled = None, cl_once = None, cl_recv = NotStarted\<rparr>"

text \<open>\<open>Close\<close>; \<^const>\<open>None\<close> is a panic.\<close>

definition Close :: "Client \<Rightarrow> Client option" where
  "Close c =
     (if cl_disposed c then Some c
      else
        (case (closeChan (cl_stop c), closeChan (cl_polled c), closeChan (cl_once c)) of
           (Some st, Some po, Some on) \<Rightarrow> Some (c\<lparr>cl_disposed := True, cl_stop := st, cl_polled := po, cl_once := on\<rparr>)
         | _ \<Rightarrow> None))"

definition startMode :: "Client \<Rightarrow> Client" where
  "startMode c =
     (case cl_mode c of
        STREAM \<Rightarrow> c\<lparr>cl_stop := Some (Chan 0 False), cl_recv := Receiving\<rparr>
      | POLL \<Rightarrow> c\<lparr>cl_polled := Some (Chan 1 False), cl_recv := Receiving\<rparr>
      | ONCE \<Rightarrow> c\<lparr>cl_once := Some (Chan 1 False), cl_recv := Receiving\<rparr>
      | ModeOther _ \<Rightarrow> c)"

datatype event = EvPoll | EvOther | EvEOF | EvError

text \<open>One round of \<open>recv\<close> up to a send on the channel of polls.\<close>

definition recvEvent :: "event \<Rightarrow> Client \<Rightarrow> Client option" where
  "recvEvent ev c =
     (case ev of
        EvError \<Rightarrow> map_option (\<lambda>c'. c'\<lparr>cl_recv := RecvDone\<rparr>) (Close c)
      | EvEOF \<Rightarrow> map_option (\<lambda>c'. c'\<lparr>cl_recv := RecvDone\<rparr>) (Close c)
      | EvPoll \<Rightarrow> if cl_mode c = POLL then Some (c\<lparr>cl_recv := Polling\<rparr>) else Some c
      | EvOther \<Rightarrow> if cl_mode c = POLL then map_option (\<lambda>c'. c'\<lparr>cl_recv := RecvDone\<rparr>) (Close c) else Some c)"

datatype process = Alive Client | Crashed

definition orCrash :: "Client option \<Rightarrow> process" where
  "orCrash r = (case r of None \<Rightarrow> Crashed | Some c \<Rightarrow> Alive c)"

inductive client_step :: "Client \<Rightarrow> process \<Rightarrow> bool" where
  start: "cl_recv c = NotStarted \<Longrightarrow> client_step c (Alive (startMode c))"
| receive: "cl_recv c = Receiving \<Longrightarrow> client_step c (orCrash (recvEvent ev c))"
| pollSend: "cl_recv c = Polling \<Longrightarrow> cl_polled c = Some (Chan 0 False) \<Longrightarrow>
    client_step c (Alive (c\<lparr>cl_polled := Some (Chan 1 False), cl_recv := Receiving\<rparr>))"
| pollPanic: "cl_recv c = Polling \<Longrightarrow> cl_polled c = Some (Chan n True) \<Longrightarrow> client_step c Crashed"
| consume: "cl_polled c = Some (Chan (Suc n) closed) \<Longrightarrow> client_step c (Alive (c\<lparr>cl_polled := Some (Chan n closed)\<rparr>))"
| close: "client_step c (orCrash (Close c))"

inductive client_reach :: "SubMode \<Rightarrow> process \<Rightarrow> bool" for mode where
  init: "client_reach mode (Alive (NewClient mode))"
| step: "client_reach mode (Alive c) \<Longrightarrow> client_step c p \<Longrightarrow> client_reach mode p"

text \<open>
  \<open>send\<close>: each round takes an item from the queue, turns it into a response and sends it. An item is the outcome
  of \<open>Get\<close>, of \<open>ValToResp\<close> and of \<open>stream.Send\<close>. The state is the number of messages sent and of errors, with the
  calls of the data client's callbacks.
\<close>

datatype queue_item = QDisposed | QError | QValue "string option" bool | QUnknown bool

datatype callback = CbFailedSend | CbSentOne "string option"

record send_state =
  sn_sendMsg :: int
  sn_errors :: int
  sn_callbacks :: "callback list"

definition sendOne :: "string option \<Rightarrow> bool \<Rightarrow> send_state \<Rightarrow> bool \<times> send_state" where
  "sendOne val ok st =
     (let st1 = st\<lparr>sn_sendMsg := sn_sendMsg st + 1\<rparr> in
      if ok then (True, st1\<lparr>sn_callbacks := sn_callbacks st1 @ [CbSentOne val]\<rparr>)
      else (False, st1\<lparr>sn_errors := sn_errors st1 + 1, sn_callbacks := sn_callbacks st1 @ [CbFailedSend]\<rparr>))"

fun send :: "queue_item list \<Rightarrow> send_state \<Rightarrow> send_state" where
  "send [] st = st"
| "send (QDisposed # qs) st = st"
| "send (QError # qs) st = st\<lparr>sn_errors := sn_errors st + 1\<rparr>"
| "send (QValue None ok # qs) st = st\<lparr>sn_errors := sn_errors st + 1\<rparr>"
| "send (QValue (Some v) ok # qs) st =
     (case sendOne (Some v) ok st of (True, st1) \<Rightarrow> send qs st1 | (False, st1) \<Rightarrow> st1)"
| "send (QUnknown ok # qs) st =
     (case sendOne None ok (st\<lparr>sn_errors := sn_errors st + 1\<rparr>) of (True, st1) \<Rightarrow> send qs st1 | (False, st1) \<Rightarrow> st1)"

section \<open>Lemmas\<close>

inductive_cases conn_stepE: "conn_step k s s'"
inductive_cases client_stepE: "client_step c p"

lemma passing_update:
  "i < length (co_rpcs s) \<Longrightarrow>
   length (filter passed ((co_rpcs s)[i := pc])) + (if passed (co_rpcs s ! i) then 1 else 0) = passing s + (if passed pc then 1 else 0)"
  unfolding passing_def by (rule length_filter_update)

lemma length_insert_le: "length (List.insert x xs) \<le> Suc (length xs)"
  by (simp add: List.insert_def)

lemma length_remove1_le: "length (remove1 x xs) \<le> length xs"
  by (simp add: length_remove1)

definition conn_inv :: "nat \<Rightarrow> int \<Rightarrow> conn_state \<Rightarrow> bool" where
  "conn_inv k t s \<longleftrightarrow>
     cm_threshold (co_manager s) = t \<and> int (length (cm_connections (co_manager s)) + passing s) \<le> t - 1 + int k"

lemma conn_inv_step: "conn_step k s s' \<Longrightarrow> conn_inv k t s \<Longrightarrow> 0 < t \<Longrightarrow> conn_inv k t s'"
proof (induction rule: conn_step.induct)
  case (arrive s key)
  then show ?case by (simp add: conn_inv_def passing_def)
next
  case (check i s key)
  have "passing (s\<lparr>co_rpcs := (co_rpcs s)[i := Passed key]\<rparr>) = Suc (passing s)"
    using passing_update [OF check(1), of "Passed key"] check(2) by (simp add: passing_def)
  with check show ?case by (simp add: conn_inv_def addCheck_def)
next
  case (refuse i s key)
  then show ?case using passing_update [of i s Refused] by (simp add: conn_inv_def passing_def)
next
  case (insert i s key)
  have "Suc (passing (s\<lparr>co_manager := addInsert key (co_manager s), co_rpcs := (co_rpcs s)[i := Connected key]\<rparr>)) = passing s"
    using passing_update [OF insert(1), of "Connected key"] insert(2) by (simp add: passing_def)
  with insert length_insert_le [of key "cm_connections (co_manager s)"] show ?case
    by (simp add: conn_inv_def addInsert_def)
next
  case (leave i s key)
  have "passing (s\<lparr>co_manager := removeKey key (co_manager s), co_rpcs := (co_rpcs s)[i := Left]\<rparr>) = passing s"
    using passing_update [OF leave(1), of Left] leave(2) by (simp add: passing_def)
  with leave length_remove1_le [of key "cm_connections (co_manager s)"] show ?case
    by (simp add: conn_inv_def removeKey_def)
qed

lemma conn_reach_inv: "conn_reach k t s \<Longrightarrow> 0 < t \<Longrightarrow> conn_inv k t s"
  by (induction rule: conn_reach.induct) (auto simp: conn_inv_def [of _ _ "\<lparr>co_manager = _, co_rpcs = _\<rparr>"] passing_def intro: conn_inv_step)

text \<open>No channel is closed before the queue is disposed of, and only polling clients send polls.\<close>

definition chanOpen :: "chan option \<Rightarrow> bool" where
  "chanOpen ch \<longleftrightarrow> (case ch of None \<Rightarrow> True | Some (Chan _ closed) \<Rightarrow> \<not> closed)"

definition client_inv :: "SubMode \<Rightarrow> Client \<Rightarrow> bool" where
  "client_inv mode c \<longleftrightarrow>
     cl_mode c = mode \<and> (mode \<noteq> POLL \<longrightarrow> cl_recv c \<noteq> Polling)
     \<and> (\<not> cl_disposed c \<longrightarrow> chanOpen (cl_stop c) \<and> chanOpen (cl_polled c) \<and> chanOpen (cl_once c))"

lemma closeChan_open: "chanOpen ch \<Longrightarrow> \<exists>ch'. closeChan ch = Some ch'"
  by (auto simp: chanOpen_def closeChan_def split: option.splits chan.splits)

lemma Close_ok: "client_inv mode c \<Longrightarrow> \<exists>c'. Close c = Some c' \<and> client_inv mode c' \<and> cl_recv c' = cl_recv c \<and> cl_disposed c'"
  using closeChan_open [of "cl_stop c"] closeChan_open [of "cl_polled c"] closeChan_open [of "cl_once c"]
  by (auto simp: Close_def client_inv_def)

lemma recvEvent_ok: "client_inv mode c \<Longrightarrow> \<exists>c'. recvEvent ev c = Some c' \<and> client_inv mode c'"
  using Close_ok [of mode c] by (cases ev) (auto simp: recvEvent_def client_inv_def)

lemma client_inv_step:
  assumes "client_step c p" and "client_inv mode c"
  shows "(p = Crashed \<longrightarrow> mode = POLL) \<and> (\<forall>c'. p = Alive c' \<longrightarrow> client_inv mode c')"
  using assms
proof (cases rule: client_step.cases)
  case start
  with assms(2) show ?thesis
    by (auto simp: startMode_def client_inv_def chanOpen_def split: SubMode.splits)
next
  case (receive ev)
  with recvEvent_ok [OF assms(2), of ev] show ?thesis by (auto simp: orCrash_def)
next
  case close
  with Close_ok [OF assms(2)] show ?thesis by (auto simp: orCrash_def)
qed (use assms(2) in \<open>auto simp: client_inv_def chanOpen_def\<close>)

lemma client_reach_inv:
  "client_reach mode p \<Longrightarrow> (p = Crashed \<longrightarrow> mode = POLL) \<and> (\<forall>c. p = Alive c \<longrightarrow> client_inv mode c)"
proof (induction rule: client_reach.induct)
  case init
  then show ?case by (simp add: client_inv_def NewClient_def chanOpen_def)
next
  case (step c p)
  then show ?case using client_inv_step by blast
qed

text \<open>A poll that arrives, then a \<open>Close\<close>, then the send on the channel.\<close>

lemma poll_crash: "client_reach POLL Crashed"
proof -
  let ?c1 = "startMode (NewClient POLL)"
  let ?c2 = "?c1\<lparr>cl_recv := Polling\<rparr>"
  let ?c3 = "?c2\<lparr>cl_disposed := True, cl_polled := Some (Chan 1 True)\<rparr>"
  have "client_reach POLL (Alive ?c1)"
    by (rule client_reach.step [OF client_reach.init client_step.start]) (simp add: NewClient_def)
  moreover have "client_step ?c1 (orCrash (recvEvent EvPoll ?c1))"
    by (rule client_step.receive) (simp add: NewClient_def startMode_def)
  then have "client_step ?c1 (Alive ?c2)"
    by (simp add: orCrash_def recvEvent_def NewClient_def startMode_def)
  ultimately have "client_reach POLL (Alive ?c2)" by (rule client_reach.step)
  moreover have "client_step ?c2 (Alive ?c3)"
    using client_step.close [of ?c2]
    by (simp add: orCrash_def Close_def closeChan_def NewClient_def startMode_def)
  ultimately have "client_reach POLL (Alive ?c3)" by (rule client_reach.step)
  moreover have "client_step ?c3 Crashed" by (rule client_step.pollPanic) simp_all
  ultimately show ?thesis by (rule client_reach.step)
qed

lemma removeConn_gone:
  "ss_manager s = Some cm \<Longrightarrow> distinct (cm_connections cm) \<Longrightarrow>
     \<exists>cm'. ss_manager (removeConn (Some key) s) = Some cm' \<and> key \<notin> set (cm_connections cm')"
  by (auto simp: removeConn_def Remove_def removeKey_def Let_def)

lemma startClient_started:
  assumes "startClient e ctx sl exts origin paths s = (Started dc mode, s')"
  obtains t where "subClient e ctx (cfg_LogLevel (srv_config (ss_server s))) sl exts origin paths = Inr (t, Inr dc)"
    "fst (authRequest (se_rpc e) ctx t False (ss_server s)) = None" "mode = sl_Mode sl"
  using assms
  by (auto simp: startClient_def split: sum.splits prod.splits option.splits SubMode.splits)

section \<open>An example\<close>

text \<open>A client on the Unix socket that subscribes to an OpenConfig path.\<close>

definition localCtx :: ReqCtx where
  "localCtx = \<lparr>ctx_peer = Some \<lparr>peer_isUnix = True, peer_TLS = None\<rparr>, ctx_md = None\<rparr>"

definition idleClient :: DataClient where
  "idleClient = \<lparr>dc_Get = (\<lambda>w. (Inr [], w)), dc_Set = (\<lambda>d r u w. (None, w)), dc_Capabilities = []\<rparr>"

definition subEnvEx :: sub_env where
  "subEnvEx = \<lparr>se_rpc = rpcEnvEx, se_NewEventClient = (\<lambda>ps p l. Inl []), se_NewTranslClient = (\<lambda>p ps c x. Inr idleClient),
     se_text = (\<lambda>q. []), se_stamp = [], se_addrKnown = False, se_rngK = id\<rparr>"

definition subStateEx :: sub_state where
  "subStateEx = \<lparr>ss_server = serverEx, ss_manager = None, ss_rclient = False, ss_clients = []\<rparr>"

definition countersQuery :: SubscribeRequest where
  "countersQuery = \<lparr>rq_Subscribe = Some \<lparr>sl_Prefix = Some \<lparr>path_origin = ''openconfig'', path_target = [], path_elem = []\<rparr>,
      sl_Subscription = [Some \<lparr>path_origin = [], path_target = [], path_elem = [elemN ''interfaces'']\<rparr>], sl_Mode = STREAM\<rparr>,
      rq_Extension = []\<rparr>"

lemma localCtx_unix: "authRequest e localCtx t wr s = (None, s\<lparr>srv_crls := srv_crls s\<rparr>)"
  by (simp add: authRequest_def authenticate_def localCtx_def)

section \<open>Properties\<close>

text \<open>
  C19. A subscription whose data client starts was authenticated for the role prefix that goes with the client,
  and its key is among the connections.
\<close>

theorem subscribe_authorized:
  assumes "runSetup e ctx addr msg cm s = (Started dc mode, key, s')"
  shows "\<exists>query sl origin t.
           msg = RecvMsg query \<and> rq_Subscribe query = Some sl \<and> mode = sl_Mode sl
           \<and> subOrigin (case sl_Prefix sl of None \<Rightarrow> [] | Some p \<Rightarrow> path_origin p) (sl_Subscription sl) = Some (Inr origin)
           \<and> subClient e ctx (cfg_LogLevel (srv_config (ss_server s))) sl (rq_Extension query) origin (map the (sl_Subscription sl))
             = Inr (t, Inr dc)
           \<and> fst (authRequest (se_rpc e) ctx t False (ss_server s)) = None
           \<and> addCheck cm \<and> key = Some (createKey addr (se_text e query) (se_stamp e))"
proof -
  from assms obtain query sl paths origin w1 where
    m: "msg = RecvMsg query" "rq_Subscribe query = Some sl" "paths = sl_Subscription sl"
        "subOrigin (case sl_Prefix sl of None \<Rightarrow> [] | Some p \<Rightarrow> path_origin p) paths = Some (Inr origin)"
      and a: "addCheck cm" "key = Some (createKey addr (se_text e query) (se_stamp e))"
      and st: "startClient e ctx sl (rq_Extension query) origin (map the paths)
             ((setHost w1 s)\<lparr>ss_manager := Some (addInsert (createKey addr (se_text e query) (se_stamp e)) cm)\<rparr>) = (Started dc mode, s')"
    by (auto simp: runSetup_def populateDbPathSubscrition_def Add_def Let_def split: recv.splits option.splits sum.splits if_splits prod.splits)
  from st obtain t where t: "subClient e ctx (cfg_LogLevel (srv_config (ss_server s))) sl (rq_Extension query) origin (map the paths) = Inr (t, Inr dc)"
      "fst (authRequest (se_rpc e) ctx t False ((ss_server s)\<lparr>srv_host := w1\<rparr>)) = None" "mode = sl_Mode sl"
    by (rule startClient_started) (simp add: setHost_def)
  then have "fst (authRequest (se_rpc e) ctx t False (ss_server s)) = None"
    using authRequest_cong [of "(ss_server s)\<lparr>srv_host := w1\<rparr>" "ss_server s" "se_rpc e" ctx t False] by simp
  with m a t show ?thesis by blast
qed

theorem subscribe_authorized_witness:
  "\<exists>dc key s'. runSetup subEnvEx localCtx ''@'' (RecvMsg countersQuery) \<lparr>cm_connections = [], cm_threshold = 1\<rparr> subStateEx
       = (Started dc STREAM, key, s')
     \<and> fst (authRequest rpcEnvEx localCtx ''gnmi'' False serverEx) = None"
proof -
  let ?run = "runSetup subEnvEx localCtx ''@'' (RecvMsg countersQuery) \<lparr>cm_connections = [], cm_threshold = 1\<rparr> subStateEx"
  obtain dc key s' where run: "?run = (Started dc STREAM, key, s')"
    by (auto simp: runSetup_def populateDbPathSubscrition_def subOrigin_def Add_def addCheck_def startClient_def subClient_def
          countersQuery_def subStateEx_def subEnvEx_def localCtx_unix pathN_def IsNativeOrigin_def Let_def setHost_def
          storeKeyRedis_def serverEx_def certConfig_def rpcEnvEx_def)
  from subscribe_authorized [OF run] obtain query sl origin t where
    "RecvMsg countersQuery = RecvMsg query" "rq_Subscribe query = Some sl" "STREAM = sl_Mode sl"
    "subClient subEnvEx localCtx (cfg_LogLevel (srv_config (ss_server subStateEx))) sl (rq_Extension query) origin
       (map the (sl_Subscription sl)) = Inr (t, Inr dc)"
    and a: "fst (authRequest (se_rpc subEnvEx) localCtx t False (ss_server subStateEx)) = None"
    by blast
  then show ?thesis using run localCtx_unix by (auto simp: subEnvEx_def subStateEx_def)
qed

text \<open>
  C20. With a threshold, there are never more connections than the threshold allows plus the RPCs that can be
  between the check and the insertion at once, less one: if checks do not overlap (\<open>k = 1\<close>) the threshold holds.
\<close>

theorem connections_bounded:
  assumes "conn_reach k t s" and "0 < t"
  shows "int (length (cm_connections (co_manager s))) \<le> t + int k - 1"
  using conn_reach_inv [OF assms] by (simp add: conn_inv_def)

theorem connections_bounded_witness:
  "\<exists>s. conn_reach 2 1 s \<and> length (cm_connections (co_manager s)) = 2
       \<and> int (length (cm_connections (co_manager s))) \<le> 1 + int 2 - 1"
proof -
  let ?m = "\<lambda>xs. \<lparr>cm_connections = xs, cm_threshold = 1\<rparr>"
  let ?st = "\<lambda>xs pcs. \<lparr>co_manager = ?m xs, co_rpcs = pcs\<rparr>"
  have 1: "conn_reach 2 1 (?st [] [Arriving ''a'', Arriving ''b''])"
    using conn_reach.step [OF conn_reach.step [OF conn_reach.init conn_step.arrive] conn_step.arrive] by simp
  have 2: "conn_reach 2 1 (?st [] [Passed ''a'', Arriving ''b''])"
    using conn_step.check [of 0 "?st [] [Arriving ''a'', Arriving ''b'']" "''a''" 2]
    by (intro conn_reach.step [OF 1]) (simp add: addCheck_def passing_def)
  have 3: "conn_reach 2 1 (?st [] [Passed ''a'', Passed ''b''])"
    using conn_step.check [of 1 "?st [] [Passed ''a'', Arriving ''b'']" "''b''" 2]
    by (intro conn_reach.step [OF 2]) (simp add: addCheck_def passing_def)
  have 4: "conn_reach 2 1 (?st [''a''] [Connected ''a'', Passed ''b''])"
    using conn_step.insert [of 0 "?st [] [Passed ''a'', Passed ''b'']" "''a''" 2]
    by (intro conn_reach.step [OF 3]) (simp add: addInsert_def)
  have 5: "conn_reach 2 1 (?st [''b'', ''a''] [Connected ''a'', Connected ''b''])"
    using conn_step.insert [of 1 "?st [''a''] [Connected ''a'', Passed ''b'']" "''b''" 2]
    by (intro conn_reach.step [OF 4]) (simp add: addInsert_def)
  from connections_bounded [OF 5] 5 show ?thesis by (intro exI [of _ "?st [''b'', ''a''] [Connected ''a'', Connected ''b'']"]) simp
qed

text \<open>
  A running client can end the process exactly when it polls: no channel is closed twice, but a poll received
  around a \<open>Close\<close> is sent on a closed channel.
\<close>

theorem client_crashes_iff_polling: "client_reach mode Crashed \<longleftrightarrow> mode = POLL"
  using client_reach_inv [of mode Crashed] poll_crash by blast

end
