(* ===== verification/Authz_Server.thy ===== *)
theory Authz_Server
  imports Host Json "HOL-Library.Word"
begin

text \<open>
  The gNSI authz service of \<^verbatim>\<open>gnmi_server/gnsi_authz.go\<close>, which rotates the gRPC authorization policy: the
  policy is a file, and its version and date are in a metadata file and in two tables of the state database.

  \<open>srv.gnsiAuthz\<close> is the server itself, so reading the version through it reads the server's metadata. The
  checkpoint copies the metadata by value. A stream is the list of what \<open>Recv\<close> gives, each with whether
  sending the reply succeeds; after the last comes the end of the stream.
\<close>

section \<open>State\<close>

record AuthzMetadata =
  AuthzVersion :: string
  AuthzCreatedOn :: string

record GNSIAuthzServer =
  az_metadata :: AuthzMetadata
  az_metadataCopy :: AuthzMetadata
  az_policyFile :: string
  az_metaFile :: string

definition backupExt :: string where "backupExt = ''.bak''"
definition authzP4rtTbl :: string where "authzP4rtTbl = ''AUTHZ_POLICY|p4rt''"
definition authzGnxiTbl :: string where "authzGnxiTbl = ''AUTHZ_POLICY|gnxi''"
definition authzVersionFld :: string where "authzVersionFld = ''authz_version''"
definition authzCreatedOnFld :: string where "authzCreatedOnFld = ''authz_created_on''"

definition NewAuthzMetadata :: AuthzMetadata where
  "NewAuthzMetadata = \<lparr>AuthzVersion = ''unknown'', AuthzCreatedOn = ''0''\<rparr>"

definition az_backup :: "GNSIAuthzServer \<Rightarrow> string" where
  "az_backup srv = az_policyFile srv @ backupExt"

record AuthzUpload =
  au_version :: string
  au_createdOn :: "64 word"
  au_policy :: string

datatype AuthzRequest = AuthzUploadReq AuthzUpload bool | AuthzFinalize | AuthzUnset

datatype authz_event = AuthzRecv AuthzRequest bool | AuthzRecvError

datatype authz_error =
    AzNotAuthenticated | AzConcurrent | AzNoFinalize | AzReceiveFailed | AzSendFailed
  | AzUnknownRequest | AzEmptyPolicy | AzEmptyVersion | AzMalformed | AzFileMissing
  | AzVersionExists string | AzDbFailed | AzSaveFailed

section \<open>Metadata\<close>

definition setAuthzField :: "string \<Rightarrow> string \<Rightarrow> AuthzMetadata \<Rightarrow> AuthzMetadata" where
  "setAuthzField fld val m =
     (if fld = authzVersionFld then m\<lparr>AuthzVersion := val\<rparr>
      else if fld = authzCreatedOnFld then m\<lparr>AuthzCreatedOn := val\<rparr>
      else m)"

definition writeAuthzMetadataToDB ::
  "string \<Rightarrow> string \<Rightarrow> GNSIAuthzServer \<Rightarrow> world \<Rightarrow> bool \<times> GNSIAuthzServer \<times> world" where
  "writeAuthzMetadataToDB fld val srv w =
     (case writeCredentialsMetadataToDB authzP4rtTbl '''' fld val w of
        (False, w1) \<Rightarrow> (False, srv, w1)
      | (True, w1) \<Rightarrow>
          (case writeCredentialsMetadataToDB authzGnxiTbl '''' fld val w1 of
             (False, w2) \<Rightarrow> (False, srv, w2)
           | (True, w2) \<Rightarrow> (True, srv\<lparr>az_metadata := setAuthzField fld val (az_metadata srv)\<rparr>, w2)))"

definition checkpointAuthzFreshness :: "GNSIAuthzServer \<Rightarrow> GNSIAuthzServer" where
  "checkpointAuthzFreshness srv = srv\<lparr>az_metadataCopy := az_metadata srv\<rparr>"

text \<open>Both writes are tried; their errors are dropped.\<close>

definition revertAuthzFileFreshness :: "GNSIAuthzServer \<Rightarrow> world \<Rightarrow> GNSIAuthzServer \<times> world" where
  "revertAuthzFileFreshness srv w =
     (case writeAuthzMetadataToDB authzVersionFld (AuthzVersion (az_metadataCopy srv)) srv w of
        (_, srv1, w1) \<Rightarrow>
          snd (writeAuthzMetadataToDB authzCreatedOnFld (AuthzCreatedOn (az_metadataCopy srv1)) srv1 w1))"

definition authzFields :: "AuthzMetadata \<Rightarrow> string gomap" where
  "authzFields m = [(authzVersionFld, AuthzVersion m), (authzCreatedOnFld, AuthzCreatedOn m)]"

definition authzOfFields :: "string gomap \<Rightarrow> AuthzMetadata" where
  "authzOfFields fs =
     \<lparr>AuthzVersion = the (map_of fs authzVersionFld), AuthzCreatedOn = the (map_of fs authzCreatedOnFld)\<rparr>"

definition saveAuthzFileFreshess :: "string \<Rightarrow> GNSIAuthzServer \<Rightarrow> world \<Rightarrow> bool \<times> world" where
  "saveAuthzFileFreshess path srv w = attemptWrite path (encodeStrings (authzFields (az_metadata srv))) w"

definition loadAuthzFreshness :: "string \<Rightarrow> GNSIAuthzServer \<Rightarrow> world \<Rightarrow> bool \<times> GNSIAuthzServer \<times> world" where
  "loadAuthzFreshness path srv w =
     (case osReadFile path w of
        (None, w1) \<Rightarrow> (False, srv, w1)
      | (Some bytes, w1) \<Rightarrow>
          (case decodeStrings bytes (authzFields (az_metadata srv)) of
             (ok, fs) \<Rightarrow> (ok, srv\<lparr>az_metadata := authzOfFields fs\<rparr>, w1)))"

definition NewGNSIAuthzServer :: "string \<Rightarrow> string \<Rightarrow> world \<Rightarrow> GNSIAuthzServer \<times> world" where
  "NewGNSIAuthzServer policyFile metaFile w =
     (let ret = \<lparr>az_metadata = NewAuthzMetadata, az_metadataCopy = \<lparr>AuthzVersion = '''', AuthzCreatedOn = ''''\<rparr>,
                 az_policyFile = policyFile, az_metaFile = metaFile\<rparr>
      in case loadAuthzFreshness metaFile ret w of
           (_, ret1, w1) \<Rightarrow>
             (let ret2 = checkpointAuthzFreshness ret1 in
              case writeAuthzMetadataToDB authzVersionFld (AuthzVersion (az_metadata ret2)) ret2 w1 of
                (_, ret3, w2) \<Rightarrow>
                  snd (writeAuthzMetadataToDB authzCreatedOnFld (AuthzCreatedOn (az_metadata ret3)) ret3 w2)))"

section \<open>The policy file\<close>

definition saveToAuthzFile :: "string \<Rightarrow> GNSIAuthzServer \<Rightarrow> world \<Rightarrow> bool \<times> world" where
  "saveToAuthzFile p srv w =
     (case osCreateTemp (az_policyFile srv) w of
        (None, w1) \<Rightarrow> (False, w1)
      | (Some tmp, w1) \<Rightarrow> finishTemp tmp p (az_policyFile srv) w1)"

definition checkpointAuthzFile :: "GNSIAuthzServer \<Rightarrow> world \<Rightarrow> bool \<times> world" where
  "checkpointAuthzFile srv w = copyFile (az_policyFile srv) (az_backup srv) w"

definition commitAuthzFileChanges :: "GNSIAuthzServer \<Rightarrow> world \<Rightarrow> bool \<times> world" where
  "commitAuthzFileChanges srv w =
     (case osStat (az_policyFile srv) w of
        (Some (Regular _), w1) \<Rightarrow>
          (case osStat (az_backup srv) w1 of
             (None, w2) \<Rightarrow> (True, w2)
           | (Some (Regular _), w2) \<Rightarrow> osRemove (az_backup srv) w2
           | (Some _, w2) \<Rightarrow> (False, w2))
      | (_, w1) \<Rightarrow> (False, w1))"

section \<open>The RPC\<close>

definition Authz_processRotateRequest ::
  "AuthzRequest \<Rightarrow> GNSIAuthzServer \<Rightarrow> world \<Rightarrow> authz_error option \<times> GNSIAuthzServer \<times> world" where
  "Authz_processRotateRequest req srv w =
     (case req of
        AuthzUploadReq up force \<Rightarrow>
          if au_policy up = '''' then (Some AzEmptyPolicy, srv, w)
          else if au_version up = '''' then (Some AzEmptyVersion, srv, w)
          else if \<not> jsonValid (au_policy up) then (Some AzMalformed, srv, w)
          else
            (case fileCheck (az_policyFile srv) w of
               (False, w1) \<Rightarrow> (Some AzFileMissing, srv, w1)
             | (True, w1) \<Rightarrow>
                 if AuthzVersion (az_metadata srv) = au_version up \<and> \<not> force
                 then (Some (AzVersionExists (au_version up)), srv, w1)
                 else
                   (case writeAuthzMetadataToDB authzVersionFld (au_version up) srv w1 of
                      (False, srv1, w2) \<Rightarrow> (Some AzDbFailed, srv1, w2)
                    | (True, srv1, w2) \<Rightarrow>
                        (case writeAuthzMetadataToDB authzCreatedOnFld (formatUint (unat (au_createdOn up))) srv1 w2 of
                           (False, srv2, w3) \<Rightarrow> (Some AzDbFailed, srv2, w3)
                         | (True, srv2, w3) \<Rightarrow>
                             (case saveToAuthzFile (au_policy up) srv2 w3 of
                                (False, w4) \<Rightarrow> (Some AzSaveFailed, srv2, w4)
                              | (True, w4) \<Rightarrow> (None, srv2, w4)))))
      | _ \<Rightarrow> (Some AzUnknownRequest, srv, w))"

definition revertAuthz :: "GNSIAuthzServer \<Rightarrow> world \<Rightarrow> GNSIAuthzServer \<times> world" where
  "revertAuthz srv w = revertAuthzFileFreshness srv (snd (copyFile (az_backup srv) (az_policyFile srv) w))"

fun Authz_loop :: "authz_event list \<Rightarrow> GNSIAuthzServer \<Rightarrow> world \<Rightarrow> authz_error option \<times> GNSIAuthzServer \<times> world" where
  "Authz_loop [] srv w = (Some AzNoFinalize, revertAuthz srv w)"
| "Authz_loop (AuthzRecvError # evs) srv w = (Some AzReceiveFailed, revertAuthz srv w)"
| "Authz_loop (AuthzRecv AuthzFinalize ok # evs) srv w =
     (None, srv, snd (saveAuthzFileFreshess (az_metaFile srv) srv (snd (commitAuthzFileChanges srv w))))"
| "Authz_loop (AuthzRecv req ok # evs) srv w =
     (case Authz_processRotateRequest req srv w of
        (Some e, srv1, w1) \<Rightarrow> (Some e, revertAuthz srv1 w1)
      | (None, srv1, w1) \<Rightarrow>
          if ok then Authz_loop evs srv1 w1 else (Some AzSendFailed, revertAuthz srv1 w1))"

text \<open>\<open>authOk\<close> is what \<open>authenticate\<close> says of the caller, \<open>locked\<close> whether another session holds \<open>authzMu\<close>.\<close>

definition Authz_Rotate ::
  "bool \<Rightarrow> bool \<Rightarrow> authz_event list \<Rightarrow> GNSIAuthzServer \<Rightarrow> world \<Rightarrow> authz_error option \<times> GNSIAuthzServer \<times> world" where
  "Authz_Rotate authOk locked evs srv w =
     (if \<not> authOk then (Some AzNotAuthenticated, srv, w)
      else if locked then (Some AzConcurrent, srv, w)
      else
        (let srv1 = checkpointAuthzFreshness srv in
         Authz_loop evs srv1 (snd (checkpointAuthzFile srv1 w))))"

section \<open>Lemmas: any faults\<close>

definition holds :: "(string \<Rightarrow> bool) \<Rightarrow> world \<Rightarrow> string \<Rightarrow> bool" where
  "holds P w p \<longleftrightarrow> (case map_of (w_files w) p of None \<Rightarrow> True | Some (Regular c) \<Rightarrow> P c | _ \<Rightarrow> False)"

lemma holds_cases:
  assumes "holds P w p"
  obtains "map_of (w_files w) p = None" | c where "map_of (w_files w) p = Some (Regular c)" "P c"
  using assms by (auto simp: holds_def split: option.splits fnode.splits)

lemma holds_cong: "map_of (w_files w') p = map_of (w_files w) p \<Longrightarrow> holds P w' p = holds P w p"
  by (simp add: holds_def)

lemma hasPrefix_tempName [simp]: "hasPrefix (tempName fs p) p"
  by (simp add: tempName_def)

lemma tempName_not_backup [simp]: "tempName fs p \<noteq> p @ backupExt"
  by (simp add: tempName_def backupExt_def)

text \<open>\<open>frame w dst w'\<close>: files whose names do not start with \<open>dst\<close> are as they were, and so is the database.\<close>

definition frame :: "world \<Rightarrow> string \<Rightarrow> world \<Rightarrow> bool" where
  "frame w dst w' \<longleftrightarrow> (\<forall>q. \<not> hasPrefix q dst \<longrightarrow> map_of (w_files w') q = map_of (w_files w) q)"

lemma replaced_frame: "replaced w tmp dst c ok w' \<Longrightarrow> hasPrefix tmp dst \<Longrightarrow> frame w dst w'"
  by (auto simp: replaced_def frame_def hasPrefix_def)

lemma copyFile_holds:
  assumes "copyFile src dst w = (ok, w')" and "holds P w src" and "holds P w dst" and "src \<noteq> dst"
  shows "holds P w' src \<and> holds P w' dst \<and> frame w dst w' \<and> map_of (w_files w') src = map_of (w_files w) src
         \<and> (map_of (w_files w) dst \<noteq> None \<longrightarrow> map_of (w_files w') dst \<noteq> None)"
  using copyFile_replaced [OF assms(1)]
proof (elim disjE exE conjE)
  fix c
  assume st: "statNode (w_files w) src = Some (Regular c)"
    and rep: "replaced w (tempName (w_files w) dst) dst c ok w'"
  from assms(2) st have src: "map_of (w_files w) src = Some (Regular c)" "P c"
    by (auto elim!: holds_cases simp: statNode_def resolve_plain)
  then have "src \<noteq> tempName (w_files w) dst" by auto
  with rep assms(4) have "map_of (w_files w') src = map_of (w_files w) src" by (simp add: replaced_def)
  moreover have "holds P w' dst" "map_of (w_files w) dst \<noteq> None \<longrightarrow> map_of (w_files w') dst \<noteq> None"
    using rep src assms(3) by (auto simp: replaced_def holds_def)
  ultimately show ?thesis using rep assms(2) replaced_frame [OF rep] holds_cong [of w' src w P] by simp
next
  assume "w_files w' = w_files w"
  with assms show ?thesis by (simp add: holds_def frame_def)
qed

lemma saveToAuthzFile_holds:
  assumes "saveToAuthzFile p srv w = (ok, w')" and "holds P w (az_policyFile srv)" and "P p"
  shows "holds P w' (az_policyFile srv) \<and> map_of (w_files w') (az_backup srv) = map_of (w_files w) (az_backup srv)
         \<and> frame w (az_policyFile srv) w'
         \<and> (map_of (w_files w) (az_policyFile srv) \<noteq> None \<longrightarrow> map_of (w_files w') (az_policyFile srv) \<noteq> None)"
proof -
  let ?dst = "az_policyFile srv"
  obtain t w1 where 1: "osCreateTemp ?dst w = (t, w1)" by force
  show ?thesis
  proof (cases t)
    case None
    with assms 1 osCreateTemp_frame(2) [of ?dst w w1] show ?thesis
      by (simp add: saveToAuthzFile_def holds_def frame_def)
  next
    case (Some tmp)
    have t: "tmp = tempName (w_files w) ?dst" "\<forall>q. q \<noteq> tmp \<longrightarrow> map_of (w_files w1) q = map_of (w_files w) q"
      using osCreateTemp_frame(1) [of ?dst w tmp w1] 1 Some by auto
    have "finishTemp tmp p ?dst w1 = (ok, w')" using assms(1) 1 Some by (simp add: saveToAuthzFile_def)
    then have rep: "replaced w1 tmp ?dst p ok w'" by (rule finishTemp_replaced) (simp add: t)
    have "tmp \<noteq> ?dst" "tmp \<noteq> az_backup srv" "az_backup srv \<noteq> ?dst"
      by (simp_all add: t az_backup_def) (simp add: backupExt_def)
    moreover have "hasPrefix tmp ?dst" by (simp add: t)
    ultimately show ?thesis
      using rep t(2) assms(2,3) replaced_frame [OF rep]
      by (auto simp: replaced_def holds_def frame_def)
  qed
qed

lemma writeDB_files: "w_files (snd (writeCredentialsMetadataToDB tbl key fld val w)) = w_files w"
  by (rule nextFault_cases [of w])
    (simp add: writeCredentialsMetadataToDB_def Let_def split_beta)

lemma writeAuthz_any:
  "writeAuthzMetadataToDB fld val srv w = (ok, srv', w') \<Longrightarrow>
     w_files w' = w_files w \<and> (\<exists>m. srv' = srv\<lparr>az_metadata := m\<rparr>)"
  using writeDB_files [of authzP4rtTbl "[]" fld val w]
    writeDB_files [of authzGnxiTbl "[]" fld val "snd (writeCredentialsMetadataToDB authzP4rtTbl [] fld val w)"]
  by (auto simp: writeAuthzMetadataToDB_def split: prod.splits bool.splits)
    (metis GNSIAuthzServer.surjective GNSIAuthzServer.update_convs(1))+

lemma revertFreshness_any:
  assumes "revertAuthzFileFreshness srv w = (srv', w')"
  shows "w_files w' = w_files w \<and> (\<exists>m. srv' = srv\<lparr>az_metadata := m\<rparr>)"
proof -
  obtain ok1 srv1 w1 where 1: "writeAuthzMetadataToDB authzVersionFld (AuthzVersion (az_metadataCopy srv)) srv w = (ok1, srv1, w1)"
    by (metis prod_cases3)
  obtain ok2 srv2 w2 where 2: "writeAuthzMetadataToDB authzCreatedOnFld (AuthzCreatedOn (az_metadataCopy srv1)) srv1 w1 = (ok2, srv2, w2)"
    by (metis prod_cases3)
  from assms 1 2 have "srv' = srv2" "w' = w2" by (simp_all add: revertAuthzFileFreshness_def)
  with writeAuthz_any [OF 1] writeAuthz_any [OF 2] show ?thesis by auto
qed

lemma attemptWrite_frame:
  assumes "attemptWrite p d w = (ok, w')" and "\<And>q. map_of (w_files w) p \<noteq> Some (Symlink q)" and "q \<noteq> p"
  shows "map_of (w_files w') q = map_of (w_files w) q"
proof -
  obtain ok1 w1 where 1: "osWriteFile p d w = (ok1, w1)" by force
  have "map_of (w_files w1) q = map_of (w_files w) q"
    using 1 resolve_plain [OF assms(2), of 40] assms(3)
    by (auto simp: osWriteFile_def putFile_def nextFault_def split: list.splits fault.splits if_splits)
  moreover have "map_of (w_files (snd (osRemove p w1))) q = map_of (w_files w1) q"
    using osRemove_frame [of p w1] assms(3) by (cases "osRemove p w1") auto
  ultimately show ?thesis using assms(1) 1 by (auto simp: attemptWrite_def split: bool.splits)
qed

lemma attemptWrite_self:
  assumes "attemptWrite p d w = (ok, w')" and "\<And>q. map_of (w_files w) p \<noteq> Some (Symlink q)"
  shows "map_of (w_files w') p = map_of (w_files w) p \<or> map_of (w_files w') p = None \<or> (\<exists>c. map_of (w_files w') p = Some (Regular c))"
proof -
  obtain ok1 w1 where 1: "osWriteFile p d w = (ok1, w1)" by force
  have "map_of (w_files w1) p = map_of (w_files w) p \<or> (\<exists>c. map_of (w_files w1) p = Some (Regular c))"
    using 1 resolve_plain [OF assms(2), of 40]
    by (auto simp: osWriteFile_def putFile_def nextFault_def split: list.splits fault.splits if_splits)
  moreover have "map_of (w_files (snd (osRemove p w1))) p \<in> {None, map_of (w_files w1) p}"
    by (auto simp: osRemove_def dropFile_def nextFault_def split: list.splits)
  ultimately show ?thesis using assms(1) 1 by (auto simp: attemptWrite_def split: bool.splits)
qed

text \<open>What holds of the files of a server all through a session.\<close>

definition filesOk :: "GNSIAuthzServer \<Rightarrow> world \<Rightarrow> bool" where
  "filesOk srv w \<longleftrightarrow>
     map_of (w_files w) (az_policyFile srv) \<noteq> None \<and> holds jsonValid w (az_policyFile srv) \<and> holds jsonValid w (az_backup srv)
     \<and> (\<forall>q. map_of (w_files w) (az_metaFile srv) \<noteq> Some (Symlink q))
     \<and> \<not> hasPrefix (az_metaFile srv) (az_policyFile srv)"

lemma filesOk_files: "w_files w' = w_files w \<Longrightarrow> filesOk (srv\<lparr>az_metadata := m\<rparr>) w' = filesOk srv w"
  by (simp add: filesOk_def holds_def az_backup_def)

lemma backup_neq [simp]: "az_backup srv \<noteq> az_policyFile srv" "az_policyFile srv \<noteq> az_backup srv"
  by (simp_all add: az_backup_def backupExt_def)

lemma not_prefix_backup: "\<not> hasPrefix q (az_policyFile srv) \<Longrightarrow> \<not> hasPrefix q (az_backup srv)"
  by (auto simp: az_backup_def hasPrefix_iff)

lemma checkpoint_filesOk:
  assumes "filesOk srv w" shows "filesOk srv (snd (checkpointAuthzFile srv w))"
proof -
  obtain ok w' where run: "copyFile (az_policyFile srv) (az_backup srv) w = (ok, w')" by force
  from assms copyFile_holds [OF run, of jsonValid] not_prefix_backup [of "az_metaFile srv" srv]
  show ?thesis by (simp add: checkpointAuthzFile_def run filesOk_def frame_def)
qed

lemma revert_filesOk:
  assumes "filesOk srv w" and "revertAuthz srv w = (srv', w')"
  shows "filesOk srv' w'"
proof -
  obtain ok w1 where run: "copyFile (az_backup srv) (az_policyFile srv) w = (ok, w1)" by force
  from assms(1) copyFile_holds [OF run, of jsonValid] have "filesOk srv w1"
    by (simp add: filesOk_def frame_def)
  with assms(2) run revertFreshness_any [of srv w1 srv' w'] show ?thesis
    by (auto simp: revertAuthz_def filesOk_files)
qed

lemma revertAuthz_policyFile: "az_policyFile (fst (revertAuthz srv w)) = az_policyFile srv"
  using revertFreshness_any [of srv "snd (copyFile (az_backup srv) (az_policyFile srv) w)"]
  by (cases "revertAuthz srv w") (auto simp: revertAuthz_def)

lemma process_filesOk:
  assumes "filesOk srv w" and "Authz_processRotateRequest req srv w = (r, srv', w')"
  shows "filesOk srv' w' \<and> az_policyFile srv' = az_policyFile srv"
proof (cases req)
  case (AuthzUploadReq up force)
  obtain ok1 w1 where 1: "fileCheck (az_policyFile srv) w = (ok1, w1)" by force
  obtain ok2 srv2 w2 where 2: "writeAuthzMetadataToDB authzVersionFld (au_version up) srv w1 = (ok2, srv2, w2)"
    by (metis prod_cases3)
  obtain ok3 srv3 w3 where 3: "writeAuthzMetadataToDB authzCreatedOnFld (formatUint (unat (au_createdOn up))) srv2 w2 = (ok3, srv3, w3)"
    by (metis prod_cases3)
  obtain ok4 w4 where 4: "saveToAuthzFile (au_policy up) srv3 w3 = (ok4, w4)" by force
  from fileCheck_any [OF 1] have f1: "w_files w1 = w_files w" by simp
  from writeAuthz_any [OF 2] f1 obtain m2 where f2: "w_files w2 = w_files w" "srv2 = srv\<lparr>az_metadata := m2\<rparr>" by auto
  from writeAuthz_any [OF 3] f2 obtain m3 where f3: "w_files w3 = w_files w" "srv3 = srv\<lparr>az_metadata := m3\<rparr>" by auto
  have ok: "filesOk srv w1" "filesOk srv2 w2" "filesOk srv3 w3"
    using assms(1) f1 f2 f3 by (simp_all add: filesOk_files) (simp add: filesOk_def holds_def)
  have ok4: "filesOk srv3 w4" if "jsonValid (au_policy up)"
    using saveToAuthzFile_holds [OF 4, of jsonValid] that ok(3) holds_cong [of w4 "az_backup srv3" w3 jsonValid]
    by (simp add: filesOk_def frame_def)
  have "srv' = srv \<and> w' \<in> {w, w1} \<or> srv' = srv2 \<and> w' = w2 \<or> srv' = srv3 \<and> w' = w3
        \<or> srv' = srv3 \<and> w' = w4 \<and> jsonValid (au_policy up)"
    using assms(2)
    by (auto simp: Authz_processRotateRequest_def AuthzUploadReq 1 2 3 4 split: if_splits bool.splits)
  with assms(1) ok ok4 f2 f3 show ?thesis by auto
qed (use assms in \<open>auto simp: Authz_processRotateRequest_def\<close>)

lemma commit_any:
  assumes "commitAuthzFileChanges srv w = (ok, w')"
  shows "w_db w' = w_db w \<and> (\<forall>q. q \<noteq> az_backup srv \<longrightarrow> map_of (w_files w') q = map_of (w_files w) q)
         \<and> map_of (w_files w') (az_backup srv) \<in> {None, map_of (w_files w) (az_backup srv)}"
proof -
  obtain r1 w1 where 1: "osStat (az_policyFile srv) w = (r1, w1)" by force
  obtain r2 w2 where 2: "osStat (az_backup srv) w1 = (r2, w2)" by force
  obtain ok3 w3 where 3: "osRemove (az_backup srv) w2 = (ok3, w3)" by force
  have rm: "map_of (w_files w3) (az_backup srv) \<in> {None, map_of (w_files w2) (az_backup srv)}"
    using 3 by (auto simp: osRemove_def dropFile_def nextFault_def split: list.splits if_splits)
  from assms 1 2 3 have "w' \<in> {w1, w2, w3}"
    by (auto simp: commitAuthzFileChanges_def split: option.splits fnode.splits)
  with rm osStat_frame [OF 1] osStat_frame [OF 2] osRemove_frame [OF 3] show ?thesis by auto
qed

lemma finish_filesOk:
  assumes "filesOk srv w"
  shows "filesOk srv (snd (saveAuthzFileFreshess (az_metaFile srv) srv (snd (commitAuthzFileChanges srv w))))"
proof -
  obtain ok1 w1 where 1: "commitAuthzFileChanges srv w = (ok1, w1)" by force
  obtain ok2 w2 where 2: "attemptWrite (az_metaFile srv) (encodeStrings (authzFields (az_metadata srv))) w1 = (ok2, w2)" by force
  have meta: "az_metaFile srv \<noteq> az_policyFile srv" "az_metaFile srv \<noteq> az_backup srv"
    using assms by (auto simp: filesOk_def az_backup_def hasPrefix_iff)
  have ok1: "filesOk srv w1"
    using commit_any [OF 1] assms meta by (auto simp: filesOk_def holds_def)
  then have plain: "map_of (w_files w1) (az_metaFile srv) \<noteq> Some (Symlink q)" for q
    by (simp add: filesOk_def)
  have "map_of (w_files w2) p = map_of (w_files w1) p" if "p \<noteq> az_metaFile srv" for p
    by (rule attemptWrite_frame [OF 2 plain that])
  moreover have "map_of (w_files w2) (az_metaFile srv) \<noteq> Some (Symlink q)" for q
    using attemptWrite_self [OF 2 plain] plain by auto
  ultimately show ?thesis
    using ok1 meta by (auto simp: saveAuthzFileFreshess_def 1 2 filesOk_def holds_def)
qed

lemma loop_filesOk:
  "Authz_loop evs srv w = (r, srv', w') \<Longrightarrow> filesOk srv w \<Longrightarrow> filesOk srv' w' \<and> az_policyFile srv' = az_policyFile srv"
proof (induction evs srv w rule: Authz_loop.induct [case_names closed broken final upload other])
  case (closed srv w)
  then show ?case using revert_filesOk [of srv w srv' w'] revertAuthz_policyFile [of srv w] by auto
next
  case (broken evs srv w)
  then show ?case using revert_filesOk [of srv w srv' w'] revertAuthz_policyFile [of srv w] by auto
next
  case (final ok evs srv w)
  then show ?case using finish_filesOk by auto
next
  case (upload up force ok evs srv w)
  obtain e srv1 w1 where step: "Authz_processRotateRequest (AuthzUploadReq up force) srv w = (e, srv1, w1)" by (metis prod_cases3)
  from process_filesOk [OF upload.prems(2) step] have ok1: "filesOk srv1 w1" "az_policyFile srv1 = az_policyFile srv" by auto
  show ?case
  proof (cases "e = None \<and> ok")
    case True
    with upload.IH [OF step [symmetric] _ refl] upload.prems step ok1 show ?thesis by auto
  next
    case False
    with upload.prems(1) step have "revertAuthz srv1 w1 = (srv', w')" by (auto split: option.splits)
    with revert_filesOk [OF ok1(1) this] ok1(2) revertAuthz_policyFile [of srv1 w1] show ?thesis by auto
  qed
next
  case (other ok evs srv w)
  then show ?case using revert_filesOk [of srv w srv' w'] revertAuthz_policyFile [of srv w]
    by (auto simp: Authz_processRotateRequest_def)
qed

section \<open>Lemmas: no faults\<close>

definition authzKeys :: "string list" where
  "authzKeys = [GetKey [credentialsTbl, authzP4rtTbl], GetKey [credentialsTbl, authzGnxiTbl]]"

definition putBoth :: "string \<Rightarrow> string \<Rightarrow> string gomap gomap \<Rightarrow> string gomap gomap" where
  "putBoth fld val db = hset (authzKeys ! 1) fld val (hset (authzKeys ! 0) fld val db)"

text \<open>Both tables of the database say what the metadata say.\<close>

definition dbShows :: "AuthzMetadata \<Rightarrow> string gomap gomap \<Rightarrow> bool" where
  "dbShows m db \<longleftrightarrow>
     (\<forall>k \<in> set authzKeys. hget k authzVersionFld db = Some (AuthzVersion m) \<and> hget k authzCreatedOnFld db = Some (AuthzCreatedOn m))"

lemma fld_distinct [simp]: "authzVersionFld \<noteq> authzCreatedOnFld" "authzCreatedOnFld \<noteq> authzVersionFld"
  by (simp_all add: authzVersionFld_def authzCreatedOnFld_def)

lemma dbShows_put:
  "dbShows \<lparr>AuthzVersion = v, AuthzCreatedOn = c\<rparr> (putBoth authzCreatedOnFld c (putBoth authzVersionFld v db))"
  by (auto simp: dbShows_def putBoth_def authzKeys_def)

lemma dbShows_put_meta:
  "dbShows m (putBoth authzCreatedOnFld (AuthzCreatedOn m) (putBoth authzVersionFld (AuthzVersion m) db))"
  by (cases m) (simp add: dbShows_put)

lemma writeAuthz_ok:
  "w_faults w = [] \<Longrightarrow> writeAuthzMetadataToDB fld val srv w =
     (True, srv\<lparr>az_metadata := setAuthzField fld val (az_metadata srv)\<rparr>, w\<lparr>w_db := putBoth fld val (w_db w)\<rparr>)"
  by (simp add: writeAuthzMetadataToDB_def writeDB_ok putBoth_def authzKeys_def)

lemma setBoth:
  "setAuthzField authzCreatedOnFld c (setAuthzField authzVersionFld v m) = \<lparr>AuthzVersion = v, AuthzCreatedOn = c\<rparr>"
  by (cases m) (simp add: setAuthzField_def)

lemma saveToAuthzFile_ok:
  assumes "w_faults w = []" and "map_of (w_files w) (az_policyFile srv) = Some (Regular c)"
  shows "\<exists>w'. saveToAuthzFile p srv w = (True, w') \<and> filesAfter w (az_policyFile srv) (Some (Regular p)) w'"
proof -
  let ?t = "tempName (w_files w) (az_policyFile srv)"
  have "map_of (w_files w) ?t = None" "?t \<noteq> az_policyFile srv" by simp_all
  with assms show ?thesis
    by (simp add: saveToAuthzFile_def osCreateTemp_def finishTemp_def osWrite_def osClose_def
        osRename_def osChmod_def putFile_def dropFile_def filesAfter_def Let_def fun_eq_iff del: tempName_fresh)
qed

text \<open>In a session without faults: the current policy \<open>c\<close>, the checkpoint \<open>c0\<close> and \<open>m0\<close>.\<close>

definition session :: "string \<Rightarrow> AuthzMetadata \<Rightarrow> string \<Rightarrow> GNSIAuthzServer \<Rightarrow> world \<Rightarrow> bool" where
  "session c0 m0 c srv w \<longleftrightarrow>
     w_faults w = [] \<and> map_of (w_files w) (az_policyFile srv) = Some (Regular c)
     \<and> map_of (w_files w) (az_backup srv) = Some (Regular c0) \<and> az_metadataCopy srv = m0
     \<and> dbShows (az_metadata srv) (w_db w)
     \<and> (map_of (w_files w) (az_metaFile srv) = None \<or> (\<exists>d. map_of (w_files w) (az_metaFile srv) = Some (Regular d)))
     \<and> \<not> hasPrefix (az_metaFile srv) (az_policyFile srv)"

definition uploadedMeta :: "AuthzUpload \<Rightarrow> AuthzMetadata" where
  "uploadedMeta up = \<lparr>AuthzVersion = au_version up, AuthzCreatedOn = formatUint (unat (au_createdOn up))\<rparr>"

lemma session_meta: "session c0 m0 c srv w \<Longrightarrow> az_metaFile srv \<noteq> az_policyFile srv \<and> az_metaFile srv \<noteq> az_backup srv"
  by (auto simp: session_def az_backup_def hasPrefix_iff)

lemma revert_session:
  assumes "session c0 m0 c srv w"
  shows "\<exists>w'. revertAuthz srv w = (srv\<lparr>az_metadata := m0\<rparr>, w') \<and> w_faults w' = []
           \<and> map_of (w_files w') = (map_of (w_files w))(az_policyFile srv \<mapsto> Regular c0) \<and> dbShows m0 (w_db w')"
proof -
  from assms obtain w1 where w1: "copyFile (az_backup srv) (az_policyFile srv) w = (True, w1)"
      "filesAfter w (az_policyFile srv) (Some (Regular c0)) w1"
    using copyFile_ok [of w "az_backup srv" c0 "az_policyFile srv"] by (auto simp: session_def)
  note f = filesAfterD [OF w1(2)]
  have "w_faults w1 = []" "az_metadataCopy srv = m0" using assms f by (simp_all add: session_def)
  with w1 f show ?thesis
    by (cases m0) (simp add: revertAuthz_def revertAuthzFileFreshness_def writeAuthz_ok setBoth dbShows_put filesAfter_def)
qed

lemma process_session:
  assumes s: "session c0 m0 c srv w" and run: "Authz_processRotateRequest req srv w = (r, srv', w')"
  obtains (refused) e where "r = Some e" "srv' = srv" "w' = w"
    | (accepted) up force where "req = AuthzUploadReq up force" "r = None" "srv' = srv\<lparr>az_metadata := uploadedMeta up\<rparr>"
        "session c0 m0 (au_policy up) srv' w'"
proof (cases req)
  case (AuthzUploadReq up force)
  have nf: "w_faults w = []" using s by (simp add: session_def)
  have fc: "fileCheck (az_policyFile srv) w = (True, w)" using fileCheck_ok [OF nf] s by (auto simp: session_def)
  let ?w = "w\<lparr>w_db := putBoth authzCreatedOnFld (formatUint (unat (au_createdOn up))) (putBoth authzVersionFld (au_version up) (w_db w))\<rparr>"
  let ?srv = "srv\<lparr>az_metadata := uploadedMeta up\<rparr>"
  from s have "w_faults ?w = []" "map_of (w_files ?w) (az_policyFile ?srv) = Some (Regular c)" by (simp_all add: session_def)
  from saveToAuthzFile_ok [OF this, of "au_policy up"] obtain w1 where
    w1: "saveToAuthzFile (au_policy up) ?srv ?w = (True, w1)" "filesAfter ?w (az_policyFile ?srv) (Some (Regular (au_policy up))) w1" by auto
  consider "r = None" "srv' = ?srv" "w' = w1" | e where "r = Some e" "srv' = srv" "w' = w"
    using run nf fc w1(1)
    by (auto simp: Authz_processRotateRequest_def AuthzUploadReq writeAuthz_ok setBoth uploadedMeta_def split: if_splits)
  then show thesis
  proof cases
    case 1
    have "session c0 m0 (au_policy up) ?srv w1"
      using s session_meta [OF s] filesAfterD [OF w1(2)] dbShows_put
      by (auto simp: session_def uploadedMeta_def az_backup_def backupExt_def)
    with 1 show thesis by (intro accepted [OF AuthzUploadReq]) simp_all
  next
    case (2 e)
    then show thesis by (rule refused)
  qed
qed (use run refused in \<open>auto simp: Authz_processRotateRequest_def\<close>)

lemma finish_session:
  assumes "session c0 m0 c srv w"
  shows "\<exists>w'. saveAuthzFileFreshess (az_metaFile srv) srv (snd (commitAuthzFileChanges srv w)) = (True, w')
           \<and> map_of (w_files w') (az_policyFile srv) = Some (Regular c)
           \<and> map_of (w_files w') (az_metaFile srv) = Some (Regular (encodeStrings (authzFields (az_metadata srv))))
           \<and> dbShows (az_metadata srv) (w_db w')"
proof -
  have nf: "w_faults w = []" using assms by (simp add: session_def)
  from assms obtain w1 where w1: "osRemove (az_backup srv) w = (True, w1)" "filesAfter w (az_backup srv) None w1"
    using osRemove_ok [OF nf, of "az_backup srv"] by (auto simp: session_def)
  have commit: "commitAuthzFileChanges srv w = (True, w1)"
    using assms w1 by (simp add: commitAuthzFileChanges_def session_def osStat_def)
  note f1 = filesAfterD [OF w1(2)]
  have "\<exists>w2. attemptWrite (az_metaFile srv) d w1 = (True, w2) \<and> filesAfter w1 (az_metaFile srv) (Some (Regular d)) w2" for d
    using assms session_meta [OF assms] f1 attemptWrite_ok [of w1 "az_metaFile srv"] by (auto simp: session_def)
  then obtain w2 where w2: "saveAuthzFileFreshess (az_metaFile srv) srv w1 = (True, w2)"
      "filesAfter w1 (az_metaFile srv) (Some (Regular (encodeStrings (authzFields (az_metadata srv))))) w2"
    by (auto simp: saveAuthzFileFreshess_def)
  with commit assms session_meta [OF assms] f1 filesAfterD [OF w2(2)] show ?thesis
    by (auto simp: session_def)
qed

text \<open>The policy and the metadata after the uploads that precede the first Finalize.\<close>

fun lastAuthz :: "string \<Rightarrow> AuthzMetadata \<Rightarrow> authz_event list \<Rightarrow> string \<times> AuthzMetadata" where
  "lastAuthz c m [] = (c, m)"
| "lastAuthz c m (AuthzRecv (AuthzUploadReq up force) ok # evs) = lastAuthz (au_policy up) (uploadedMeta up) evs"
| "lastAuthz c m (_ # evs) = (c, m)"

definition outcomeOk :: "string \<Rightarrow> AuthzMetadata \<Rightarrow> string \<times> AuthzMetadata \<Rightarrow> authz_error option \<Rightarrow> GNSIAuthzServer \<Rightarrow> world \<Rightarrow> bool" where
  "outcomeOk c0 m0 cm r srv w \<longleftrightarrow>
     (let (c, m) = (if r = None then cm else (c0, m0)) in
      map_of (w_files w) (az_policyFile srv) = Some (Regular c) \<and> az_metadata srv = m \<and> dbShows m (w_db w)
      \<and> (r = None \<longrightarrow> map_of (w_files w) (az_metaFile srv) = Some (Regular (encodeStrings (authzFields m)))))"

lemma outcome_revert: "session c0 m0 c srv w \<Longrightarrow> outcomeOk c0 m0 cm (Some e) (fst (revertAuthz srv w)) (snd (revertAuthz srv w))"
  using revert_session [of c0 m0 c srv w] by (auto simp: outcomeOk_def)

lemma loop_outcome:
  assumes "Authz_loop evs srv w = (r, srv', w')" and "session c0 m0 c srv w"
  shows "outcomeOk c0 m0 (lastAuthz c (az_metadata srv) evs) r srv' w'"
  using assms
proof (induction evs srv w arbitrary: c rule: Authz_loop.induct [case_names closed broken final upload other])
  case (closed srv w)
  then show ?case using outcome_revert [OF closed(2)] by auto
next
  case (broken evs srv w)
  then show ?case using outcome_revert [OF broken(2)] by auto
next
  case (final ok evs srv w)
  with finish_session [OF final(2)] show ?case by (auto simp: outcomeOk_def)
next
  case (upload up force ok evs srv w)
  obtain e srv1 w1 where step: "Authz_processRotateRequest (AuthzUploadReq up force) srv w = (e, srv1, w1)" by (metis prod_cases3)
  from upload.prems(2) step show ?case
  proof (cases rule: process_session)
    case (refused err)
    with upload.prems step outcome_revert [OF upload.prems(2), of "lastAuthz (au_policy up) (uploadedMeta up) evs" err]
    show ?thesis by auto
  next
    case (accepted up' force')
    with upload.IH [OF step [symmetric] _ refl, of "au_policy up"] upload.prems step
      outcome_revert [OF accepted(4), of "lastAuthz (au_policy up) (uploadedMeta up) evs" AzSendFailed]
    show ?thesis by (cases ok) auto
  qed
next
  case (other ok evs srv w)
  then show ?case using outcome_revert [OF other(3)] by (auto simp: Authz_processRotateRequest_def)
qed

section \<open>Examples\<close>

definition authzEx :: GNSIAuthzServer where
  "authzEx = \<lparr>az_metadata = \<lparr>AuthzVersion = ''1'', AuthzCreatedOn = ''7''\<rparr>, az_metadataCopy = \<lparr>AuthzVersion = [], AuthzCreatedOn = []\<rparr>,
     az_policyFile = ''policy'', az_metaFile = ''meta''\<rparr>"

definition authzDb :: "string gomap gomap" where
  "authzDb = map (\<lambda>k. (k, [(authzVersionFld, ''1''), (authzCreatedOnFld, ''7'')])) authzKeys"

definition authzHost :: "fault list \<Rightarrow> world" where
  "authzHost fs = \<lparr>w_files = [(''policy'', Regular ''1'')], w_db = authzDb, w_faults = fs\<rparr>"

definition newPolicy :: AuthzUpload where
  "newPolicy = \<lparr>au_version = ''2'', au_createdOn = 8, au_policy = ''2''\<rparr>"

lemma dbShows_authzDb: "dbShows (az_metadata authzEx) authzDb"
  by (simp add: dbShows_def authzDb_def authzEx_def authzKeys_def hget_def GetKey_def authzP4rtTbl_def authzGnxiTbl_def)

section \<open>Properties\<close>

text \<open>
  C21. Whatever messages a session receives and whatever system calls fail, the policy file is always there with
  valid JSON after it, if it and its backup had valid JSON before and the metadata file is another file.
\<close>

theorem authz_policy_stays_valid:
  assumes "Authz_Rotate authOk locked evs srv w = (r, srv', w')" and "filesOk srv w"
  shows "\<exists>c. map_of (w_files w') (az_policyFile srv) = Some (Regular c) \<and> jsonValid c"
proof -
  have "filesOk srv' w' \<and> az_policyFile srv' = az_policyFile srv"
  proof (cases "authOk \<and> \<not> locked")
    case True
    let ?srv = "checkpointAuthzFreshness srv"
    have "filesOk ?srv w" using assms(2) by (simp add: checkpointAuthzFreshness_def filesOk_def az_backup_def)
    from checkpoint_filesOk [OF this] loop_filesOk [of evs ?srv] assms(1) True show ?thesis
      by (fastforce simp: Authz_Rotate_def Let_def checkpointAuthzFreshness_def)
  next
    case False
    with assms show ?thesis by (auto simp: Authz_Rotate_def split: if_splits)
  qed
  then show ?thesis by (auto simp: filesOk_def elim!: holds_cases)
qed

theorem authz_policy_stays_valid_witness:
  "\<exists>c. map_of (w_files (snd (snd (Authz_Rotate True False [AuthzRecv (AuthzUploadReq newPolicy False) True] authzEx
          (authzHost (replicate 13 Works @ [Stops 0]))))))
        (az_policyFile authzEx) = Some (Regular c) \<and> jsonValid c"
proof -
  let ?w = "authzHost (replicate 13 Works @ [Stops 0])"
  obtain r srv' w' where run: "Authz_Rotate True False [AuthzRecv (AuthzUploadReq newPolicy False) True] authzEx ?w = (r, srv', w')"
    by (metis prod_cases3)
  have "jsonValid ''1''" by code_simp
  then have "filesOk authzEx ?w"
    by (simp add: filesOk_def holds_def authzEx_def authzHost_def az_backup_def backupExt_def hasPrefix_def)
  from authz_policy_stays_valid [OF run this] show ?thesis by (simp add: run)
qed

text \<open>
  C22. Without faults, a session that fails leaves the policy file, the metadata and the database as they were; one
  that succeeds leaves all three, and the metadata file, at the last upload.
\<close>

theorem authz_rotate_outcome:
  assumes "Authz_Rotate True False evs srv w = (r, srv', w')" and "w_faults w = []"
    and "map_of (w_files w) (az_policyFile srv) = Some (Regular c)" and "map_of (w_files w) (az_backup srv) \<noteq> Some OtherNode"
    and "map_of (w_files w) (az_metaFile srv) = None \<or> (\<exists>d. map_of (w_files w) (az_metaFile srv) = Some (Regular d))"
    and "\<not> hasPrefix (az_metaFile srv) (az_policyFile srv)" and "dbShows (az_metadata srv) (w_db w)"
  shows "outcomeOk c (az_metadata srv) (lastAuthz c (az_metadata srv) evs) r srv' w'"
proof -
  let ?srv = "checkpointAuthzFreshness srv"
  obtain w1 where w1: "copyFile (az_policyFile srv) (az_backup srv) w = (True, w1)" "filesAfter w (az_backup srv) (Some (Regular c)) w1"
    using copyFile_ok [OF assms(2-4)] by auto
  have "az_metaFile srv \<noteq> az_backup srv" using assms(6) by (auto simp: az_backup_def)
  then have "session c (az_metadata srv) c ?srv w1"
    using assms filesAfterD [OF w1(2)]
    by (auto simp: session_def checkpointAuthzFreshness_def az_backup_def backupExt_def)
  moreover have "Authz_loop evs ?srv w1 = (r, srv', w')"
    using assms(1) w1(1) by (simp add: Authz_Rotate_def checkpointAuthzFile_def checkpointAuthzFreshness_def az_backup_def)
  ultimately show ?thesis using loop_outcome [of evs ?srv w1 r srv' w'] by (simp add: checkpointAuthzFreshness_def)
qed

theorem authz_rotate_outcome_witness:
  "\<exists>srv' w'. Authz_Rotate True False [AuthzRecv (AuthzUploadReq newPolicy False) True, AuthzRecv AuthzFinalize True] authzEx (authzHost []) = (None, srv', w')
     \<and> outcomeOk ''1'' (az_metadata authzEx) (''2'', uploadedMeta newPolicy) None srv' w'"
proof -
  let ?evs = "[AuthzRecv (AuthzUploadReq newPolicy False) True, AuthzRecv AuthzFinalize True]"
  have "fst (Authz_Rotate True False ?evs authzEx (authzHost [])) = None" by code_simp
  then obtain srv' w' where run: "Authz_Rotate True False ?evs authzEx (authzHost []) = (None, srv', w')" by (metis prod.collapse)
  have db: "dbShows (az_metadata authzEx) (w_db (authzHost []))" using dbShows_authzDb by (simp add: authzHost_def)
  have "outcomeOk ''1'' (az_metadata authzEx) (lastAuthz ''1'' (az_metadata authzEx) ?evs) None srv' w'"
    by (rule authz_rotate_outcome [OF run _ _ _ _ _ db])
      (simp_all add: authzEx_def authzHost_def az_backup_def backupExt_def hasPrefix_def)
  then have "outcomeOk ''1'' (az_metadata authzEx) (''2'', uploadedMeta newPolicy) None srv' w'" by (simp add: newPolicy_def)
  with run show ?thesis by blast
qed

text \<open>
  When the checkpoint of the policy file fails, the session goes on: an upload that is never finalized then
  stays in force, while the metadata and the database go back to the old version.
\<close>

theorem authz_checkpoint_failure_keeps_upload:
  assumes "w_faults w = [Fails]" and "map_of (w_files w) (az_policyFile srv) = Some (Regular c)"
    and "map_of (w_files w) (az_backup srv) = None"
    and "jsonValid (au_policy up)" and "au_policy up \<noteq> []" and "au_version up \<noteq> []" and "AuthzVersion (az_metadata srv) \<noteq> au_version up"
  shows "\<exists>srv' w'. Authz_Rotate True False [AuthzRecv (AuthzUploadReq up force) True] srv w = (Some AzNoFinalize, srv', w')
           \<and> map_of (w_files w') (az_policyFile srv) = Some (Regular (au_policy up))
           \<and> az_metadata srv' = az_metadata srv \<and> dbShows (az_metadata srv) (w_db w')"
proof -
  let ?srv = "checkpointAuthzFreshness srv"
  let ?w = "w\<lparr>w_faults := []\<rparr>"
  have check: "checkpointAuthzFile ?srv w = (False, ?w)"
    using assms(1) by (simp add: checkpointAuthzFile_def checkpointAuthzFreshness_def copyFile_def osStat_def nextFault_def)
  let ?w2 = "?w\<lparr>w_db := putBoth authzCreatedOnFld (formatUint (unat (au_createdOn up))) (putBoth authzVersionFld (au_version up) (w_db w))\<rparr>"
  let ?srv2 = "?srv\<lparr>az_metadata := uploadedMeta up\<rparr>"
  have "map_of (w_files ?w2) (az_policyFile ?srv2) = Some (Regular c)" using assms(2) by (simp add: checkpointAuthzFreshness_def)
  from saveToAuthzFile_ok [OF _ this, of "au_policy up"] obtain w3 where
    w3: "saveToAuthzFile (au_policy up) ?srv2 ?w2 = (True, w3)" "filesAfter ?w2 (az_policyFile srv) (Some (Regular (au_policy up))) w3"
    by (auto simp: checkpointAuthzFreshness_def)
  note f = filesAfterD [OF w3(2)]
  have fc: "fileCheck (az_policyFile ?srv) ?w = (True, ?w)"
    using assms(2) fileCheck_ok [of ?w] by (simp add: checkpointAuthzFreshness_def)
  have up: "Authz_processRotateRequest (AuthzUploadReq up force) ?srv ?w = (None, ?srv2, w3)"
    using assms(4-7) fc w3(1)
    by (simp add: Authz_processRotateRequest_def writeAuthz_ok setBoth uploadedMeta_def) (simp add: checkpointAuthzFreshness_def)
  have none: "map_of (w_files w3) (az_backup srv) = None" using assms(3) f(3) [of "az_backup srv"] by simp
  then have copy: "copyFile (az_backup ?srv2) (az_policyFile ?srv2) w3 = (False, w3)"
    using f(1) by (simp add: copyFile_def osStat_def statNode_def resolve_plain checkpointAuthzFreshness_def az_backup_def)
  let ?w4 = "w3\<lparr>w_db := putBoth authzCreatedOnFld (AuthzCreatedOn (az_metadata srv)) (putBoth authzVersionFld (AuthzVersion (az_metadata srv)) (w_db w3))\<rparr>"
  have "revertAuthz ?srv2 w3 = (?srv2\<lparr>az_metadata := az_metadata srv\<rparr>, ?w4)"
    using copy f(1) by (simp add: revertAuthz_def revertAuthzFileFreshness_def writeAuthz_ok setBoth checkpointAuthzFreshness_def)
  then have "Authz_Rotate True False [AuthzRecv (AuthzUploadReq up force) True] srv w = (Some AzNoFinalize, ?srv2\<lparr>az_metadata := az_metadata srv\<rparr>, ?w4)"
    using check up by (simp add: Authz_Rotate_def Let_def)
  moreover have "dbShows (az_metadata srv) (w_db ?w4)" by (simp add: dbShows_put_meta)
  ultimately show ?thesis using f by simp
qed

theorem authz_checkpoint_failure_keeps_upload_witness:
  "\<exists>srv' w'. Authz_Rotate True False [AuthzRecv (AuthzUploadReq newPolicy False) True] authzEx (authzHost [Fails]) = (Some AzNoFinalize, srv', w')
     \<and> map_of (w_files w') (az_policyFile authzEx) = Some (Regular ''2'') \<and> AuthzVersion (az_metadata srv') = ''1''"
proof -
  have "jsonValid ''2''" by code_simp
  then have "\<exists>srv' w'. Authz_Rotate True False [AuthzRecv (AuthzUploadReq newPolicy False) True] authzEx (authzHost [Fails]) = (Some AzNoFinalize, srv', w')
     \<and> map_of (w_files w') (az_policyFile authzEx) = Some (Regular (au_policy newPolicy))
     \<and> az_metadata srv' = az_metadata authzEx \<and> dbShows (az_metadata authzEx) (w_db w')"
    by (intro authz_checkpoint_failure_keeps_upload [where c = "''1''"])
      (simp_all add: authzEx_def authzHost_def newPolicy_def az_backup_def backupExt_def)
  then show ?thesis by (auto simp: newPolicy_def authzEx_def)
qed

end
