(* ===== verification/Json_Client.thy ===== *)
theory Json_Client
  imports Bypass
begin

text \<open>
  The copy of a configuration checkpoint that \<^verbatim>\<open>sonic_data_client/json_client.go\<close> keeps while a Set request is
  turned into a JSON patch: reading the checkpoint, and \<open>Get\<close>, \<open>Add\<close>, \<open>Remove\<close> and \<open>Replace\<close> of a table, an entry,
  a field or an item of a list.

  The nested maps are shared by reference in Go, so an update of an inner map is seen through the outer one; here
  it is written back. A map that the decoder made keeps the last of several members of the same name. \<open>Add\<close> and
  \<open>Remove\<close> return whether they succeeded and the data they leave, also when they fail. Numbers are decoded to
  floating point and encoded again: the text of a number after that is the argument \<open>jnum\<close>.
\<close>

section \<open>Reading\<close>

definition DecodeJsonTable :: "json gomap \<Rightarrow> string \<Rightarrow> json gomap option" where
  "DecodeJsonTable database tableName =
     (case map_of database tableName of Some (JObj ms) \<Rightarrow> Some (lastWins ms) | _ \<Rightarrow> None)"

definition DecodeJsonEntry :: "json gomap \<Rightarrow> string \<Rightarrow> json gomap option" where
  "DecodeJsonEntry table entryName =
     (case map_of table entryName of Some (JObj ms) \<Rightarrow> Some (lastWins ms) | _ \<Rightarrow> None)"

definition DecodeJsonField :: "json gomap \<Rightarrow> string \<Rightarrow> (string + json list) option" where
  "DecodeJsonField entry fieldName =
     (case map_of entry fieldName of
        Some (JStr s) \<Rightarrow> Some (Inl s)
      | Some (JArr vs) \<Rightarrow> Some (Inr vs)
      | _ \<Rightarrow> None)"

definition DecodeJsonListItem :: "json list \<Rightarrow> string \<Rightarrow> string option" where
  "DecodeJsonListItem list index =
     (case atoi index of
        None \<Rightarrow> None
      | Some i \<Rightarrow>
          if i < 0 \<or> i \<ge> int (length list) then None
          else (case list ! nat i of JStr s \<Rightarrow> Some s | _ \<Rightarrow> None))"

definition NewJsonClient :: "string \<Rightarrow> string \<Rightarrow> world \<Rightarrow> json gomap option \<times> world" where
  "NewJsonClient fileName nameSpace w =
     (case osReadFile fileName w of
        (None, w1) \<Rightarrow> (None, w1)
      | (Some jsonData, w1) \<Rightarrow>
          (case parseJson jsonData of
             Some (JObj ms) \<Rightarrow>
               (let jsonMap = lastWins ms in
                if nameSpace = [] then (Some jsonMap, w1)
                else (DecodeJsonTable jsonMap nameSpace, w1))
           | _ \<Rightarrow> (None, w1)))"

definition FixPath :: "string list \<Rightarrow> string list" where
  "FixPath path = (if length path \<ge> 2 then path[1 := replaceAll ''~1'' ''/'' (path ! 1)] else path)"

text \<open>\<open>emitJSON\<close>: maps are written in the order of their keys.\<close>

fun sortMaps :: "(string \<Rightarrow> string) \<Rightarrow> json \<Rightarrow> json" where
  "sortMaps jnum (JNum n) = JNum (jnum n)"
| "sortMaps jnum (JArr vs) = JArr (map (sortMaps jnum) vs)"
| "sortMaps jnum (JObj ms) =
     (let m = lastWins (map (\<lambda>(k, v). (k, sortMaps jnum v)) ms)
      in JObj (map (\<lambda>k. (k, the (map_of m k))) (sorted_keys m)))"
| "sortMaps jnum v = v"

definition emitJSON :: "(string \<Rightarrow> string) \<Rightarrow> json gomap \<Rightarrow> string" where
  "emitJSON jnum m = marshal (sortMaps jnum (JObj m))"

definition quoted :: "string \<Rightarrow> string" where
  "quoted s = [quoteC] @ s @ [quoteC]"

definition JsonClient_Get :: "(string \<Rightarrow> string) \<Rightarrow> json gomap \<Rightarrow> string list \<Rightarrow> string option" where
  "JsonClient_Get jnum jsonData path0 =
     (case FixPath path0 of
        [] \<Rightarrow> Some (emitJSON jnum jsonData)
      | [t] \<Rightarrow> map_option (emitJSON jnum) (DecodeJsonTable jsonData t)
      | [t, k] \<Rightarrow>
          (case DecodeJsonTable jsonData t of
             None \<Rightarrow> None
           | Some vtable \<Rightarrow> map_option (emitJSON jnum) (DecodeJsonEntry vtable k))
      | [t, k, f] \<Rightarrow>
          (case DecodeJsonTable jsonData t of
             None \<Rightarrow> None
           | Some vtable \<Rightarrow>
               (case DecodeJsonEntry vtable k of
                  None \<Rightarrow> None
                | Some ventry \<Rightarrow>
                    (case DecodeJsonField ventry f of
                       None \<Rightarrow> None
                     | Some (Inl s) \<Rightarrow> Some (quoted s)
                     | Some (Inr vs) \<Rightarrow> Some (marshal (sortMaps jnum (JArr vs))))))
      | [t, k, f, i] \<Rightarrow>
          (case DecodeJsonTable jsonData t of
             None \<Rightarrow> None
           | Some vtable \<Rightarrow>
               (case DecodeJsonEntry vtable k of
                  None \<Rightarrow> None
                | Some ventry \<Rightarrow>
                    (case DecodeJsonField ventry f of
                       None \<Rightarrow> None
                     | Some (Inl s) \<Rightarrow> map_option quoted (DecodeJsonListItem [] i)
                     | Some (Inr vs) \<Rightarrow> map_option quoted (DecodeJsonListItem vs i))))
      | _ \<Rightarrow> None)"

section \<open>Writing\<close>

text \<open>The table or entry of a path, made empty when it is missing or no object.\<close>

definition orEmpty :: "json gomap option \<Rightarrow> json gomap" where
  "orEmpty m = (case m of None \<Rightarrow> [] | Some x \<Rightarrow> x)"

definition putTable :: "string \<Rightarrow> json gomap \<Rightarrow> json gomap \<Rightarrow> json gomap" where
  "putTable t vtable jsonData = AList.update t (JObj vtable) jsonData"

definition putEntry :: "string \<Rightarrow> string \<Rightarrow> json gomap \<Rightarrow> json gomap \<Rightarrow> json gomap" where
  "putEntry t k ventry jsonData =
     putTable t (AList.update k (JObj ventry) (orEmpty (DecodeJsonTable jsonData t))) jsonData"

definition entryOf :: "json gomap \<Rightarrow> string \<Rightarrow> string \<Rightarrow> json gomap" where
  "entryOf jsonData t k = orEmpty (DecodeJsonEntry (orEmpty (DecodeJsonTable jsonData t)) k)"

definition addTable :: "string \<Rightarrow> string \<Rightarrow> json gomap \<Rightarrow> bool \<times> json gomap" where
  "addTable t value jsonData =
     (case parseJson value of
        Some (JObj ms) \<Rightarrow> (True, putTable t (lastWins ms) jsonData)
      | _ \<Rightarrow> (False, jsonData))"

definition addEntry :: "string \<Rightarrow> string \<Rightarrow> string \<Rightarrow> json gomap \<Rightarrow> bool \<times> json gomap" where
  "addEntry t k value jsonData =
     (let d1 = putTable t (orEmpty (DecodeJsonTable jsonData t)) jsonData in
      case parseJson value of
        Some (JObj ms) \<Rightarrow> (True, putEntry t k (lastWins ms) d1)
      | _ \<Rightarrow> (False, d1))"

definition addField :: "string \<Rightarrow> string \<Rightarrow> string \<Rightarrow> string \<Rightarrow> json gomap \<Rightarrow> bool \<times> json gomap" where
  "addField t k f value jsonData =
     (let ventry = entryOf jsonData t k; d1 = putEntry t k ventry jsonData in
      case parseJson value of
        Some (JStr s) \<Rightarrow> (True, putEntry t k (AList.update f (JStr s) ventry) d1)
      | Some (JArr vs) \<Rightarrow> (True, putEntry t k (AList.update f (JArr vs) ventry) d1)
      | _ \<Rightarrow> (False, d1))"

text \<open>
  Inserting into a list: the item at the index is doubled (or an empty string appended), the list is stored, and
  only then the value is decoded and put at the index.
\<close>

definition insertAt :: "nat \<Rightarrow> json list \<Rightarrow> json list" where
  "insertAt i vs = (if i = length vs then vs @ [JStr []] else take (i + 1) vs @ drop i vs)"

definition addItem :: "string \<Rightarrow> string \<Rightarrow> string \<Rightarrow> string \<Rightarrow> string \<Rightarrow> json gomap \<Rightarrow> bool \<times> json gomap" where
  "addItem t k f index value jsonData =
     (case atoi index of
        None \<Rightarrow> (False, jsonData)
      | Some i \<Rightarrow>
          (let ventry = entryOf jsonData t k; d1 = putEntry t k ventry jsonData in
           case DecodeJsonField ventry f of
             Some (Inl s) \<Rightarrow> (False, d1)
           | r \<Rightarrow>
               (let vlist = (case r of Some (Inr vs) \<Rightarrow> vs | _ \<Rightarrow> []);
                    ventry1 = AList.update f (JArr vlist) ventry;
                    d2 = putEntry t k ventry1 jsonData
                in if i < 0 \<or> i > int (length vlist) then (False, d2)
                   else
                     (let vlist1 = insertAt (nat i) vlist;
                          d3 = putEntry t k (AList.update f (JArr vlist1) ventry1) jsonData
                      in case parseJson value of
                           None \<Rightarrow> (False, d3)
                         | Some v \<Rightarrow> (True, putEntry t k (AList.update f (JArr (vlist1[nat i := v])) ventry1) jsonData)))))"

definition JsonClient_Add :: "string list \<Rightarrow> string \<Rightarrow> json gomap \<Rightarrow> bool \<times> json gomap" where
  "JsonClient_Add path value jsonData =
     (case FixPath path of
        [t] \<Rightarrow> addTable t value jsonData
      | [t, k] \<Rightarrow> addEntry t k value jsonData
      | [t, k, f] \<Rightarrow> addField t k f value jsonData
      | [t, k, f, i] \<Rightarrow> addItem t k f i value jsonData
      | _ \<Rightarrow> (False, jsonData))"

text \<open>After something was taken out: an entry, then a table, that has become empty goes too.\<close>

definition pruneTable :: "string \<Rightarrow> json gomap \<Rightarrow> json gomap \<Rightarrow> json gomap" where
  "pruneTable t vtable jsonData = (if vtable = [] then AList.delete t jsonData else putTable t vtable jsonData)"

definition pruneEntry :: "string \<Rightarrow> string \<Rightarrow> json gomap \<Rightarrow> json gomap \<Rightarrow> json gomap \<Rightarrow> json gomap" where
  "pruneEntry t k ventry vtable jsonData =
     pruneTable t (if ventry = [] then AList.delete k vtable else AList.update k (JObj ventry) vtable) jsonData"

definition removeItem :: "string \<Rightarrow> string \<Rightarrow> string \<Rightarrow> string \<Rightarrow> json gomap \<Rightarrow> bool \<times> json gomap" where
  "removeItem t k f index jsonData =
     (case atoi index of
        None \<Rightarrow> (False, jsonData)
      | Some i \<Rightarrow>
          (case DecodeJsonTable jsonData t of
             None \<Rightarrow> (False, jsonData)
           | Some vtable \<Rightarrow>
               (case DecodeJsonEntry vtable k of
                  None \<Rightarrow> (False, jsonData)
                | Some ventry \<Rightarrow>
                    (case DecodeJsonField ventry f of
                       None \<Rightarrow> (False, jsonData)
                     | Some r \<Rightarrow>
                         (let vlist = (case r of Inl s \<Rightarrow> [] | Inr vs \<Rightarrow> vs) in
                          case DecodeJsonListItem vlist index of
                            None \<Rightarrow> (False, jsonData)
                          | Some _ \<Rightarrow>
                              (let vlist1 = take (nat i) vlist @ drop (nat i + 1) vlist;
                                   ventry1 = (if vlist1 = [] then AList.delete f ventry else AList.update f (JArr vlist1) ventry)
                               in (True, pruneEntry t k ventry1 vtable jsonData)))))))"

definition JsonClient_Remove :: "string list \<Rightarrow> json gomap \<Rightarrow> bool \<times> json gomap" where
  "JsonClient_Remove path jsonData =
     (case FixPath path of
        [t] \<Rightarrow>
          (case DecodeJsonTable jsonData t of
             None \<Rightarrow> (False, jsonData)
           | Some vtable \<Rightarrow> (True, AList.delete t jsonData))
      | [t, k] \<Rightarrow>
          (case DecodeJsonTable jsonData t of
             None \<Rightarrow> (False, jsonData)
           | Some vtable \<Rightarrow>
               (case DecodeJsonEntry vtable k of
                  None \<Rightarrow> (False, jsonData)
                | Some ventry \<Rightarrow> (True, pruneTable t (AList.delete k vtable) jsonData)))
      | [t, k, f] \<Rightarrow>
          (case DecodeJsonTable jsonData t of
             None \<Rightarrow> (False, jsonData)
           | Some vtable \<Rightarrow>
               (case DecodeJsonEntry vtable k of
                  None \<Rightarrow> (False, jsonData)
                | Some ventry \<Rightarrow>
                    (case DecodeJsonField ventry f of
                       None \<Rightarrow> (False, jsonData)
                     | Some _ \<Rightarrow> (True, pruneEntry t k (AList.delete f ventry) vtable jsonData))))
      | [t, k, f, i] \<Rightarrow> removeItem t k f i jsonData
      | _ \<Rightarrow> (False, jsonData))"

definition JsonClient_Replace :: "string list \<Rightarrow> string \<Rightarrow> json gomap \<Rightarrow> bool \<times> json gomap" where
  "JsonClient_Replace path value jsonData =
     (case JsonClient_Remove path jsonData of
        (False, d) \<Rightarrow> (False, d)
      | (True, d) \<Rightarrow> JsonClient_Add path value d)"

section \<open>Lemmas\<close>

lemma update_fresh: "k \<notin> fst ` set m \<Longrightarrow> AList.update k v m = m @ [(k, v)]"
  by (induction m) auto

lemma lastWins_snoc: "lastWins (ms @ [(k, v)]) = AList.update k v (lastWins ms)"
  by (simp add: lastWins_def)

lemma lastWins_id [simp]: "distinct (map fst m) \<Longrightarrow> lastWins m = m"
proof (induction m rule: rev_induct)
  case (snoc kv m)
  obtain k v where kv: "kv = (k, v)" by (cases kv)
  with snoc show ?case by (auto simp: lastWins_snoc update_fresh)
qed (simp add: lastWins_def)

lemma lastWins_lastWins [simp]: "lastWins (lastWins ms) = lastWins ms"
  by (simp add: lastWins_distinct)

lemma map_update: "map (\<lambda>(k, v). (k, f v)) (AList.update k v m) = AList.update k (f v) (map (\<lambda>(k, v). (k, f v)) m)"
  by (induction m) auto

lemma lastWins_map: "lastWins (map (\<lambda>(k, v). (k, f v)) ms) = map (\<lambda>(k, v). (k, f v)) (lastWins ms)"
proof (induction ms rule: rev_induct)
  case (snoc kv ms)
  then show ?case by (cases kv) (simp add: lastWins_snoc map_update)
qed (simp add: lastWins_def)

lemma sortMaps_lastWins [simp]: "sortMaps jnum (JObj (lastWins ms)) = sortMaps jnum (JObj ms)"
  by (simp only: sortMaps.simps lastWins_map lastWins_lastWins)

text \<open>The four levels of a path.\<close>

definition getEntry :: "json gomap \<Rightarrow> string \<Rightarrow> string \<Rightarrow> json gomap option" where
  "getEntry d t k = Option.bind (DecodeJsonTable d t) (\<lambda>tb. DecodeJsonEntry tb k)"

definition getField :: "json gomap \<Rightarrow> string \<Rightarrow> string \<Rightarrow> string \<Rightarrow> (string + json list) option" where
  "getField d t k f = Option.bind (getEntry d t k) (\<lambda>e. DecodeJsonField e f)"

fun renderField :: "(string \<Rightarrow> string) \<Rightarrow> string + json list \<Rightarrow> string" where
  "renderField jnum (Inl s) = quoted s"
| "renderField jnum (Inr vs) = marshal (sortMaps jnum (JArr vs))"

fun items :: "string + json list \<Rightarrow> json list" where
  "items (Inl s) = []"
| "items (Inr vs) = vs"

lemma Get_levels:
  "JsonClient_Get jnum d p =
     (case FixPath p of
        [] \<Rightarrow> Some (emitJSON jnum d)
      | [t] \<Rightarrow> map_option (emitJSON jnum) (DecodeJsonTable d t)
      | [t, k] \<Rightarrow> map_option (emitJSON jnum) (getEntry d t k)
      | [t, k, f] \<Rightarrow> map_option (renderField jnum) (getField d t k f)
      | [t, k, f, i] \<Rightarrow> Option.bind (getField d t k f) (\<lambda>r. map_option quoted (DecodeJsonListItem (items r) i))
      | _ \<Rightarrow> None)"
  by (simp add: JsonClient_Get_def getEntry_def getField_def split: list.splits option.splits sum.splits)

lemma orEmpty_distinct [simp]:
  "distinct (map fst (orEmpty (DecodeJsonTable d t)))" "distinct (map fst (orEmpty (DecodeJsonEntry d t)))"
  by (auto simp: orEmpty_def DecodeJsonTable_def DecodeJsonEntry_def lastWins_distinct split: option.splits json.splits)

lemma entryOf_distinct [simp]: "distinct (map fst (entryOf d t k))"
  by (simp add: entryOf_def)

lemma Decode_Nil [simp]: "DecodeJsonEntry [] k = None" "DecodeJsonField [] f = None"
  by (simp_all add: DecodeJsonEntry_def DecodeJsonField_def)

lemma Entry_orEmpty [simp]: "DecodeJsonEntry (orEmpty (DecodeJsonTable d t)) k = getEntry d t k"
  by (simp add: orEmpty_def getEntry_def split: option.splits)

lemma Field_entryOf [simp]: "DecodeJsonField (entryOf d t k) f = getField d t k f"
  by (simp add: entryOf_def getField_def) (simp add: orEmpty_def split: option.splits)

lemma Table_put [simp]:
  "distinct (map fst tb) \<Longrightarrow> DecodeJsonTable (putTable t tb d) t' = (if t' = t then Some tb else DecodeJsonTable d t')"
  by (simp add: DecodeJsonTable_def putTable_def)

lemma Entry_update [simp]:
  "distinct (map fst e) \<Longrightarrow> DecodeJsonEntry (AList.update k (JObj e) tb) k' = (if k' = k then Some e else DecodeJsonEntry tb k')"
  by (simp add: DecodeJsonEntry_def)

lemma Entry_delete [simp]: "DecodeJsonEntry (AList.delete k tb) k' = (if k' = k then None else DecodeJsonEntry tb k')"
  by (simp add: DecodeJsonEntry_def)

lemma Field_update [simp]:
  "DecodeJsonField (AList.update f (JStr s) e) f' = (if f' = f then Some (Inl s) else DecodeJsonField e f')"
  "DecodeJsonField (AList.update f (JArr vs) e) f' = (if f' = f then Some (Inr vs) else DecodeJsonField e f')"
  "DecodeJsonField (AList.delete f e) f' = (if f' = f then None else DecodeJsonField e f')"
  by (simp_all add: DecodeJsonField_def)

lemma Field_update_other [simp]: "f' \<noteq> f \<Longrightarrow> DecodeJsonField (AList.update f v e) f' = DecodeJsonField e f'"
  by (simp add: DecodeJsonField_def)

lemma Table_delete [simp]: "DecodeJsonTable (AList.delete t d) t' = (if t' = t then None else DecodeJsonTable d t')"
  by (simp add: DecodeJsonTable_def)

lemma putEntry_levels:
  assumes "distinct (map fst e)"
  shows "getEntry (putEntry t k e d) t' k' = (if t' = t \<and> k' = k then Some e else getEntry d t' k')"
    and "getField (putEntry t k e d) t' k' f = (if t' = t \<and> k' = k then DecodeJsonField e f else getField d t' k' f)"
    and "t' \<noteq> t \<Longrightarrow> DecodeJsonTable (putEntry t k e d) t' = DecodeJsonTable d t'"
  using assms by (auto simp: putEntry_def getField_def getEntry_def [of "putTable _ _ _"]) (simp_all add: getEntry_def)

lemma entryOf_put [simp]: "distinct (map fst e) \<Longrightarrow> entryOf (putEntry t k e d) t k = e"
  by (simp add: entryOf_def putEntry_levels) (simp add: orEmpty_def)

lemma putEntry_put [simp]:
  "distinct (map fst e) \<Longrightarrow> putEntry t k e' (putEntry t k e d) = putEntry t k e' d"
  by (simp add: putEntry_def) (simp add: putTable_def orEmpty_def)

text \<open>Paths that part in one of the first three names.\<close>

fun diverge :: "string list \<Rightarrow> string list \<Rightarrow> bool" where
  "diverge (a # p) (b # q) = (a \<noteq> b \<or> diverge p q)"
| "diverge _ _ = False"

definition apart :: "string list \<Rightarrow> string list \<Rightarrow> bool" where
  "apart p q \<longleftrightarrow> diverge (take 3 (FixPath p)) (take 3 (FixPath q))"

text \<open>A change of one entry is not seen through paths that part from it.\<close>

lemma Get_frame:
  assumes "\<And>t'. t' \<noteq> t \<Longrightarrow> DecodeJsonTable d' t' = DecodeJsonTable d t'"
    and "\<And>t' k'. t' \<noteq> t \<or> k' \<noteq> k \<Longrightarrow> getEntry d' t' k' = getEntry d t' k'"
    and "\<And>t' k' f'. t' \<noteq> t \<or> k' \<noteq> k \<or> (\<exists>g. fs = [g] \<and> f' \<noteq> g) \<Longrightarrow> getField d' t' k' f' = getField d t' k' f'"
    and "diverge (t # k # fs) (take 3 (FixPath q))" and "length fs \<le> 1"
  shows "JsonClient_Get jnum d' q = JsonClient_Get jnum d q"
proof -
  obtain q' where q': "FixPath q = q'" by simp
  from assms(4) have "q' \<noteq> []" by (auto simp: q')
  then consider t' where "q' = [t']" | t' k' where "q' = [t', k']" | t' k' f' where "q' = [t', k', f']"
    | t' k' f' i where "q' = [t', k', f', i]" | t' k' f' i j js where "q' = t' # k' # f' # i # j # js"
    by (metis neq_Nil_conv)
  then show ?thesis
    using assms by cases (auto simp: Get_levels q' length_Suc_conv le_Suc_eq)
qed

lemma length_FixPath [simp]: "length (FixPath p) = length p"
  by (simp add: FixPath_def)

subsection \<open>\<open>Add\<close>\<close>

fun asField :: "json \<Rightarrow> (string + json list) option" where
  "asField (JStr s) = Some (Inl s)"
| "asField (JArr vs) = Some (Inr vs)"
| "asField _ = None"

lemma addTable_cases:
  assumes "addTable t v d = (True, d')"
  obtains ms where "parseJson v = Some (JObj ms)" "d' = putTable t (lastWins ms) d"
  using assms by (auto simp: addTable_def split: option.splits json.splits)

lemma putEntry_putTable [simp]: "putEntry t k e (putTable t (orEmpty (DecodeJsonTable d t)) d) = putEntry t k e d"
  by (simp add: putEntry_def) (simp add: putTable_def orEmpty_def)

lemma addEntry_cases:
  assumes "addEntry t k v d = (True, d')"
  obtains ms where "parseJson v = Some (JObj ms)" "d' = putEntry t k (lastWins ms) d"
  using assms by (auto simp: addEntry_def Let_def split: option.splits json.splits)

lemma addField_cases:
  assumes "addField t k f v d = (True, d')"
  obtains j r where "parseJson v = Some j" "asField j = Some r" "d' = putEntry t k (AList.update f j (entryOf d t k)) d"
  using assms by (auto simp: addField_def Let_def split: option.splits json.splits)

lemma insertAt_length: "i \<le> length vs \<Longrightarrow> length (insertAt i vs) = Suc (length vs)"
  by (auto simp: insertAt_def)

lemma addItem_cases:
  assumes "addItem t k f x v d = (True, d')"
  obtains j i vs where "parseJson v = Some j" "atoi x = Some i" "0 \<le> i" "i \<le> int (length vs)"
    "d' = putEntry t k (AList.update f (JArr ((insertAt (nat i) vs)[nat i := j])) (AList.update f (JArr vs) (entryOf d t k))) d"
proof -
  from assms obtain i where i: "atoi x = Some i" by (auto simp: addItem_def split: option.splits)
  let ?vs = "case getField d t k f of Some (Inr vs) \<Rightarrow> vs | _ \<Rightarrow> []"
  from assms i have "\<exists>j. parseJson v = Some j \<and> 0 \<le> i \<and> i \<le> int (length ?vs) \<and>
      d' = putEntry t k (AList.update f (JArr ((insertAt (nat i) ?vs)[nat i := j])) (AList.update f (JArr ?vs) (entryOf d t k))) d"
    unfolding addItem_def Let_def option.case Field_entryOf
    by (auto split: if_splits option.splits sum.splits)
  with i that show thesis by blast
qed

lemma addField_levels:
  assumes "asField j = Some r"
  shows "getField (putEntry t k (AList.update f j (entryOf d t k)) d) t' k' f' =
           (if t' = t \<and> k' = k \<and> f' = f then Some r else getField d t' k' f')"
  using assms by (cases j) (auto simp: putEntry_levels distinct_update)

definition render :: "(string \<Rightarrow> string) \<Rightarrow> json \<Rightarrow> string" where
  "render jnum j = (case j of JStr s \<Rightarrow> quoted s | _ \<Rightarrow> marshal (sortMaps jnum j))"

text \<open>What \<open>Add\<close> stored is what \<open>Get\<close> reads.\<close>

lemma Add_Get:
  assumes "JsonClient_Add p v d = (True, d')"
  shows "\<exists>j. parseJson v = Some j \<and> (length p \<le> 3 \<or> (\<exists>s. j = JStr s) \<longrightarrow> JsonClient_Get jnum d' p = Some (render jnum j))"
proof -
  from assms consider (1) t where "FixPath p = [t]" "addTable t v d = (True, d')"
    | (2) t k where "FixPath p = [t, k]" "addEntry t k v d = (True, d')"
    | (3) t k f where "FixPath p = [t, k, f]" "addField t k f v d = (True, d')"
    | (4) t k f i where "FixPath p = [t, k, f, i]" "addItem t k f i v d = (True, d')"
    by (auto simp: JsonClient_Add_def split: list.splits)
  then show ?thesis
  proof cases
    case (1 t)
    from 1(2) show ?thesis
      by (rule addTable_cases) (simp add: Get_levels 1(1) lastWins_distinct render_def emitJSON_def del: sortMaps.simps)
  next
    case (2 t k)
    from 2(2) show ?thesis
      by (rule addEntry_cases) (simp add: Get_levels 2(1) lastWins_distinct render_def emitJSON_def putEntry_levels del: sortMaps.simps)
  next
    case (3 t k f)
    from 3(2) show ?thesis
    proof (rule addField_cases)
      fix j r
      assume j: "parseJson v = Some j" "asField j = Some r" "d' = putEntry t k (AList.update f j (entryOf d t k)) d"
      then have "getField d' t k f = Some r" by (simp add: addField_levels)
      with j show ?thesis by (cases j) (auto simp: Get_levels 3(1) render_def)
    qed
  next
    case (4 t k f x)
    from 4(2) show ?thesis
    proof (rule addItem_cases)
      fix j i vs
      assume j: "parseJson v = Some j" "atoi x = Some i" "0 \<le> i" "i \<le> int (length vs)"
        "d' = putEntry t k (AList.update f (JArr ((insertAt (nat i) vs)[nat i := j])) (AList.update f (JArr vs) (entryOf d t k))) d"
      from j(3,4) have "nat i < length (insertAt (nat i) vs)" by (subst insertAt_length) auto
      moreover have "length p = 4" using arg_cong [OF 4(1), of length] by simp
      ultimately show ?thesis
        using j by (auto simp: Get_levels 4(1) putEntry_levels distinct_update DecodeJsonListItem_def render_def insertAt_length)
    qed
  qed
qed

text \<open>What \<open>Add\<close> does not touch.\<close>

lemma Add_frame:
  assumes "JsonClient_Add p v d = (True, d')" and "apart p q"
  shows "JsonClient_Get jnum d' q = JsonClient_Get jnum d q"
proof -
  from assms(1) consider (1) t where "FixPath p = [t]" "addTable t v d = (True, d')"
    | (2) t k where "FixPath p = [t, k]" "addEntry t k v d = (True, d')"
    | (3) t k f where "FixPath p = [t, k, f]" "addField t k f v d = (True, d')"
    | (4) t k f i where "FixPath p = [t, k, f, i]" "addItem t k f i v d = (True, d')"
    by (auto simp: JsonClient_Add_def split: list.splits)
  then show ?thesis
  proof cases
    case (1 t)
    with assms(2) obtain t' q' where q: "FixPath q = t' # q'" "t' \<noteq> t"
      by (cases "FixPath q") (auto simp: apart_def)
    from 1(2) show ?thesis
      by (rule addTable_cases) (auto simp: Get_levels q lastWins_distinct getField_def getEntry_def split: list.splits)
  next
    case (2 t k)
    from 2(2) show ?thesis
      by (rule addEntry_cases, intro Get_frame [where t = t and k = k and fs = "[]"])
        (use assms(2) 2(1) in \<open>auto simp: putEntry_levels lastWins_distinct apart_def\<close>)
  next
    case (3 t k f)
    from 3(2) show ?thesis
      by (rule addField_cases, intro Get_frame [where t = t and k = k and fs = "[f]"])
        (use assms(2) 3(1) in \<open>auto simp: addField_levels putEntry_levels distinct_update apart_def\<close>)
  next
    case (4 t k f i)
    from 4(2) show ?thesis
      by (rule addItem_cases, intro Get_frame [where t = t and k = k and fs = "[f]"])
        (use assms(2) 4(1) in \<open>auto simp: putEntry_levels distinct_update apart_def\<close>)
  qed
qed

subsection \<open>\<open>Remove\<close>\<close>

lemma Entry_Some_nonempty: "DecodeJsonEntry tb k = Some e \<Longrightarrow> tb \<noteq> []"
  by auto

lemma delete_Nil_other: "AList.delete k tb = [] \<Longrightarrow> k' \<noteq> k \<Longrightarrow> map_of tb k' = None"
  by (metis AList.delete_conv' map_of.simps(1) fun_upd_other)

lemma pruneTable_levels:
  assumes "distinct (map fst tb)"
  shows "DecodeJsonTable (pruneTable t tb d) t' = (if t' = t then if tb = [] then None else Some tb else DecodeJsonTable d t')"
    and "getEntry (pruneTable t tb d) t' k' = (if t' = t then DecodeJsonEntry tb k' else getEntry d t' k')"
  using assms by (auto simp: pruneTable_def getEntry_def)

lemma pruneEntry_levels:
  assumes "DecodeJsonTable d t = Some tb" and "distinct (map fst e)"
  shows "t' \<noteq> t \<Longrightarrow> DecodeJsonTable (pruneEntry t k e tb d) t' = DecodeJsonTable d t'"
    and "getEntry (pruneEntry t k e tb d) t' k' =
           (if t' = t \<and> k' = k then if e = [] then None else Some e else getEntry d t' k')"
    and "getField (pruneEntry t k e tb d) t' k' f' =
           (if t' = t \<and> k' = k then DecodeJsonField e f' else getField d t' k' f')"
proof -
  have "distinct (map fst tb)" using orEmpty_distinct(1) [of d t] assms(1) by (simp add: orEmpty_def)
  then have tb: "distinct (map fst (if e = [] then AList.delete k tb else AList.update k (JObj e) tb))"
    by (auto simp: distinct_update distinct_delete)
  note levels = pruneTable_levels [OF tb]
  show "t' \<noteq> t \<Longrightarrow> DecodeJsonTable (pruneEntry t k e tb d) t' = DecodeJsonTable d t'"
    by (simp add: pruneEntry_def levels)
  show entry: "getEntry (pruneEntry t k e tb d) t' k' =
      (if t' = t \<and> k' = k then if e = [] then None else Some e else getEntry d t' k')" for t' k'
    using assms by (simp add: pruneEntry_def levels) (simp add: getEntry_def)
  show "getField (pruneEntry t k e tb d) t' k' f' = (if t' = t \<and> k' = k then DecodeJsonField e f' else getField d t' k' f')"
    by (simp add: getField_def entry)
qed

text \<open>The four ways \<open>Remove\<close> succeeds.\<close>

lemma Remove_cases:
  assumes "JsonClient_Remove p d = (True, d')"
  obtains (table) t where "FixPath p = [t]" "DecodeJsonTable d t \<noteq> None" "d' = AList.delete t d"
    | (entry) t k tb where "FixPath p = [t, k]" "DecodeJsonTable d t = Some tb" "DecodeJsonEntry tb k \<noteq> None"
        "d' = pruneEntry t k [] tb d"
    | (field) t k f tb e where "FixPath p = [t, k, f]" "DecodeJsonTable d t = Some tb" "DecodeJsonEntry tb k = Some e"
        "DecodeJsonField e f \<noteq> None" "d' = pruneEntry t k (AList.delete f e) tb d"
    | (item) t k f x i tb e vs where "FixPath p = [t, k, f, x]" "DecodeJsonTable d t = Some tb" "DecodeJsonEntry tb k = Some e"
        "DecodeJsonField e f = Some (Inr vs)" "atoi x = Some i" "0 \<le> i" "i < int (length vs)" "\<exists>s. vs ! nat i = JStr s"
        "d' = pruneEntry t k (let vs1 = take (nat i) vs @ drop (nat i + 1) vs
               in if vs1 = [] then AList.delete f e else AList.update f (JArr vs1) e) tb d"
  using assms
  by (auto simp: JsonClient_Remove_def removeItem_def Let_def DecodeJsonListItem_def pruneEntry_def
      split: list.splits option.splits sum.splits if_splits json.splits)

lemma Decode_distinct:
  "DecodeJsonTable d t = Some tb \<Longrightarrow> distinct (map fst tb)" "DecodeJsonEntry d t = Some tb \<Longrightarrow> distinct (map fst tb)"
  by (auto simp: DecodeJsonTable_def DecodeJsonEntry_def lastWins_distinct split: option.splits json.splits)

text \<open>What was removed was there.\<close>

lemma Remove_found:
  assumes "JsonClient_Remove p d = (True, d')"
  shows "JsonClient_Get jnum d p \<noteq> None"
  using assms
  by (rule Remove_cases) (auto simp: Get_levels getEntry_def getField_def DecodeJsonListItem_def)

lemma Remove_gone:
  assumes "JsonClient_Remove p d = (True, d')" and "length p \<le> 3"
  shows "JsonClient_Get jnum d' p = None"
  using assms(1)
proof (cases rule: Remove_cases)
  case (field t k f tb e)
  then show ?thesis
    by (simp add: Get_levels pruneEntry_levels [of d t tb "AList.delete f e"] Decode_distinct distinct_delete)
next
  case (item t k f x i tb e vs)
  have "length p = 4" using arg_cong [OF item(1), of length] by simp
  then show ?thesis using assms(2) by simp
qed (simp_all add: Get_levels pruneEntry_levels)

lemma Remove_frame:
  assumes "JsonClient_Remove p d = (True, d')" and "apart p q"
  shows "JsonClient_Get jnum d' q = JsonClient_Get jnum d q"
  using assms(1)
proof (cases rule: Remove_cases)
  case (table t)
  with assms(2) obtain t' q' where q: "FixPath q = t' # q'" "t' \<noteq> t"
    by (cases "FixPath q") (auto simp: apart_def)
  then show ?thesis by (auto simp: table Get_levels getField_def getEntry_def split: list.splits)
next
  case (entry t k tb)
  show ?thesis
    by (rule Get_frame [where t = t and k = k and fs = "[]"])
      (use assms(2) entry in \<open>auto simp: pruneEntry_levels apart_def\<close>)
next
  case (field t k f tb e)
  have "distinct (map fst (AList.delete f e))" using field by (simp add: Decode_distinct distinct_delete)
  note levels = pruneEntry_levels [OF field(2) this, where k = k]
  have f: "getField d t k f' = DecodeJsonField e f'" for f' using field by (simp add: getField_def getEntry_def)
  show ?thesis
    by (rule Get_frame [where t = t and k = k and fs = "[f]"])
      (use assms(2) field in \<open>auto simp: levels apart_def f\<close>)
next
  case (item t k f x i tb e vs)
  let ?vs = "take (nat i) vs @ drop (nat i + 1) vs"
  define e' where "e' = (if ?vs = [] then AList.delete f e else AList.update f (JArr ?vs) e)"
  have d': "d' = pruneEntry t k e' tb d" using item by (simp add: Let_def e'_def)
  have "distinct (map fst e')" using item by (auto simp: Decode_distinct distinct_delete distinct_update e'_def)
  note levels = pruneEntry_levels [OF item(2) this, where k = k]
  have f: "DecodeJsonField e' f' = getField d t k f'" if "f' \<noteq> f" for f'
    using item that by (simp add: getField_def getEntry_def e'_def)
  show ?thesis
    by (rule Get_frame [where t = t and k = k and fs = "[f]"])
      (use assms(2) item(1-2) in \<open>auto simp: d' levels apart_def f\<close>)
qed

text \<open>A failing \<open>Remove\<close> changes nothing.\<close>

lemma Remove_failed: "JsonClient_Remove p d = (False, d') \<Longrightarrow> d' = d"
  by (auto simp: JsonClient_Remove_def removeItem_def Let_def split: list.splits option.splits)

section \<open>Properties\<close>

definition checkpointEx :: "json gomap" where
  "checkpointEx =
     [(''PORT'', JObj [(''Ethernet0'', JObj [(''mtu'', JStr ''9100''), (''lanes'', JArr [JStr ''1'', JStr ''2''])])]),
      (''VLAN'', JObj [(''Vlan10'', JObj [(''vlanid'', JStr ''10'')])])]"





end
