(* ===== verification/Dbus.thy ===== *)
theory Dbus
  imports Counters
begin

text \<open>
  The D-Bus client of \<^verbatim>\<open>sonic_service_client/dbus_client.go\<close>: \<open>DbusApi\<close>, which makes one call and reads its
  answer, and the operations of the host services built on it.

  The system bus and the host services behind it are not part of the program: \<open>be_bus\<close> says whether the bus
  can be reached and \<open>be_call\<close> what a call answers and does to the host, whose state has any type. \<open>bus_calls\<close>
  records the calls that were sent, in order. \<open>be_show\<close> and \<open>be_type\<close> are how Go prints values and their types,
  \<open>be_errorf\<close> what \<open>fmt.Errorf\<close> makes of a text that is given to it as a format.
\<close>

section \<open>The bus\<close>

datatype dvalue = DInt32 int | DString string | DStrMap "string gomap" | DOther string

datatype bus_answer = Body "dvalue list" | CallErr string | NoReply

record dbus_call =
  dc_busName :: string
  dc_busPath :: string
  dc_intName :: string
  dc_timeout :: nat
  dc_args :: "string list"

datatype svc_error = Plain string | StatusErr code string

fun errorText :: "svc_error \<Rightarrow> string" where
  "errorText (Plain s) = s"
| "errorText (StatusErr c s) = s"

record 's bus =
  bus_counters :: counters
  bus_calls :: "dbus_call list"
  bus_host :: 's

record 's bus_env =
  be_shm :: "CounterType \<Rightarrow> shm_fault"
  be_bus :: "'s \<Rightarrow> string option"
  be_call :: "dbus_call \<Rightarrow> 's \<Rightarrow> bus_answer \<times> 's"
  be_show :: "dvalue list \<Rightarrow> string"
  be_type :: "dvalue \<Rightarrow> string"
  be_errorf :: "string \<Rightarrow> string"

text \<open>A store of \<open>IncCounter\<close> outside the segment does not happen (\<open>counters_exact\<close>).\<close>

definition countBus :: "'s bus_env \<Rightarrow> CounterType \<Rightarrow> 's bus \<Rightarrow> 's bus" where
  "countBus e c b =
     (case IncCounter (be_shm e c) c (bus_counters b) of
        None \<Rightarrow> b
      | Some cs \<Rightarrow> b\<lparr>bus_counters := cs\<rparr>)"

definition fails :: "'s bus_env \<Rightarrow> string \<Rightarrow> 's bus \<Rightarrow> (svc_error + dvalue) \<times> 's bus" where
  "fails e msg b = (Inl (Plain msg), countBus e DBUS_FAIL b)"

definition readAnswer :: "'s bus_env \<Rightarrow> nat \<Rightarrow> bus_answer \<Rightarrow> string + dvalue" where
  "readAnswer e timeout answer =
     (case answer of
        NoReply \<Rightarrow> Inl (''Timeout '' @ formatUint timeout)
      | CallErr err \<Rightarrow> Inl err
      | Body result \<Rightarrow>
          (case result of
             [] \<Rightarrow> Inl (''Dbus result is empty '' @ be_show e result)
           | DInt32 ret # rest \<Rightarrow>
               (case rest of
                  [v] \<Rightarrow>
                    if ret = 0 then Inr v
                    else
                      (case v of
                         DString msg \<Rightarrow> Inl (be_errorf e msg)
                       | DStrMap msg \<Rightarrow> Inl (be_errorf e (case map_of msg ''error'' of None \<Rightarrow> [] | Some s \<Rightarrow> s))
                       | _ \<Rightarrow> Inl (''Invalid result message type '' @ be_show e [v] @ '' '' @ be_type e v))
                | _ \<Rightarrow> Inl (''Dbus result is invalid '' @ be_show e result))
           | r0 # _ \<Rightarrow> Inl (''Invalid result type '' @ be_show e [r0] @ '' '' @ be_type e r0)))"

definition DbusApi :: "'s bus_env \<Rightarrow> dbus_call \<Rightarrow> 's bus \<Rightarrow> (svc_error + dvalue) \<times> 's bus" where
  "DbusApi e call b0 =
     (let b = countBus e DBUS b0 in
      case be_bus e (bus_host b) of
        Some err \<Rightarrow> fails e err b
      | None \<Rightarrow>
          (case be_call e call (bus_host b) of
             (answer, h) \<Rightarrow>
               (let b1 = b\<lparr>bus_calls := bus_calls b @ [call], bus_host := h\<rparr> in
                case readAnswer e (dc_timeout call) answer of
                  Inl msg \<Rightarrow> fails e msg b1
                | Inr v \<Rightarrow> (Inr v, b1))))"

section \<open>The host services\<close>

record DbusClient =
  busNamePrefix :: string
  busPathPrefix :: string
  intNamePrefix :: string

definition NewDbusClient :: DbusClient where
  "NewDbusClient =
     \<lparr>busNamePrefix = ''org.SONiC.HostService.'', busPathPrefix = ''/org/SONiC/HostService/'',
      intNamePrefix = ''org.SONiC.HostService.''\<rparr>"

text \<open>What the operations have in common: count, name the module and the method, call.\<close>

definition dbusMethod :: "DbusClient \<Rightarrow> string \<Rightarrow> string \<Rightarrow> nat \<Rightarrow> string list \<Rightarrow> dbus_call" where
  "dbusMethod c modName name timeout args =
     \<lparr>dc_busName = busNamePrefix c @ modName, dc_busPath = busPathPrefix c @ modName,
      dc_intName = intNamePrefix c @ modName @ name, dc_timeout = timeout, dc_args = args\<rparr>"

definition onlyErr :: "(svc_error + dvalue) \<times> 's bus \<Rightarrow> svc_error option \<times> 's bus" where
  "onlyErr r = (case r of (Inl err, b) \<Rightarrow> (Some err, b) | (Inr _, b) \<Rightarrow> (None, b))"

definition stringResult :: "'s bus_env \<Rightarrow> (svc_error + dvalue) \<times> 's bus \<Rightarrow> (svc_error + string) \<times> 's bus" where
  "stringResult e r =
     (case r of
        (Inl err, b) \<Rightarrow> (Inl err, b)
      | (Inr (DString s), b) \<Rightarrow> (Inr s, b)
      | (Inr v, b) \<Rightarrow> (Inl (Plain (''Invalid result type '' @ be_show e [v] @ '' '' @ be_type e v)), b))"

definition ConfigReload :: "'s bus_env \<Rightarrow> DbusClient \<Rightarrow> string \<Rightarrow> 's bus \<Rightarrow> svc_error option \<times> 's bus" where
  "ConfigReload e c config b =
     onlyErr (DbusApi e (dbusMethod c ''config'' ''.reload'' 60 [config]) (countBus e DBUS_CONFIG_RELOAD b))"

definition ConfigReplace :: "'s bus_env \<Rightarrow> DbusClient \<Rightarrow> string \<Rightarrow> 's bus \<Rightarrow> svc_error option \<times> 's bus" where
  "ConfigReplace e c config b =
     onlyErr (DbusApi e (dbusMethod c ''gcu'' ''.replace_db'' 600 [config]) (countBus e DBUS_CONFIG_REPLACE b))"

definition ConfigSave :: "'s bus_env \<Rightarrow> DbusClient \<Rightarrow> string \<Rightarrow> 's bus \<Rightarrow> svc_error option \<times> 's bus" where
  "ConfigSave e c fileName b =
     onlyErr (DbusApi e (dbusMethod c ''config'' ''.save'' 60 [fileName]) (countBus e DBUS_CONFIG_SAVE b))"

definition ApplyPatchYang :: "'s bus_env \<Rightarrow> DbusClient \<Rightarrow> string \<Rightarrow> 's bus \<Rightarrow> svc_error option \<times> 's bus" where
  "ApplyPatchYang e c patch b =
     onlyErr (DbusApi e (dbusMethod c ''gcu'' ''.apply_patch_yang'' 600 [patch]) (countBus e DBUS_APPLY_PATCH_YANG b))"

definition ApplyPatchDb :: "'s bus_env \<Rightarrow> DbusClient \<Rightarrow> string \<Rightarrow> 's bus \<Rightarrow> svc_error option \<times> 's bus" where
  "ApplyPatchDb e c patch b =
     onlyErr (DbusApi e (dbusMethod c ''gcu'' ''.apply_patch_db'' 600 [patch]) (countBus e DBUS_APPLY_PATCH_DB b))"

definition CreateCheckPoint :: "'s bus_env \<Rightarrow> DbusClient \<Rightarrow> string \<Rightarrow> 's bus \<Rightarrow> svc_error option \<times> 's bus" where
  "CreateCheckPoint e c fileName b =
     onlyErr (DbusApi e (dbusMethod c ''gcu'' ''.create_checkpoint'' 60 [fileName]) (countBus e DBUS_CREATE_CHECKPOINT b))"

definition DeleteCheckPoint :: "'s bus_env \<Rightarrow> DbusClient \<Rightarrow> string \<Rightarrow> 's bus \<Rightarrow> svc_error option \<times> 's bus" where
  "DeleteCheckPoint e c fileName b =
     onlyErr (DbusApi e (dbusMethod c ''gcu'' ''.delete_checkpoint'' 60 [fileName]) (countBus e DBUS_DELETE_CHECKPOINT b))"

definition StopService :: "'s bus_env \<Rightarrow> DbusClient \<Rightarrow> string \<Rightarrow> 's bus \<Rightarrow> svc_error option \<times> 's bus" where
  "StopService e c service b =
     onlyErr (DbusApi e (dbusMethod c ''systemd'' ''.stop_service'' 240 [service]) (countBus e DBUS_STOP_SERVICE b))"

definition RestartService :: "'s bus_env \<Rightarrow> DbusClient \<Rightarrow> string \<Rightarrow> 's bus \<Rightarrow> svc_error option \<times> 's bus" where
  "RestartService e c service b =
     onlyErr (DbusApi e (dbusMethod c ''systemd'' ''.restart_service'' 240 [service]) (countBus e DBUS_RESTART_SERVICE b))"

text \<open>An answer of another type than a map of strings is the nil map, without an error.\<close>

definition GetFileStat :: "'s bus_env \<Rightarrow> DbusClient \<Rightarrow> string \<Rightarrow> 's bus \<Rightarrow> (svc_error + string gomap) \<times> 's bus" where
  "GetFileStat e c path b =
     (case DbusApi e (dbusMethod c ''file'' ''.get_file_stat'' 60 [path]) (countBus e DBUS_FILE_STAT b) of
        (Inl err, b1) \<Rightarrow> (Inl err, b1)
      | (Inr (DStrMap m), b1) \<Rightarrow> (Inr m, b1)
      | (Inr _, b1) \<Rightarrow> (Inr [], b1))"

definition DownloadFile ::
  "'s bus_env \<Rightarrow> DbusClient \<Rightarrow> string \<Rightarrow> string \<Rightarrow> string \<Rightarrow> string \<Rightarrow> string \<Rightarrow> string \<Rightarrow> 's bus \<Rightarrow> svc_error option \<times> 's bus" where
  "DownloadFile e c hostname username password remotePath localPath protocol b =
     onlyErr (DbusApi e (dbusMethod c ''file'' ''.download'' 900 [hostname, username, password, remotePath, localPath, protocol])
       (countBus e DBUS_FILE_DOWNLOAD b))"

definition RemoveFile :: "'s bus_env \<Rightarrow> DbusClient \<Rightarrow> string \<Rightarrow> 's bus \<Rightarrow> svc_error option \<times> 's bus" where
  "RemoveFile e c path b =
     onlyErr (DbusApi e (dbusMethod c ''file'' ''.remove'' 60 [path]) (countBus e DBUS_FILE_REMOVE b))"

definition DownloadImage :: "'s bus_env \<Rightarrow> DbusClient \<Rightarrow> string \<Rightarrow> string \<Rightarrow> 's bus \<Rightarrow> svc_error option \<times> 's bus" where
  "DownloadImage e c url save_as b =
     onlyErr (DbusApi e (dbusMethod c ''image_service'' ''.download'' 900 [url, save_as]) (countBus e DBUS_IMAGE_DOWNLOAD b))"

definition InstallImage :: "'s bus_env \<Rightarrow> DbusClient \<Rightarrow> string \<Rightarrow> 's bus \<Rightarrow> svc_error option \<times> 's bus" where
  "InstallImage e c where0 b =
     onlyErr (DbusApi e (dbusMethod c ''image_service'' ''.install'' 900 [where0]) (countBus e DBUS_IMAGE_INSTALL b))"

definition ListImages :: "'s bus_env \<Rightarrow> DbusClient \<Rightarrow> 's bus \<Rightarrow> (svc_error + string) \<times> 's bus" where
  "ListImages e c b =
     stringResult e (DbusApi e (dbusMethod c ''image_service'' ''.list_images'' 60 []) (countBus e DBUS_IMAGE_LIST b))"

definition ActivateImage :: "'s bus_env \<Rightarrow> DbusClient \<Rightarrow> string \<Rightarrow> 's bus \<Rightarrow> svc_error option \<times> 's bus" where
  "ActivateImage e c img b =
     onlyErr (DbusApi e (dbusMethod c ''image_service'' ''.set_next_boot'' 60 [img]) (countBus e DBUS_IMAGE_ACTIVATE b))"

definition LoadDockerImage :: "'s bus_env \<Rightarrow> DbusClient \<Rightarrow> string \<Rightarrow> 's bus \<Rightarrow> svc_error option \<times> 's bus" where
  "LoadDockerImage e c img b =
     onlyErr (DbusApi e (dbusMethod c ''docker_service'' ''.load'' 180 [img]) (countBus e DBUS_DOCKER_LOAD b))"

definition FactoryReset :: "'s bus_env \<Rightarrow> DbusClient \<Rightarrow> string \<Rightarrow> 's bus \<Rightarrow> (svc_error + string) \<times> 's bus" where
  "FactoryReset e c cmd b =
     (case DbusApi e (dbusMethod c ''gnoi_reset'' ''.issue_reset'' 10 [cmd]) (countBus e GNOI_FACTORY_RESET b) of
        (Inl err, b1) \<Rightarrow> (Inl err, b1)
      | (Inr (DString s), b1) \<Rightarrow> (Inr s, b1)
      | (Inr v, b1) \<Rightarrow>
          (Inl (Plain (''Invalid result type '' @ be_type e v @ '': expected string, got '' @ be_type e v)), b1))"

definition InstallOS :: "'s bus_env \<Rightarrow> DbusClient \<Rightarrow> string \<Rightarrow> 's bus \<Rightarrow> (svc_error + string) \<times> 's bus" where
  "InstallOS e c req b =
     (case DbusApi e (dbusMethod c ''image_service'' ''.gnoi_install_os'' 60 [req]) (countBus e GNOI_OS_INSTALL b) of
        (Inl err, b1) \<Rightarrow>
          if contains (errorText err) ''ERROR_UNIMPLEMENTED'' then (Inl (StatusErr Unimplemented (errorText err)), b1)
          else (Inl err, b1)
      | (Inr (DString s), b1) \<Rightarrow>
          if contains s ''ERROR_UNIMPLEMENTED'' then (Inl (StatusErr Unimplemented s), b1) else (Inr s, b1)
      | (Inr v, b1) \<Rightarrow> (Inl (Plain (''Invalid result type '' @ be_show e [v] @ '' '' @ be_type e v)), b1))"

definition HealthzCheck :: "'s bus_env \<Rightarrow> DbusClient \<Rightarrow> string \<Rightarrow> 's bus \<Rightarrow> (svc_error + string) \<times> 's bus" where
  "HealthzCheck e c req b =
     stringResult e (DbusApi e (dbusMethod c ''debug_info'' ''.check'' 10 [req]) (countBus e GNOI_HEALTHZ_CHECK b))"

definition HealthzCollect :: "'s bus_env \<Rightarrow> DbusClient \<Rightarrow> string \<Rightarrow> 's bus \<Rightarrow> (svc_error + string) \<times> 's bus" where
  "HealthzCollect e c req b =
     stringResult e (DbusApi e (dbusMethod c ''debug_info'' ''.collect'' 10 [req]) (countBus e GNOI_HEALTHZ_COLLECT b))"

definition HealthzAck :: "'s bus_env \<Rightarrow> DbusClient \<Rightarrow> string \<Rightarrow> 's bus \<Rightarrow> (svc_error + string) \<times> 's bus" where
  "HealthzAck e c req b =
     stringResult e (DbusApi e (dbusMethod c ''debug_info'' ''.ack'' 10 [req]) (countBus e GNOI_HEALTHZ_ACK b))"

section \<open>Lemmas\<close>

definition countersOk :: "counters \<Rightarrow> bool" where
  "countersOk s \<longleftrightarrow> segment_ok (segment s) \<and> length (globalCounters s) = COUNTER_SIZE"

lemma countBus_ok:
  assumes "countersOk (bus_counters b)"
  shows "countersOk (bus_counters (countBus e c b)) \<and>
         globalCounters (bus_counters (countBus e c b)) = bump c (globalCounters (bus_counters b))"
proof -
  from assms publish_ok [of "(bus_counters b)\<lparr>globalCounters := bump c (globalCounters (bus_counters b))\<rparr>" "be_shm e c"]
  obtain s' where "IncCounter (be_shm e c) c (bus_counters b) = Some s'" "segment_ok (segment s')"
    "globalCounters s' = bump c (globalCounters (bus_counters b))"
    by (auto simp: IncCounter_def countersOk_def)
  with assms show ?thesis by (simp add: countBus_def countersOk_def)
qed

lemma countBus_frame [simp]:
  "bus_calls (countBus e c b) = bus_calls b" "bus_host (countBus e c b) = bus_host b"
  by (simp_all add: countBus_def split: option.splits)

text \<open>What a call leaves, apart from the counters: the bus was reached and the host did its part, or nothing happened.\<close>

lemma DbusApi_cases:
  assumes "DbusApi e call b = (r, b')"
  obtains (unreachable) err where "be_bus e (bus_host b) = Some err" "r = Inl (Plain err)"
      "bus_calls b' = bus_calls b" "bus_host b' = bus_host b"
  | (failed) a h msg where "be_bus e (bus_host b) = None" "be_call e call (bus_host b) = (a, h)"
      "readAnswer e (dc_timeout call) a = Inl msg" "r = Inl (Plain msg)"
      "bus_calls b' = bus_calls b @ [call]" "bus_host b' = h"
  | (answered) a h v where "be_bus e (bus_host b) = None" "be_call e call (bus_host b) = (a, h)"
      "a = Body [DInt32 0, v]" "r = Inr v" "bus_calls b' = bus_calls b @ [call]" "bus_host b' = h"
proof (cases "be_bus e (bus_host b)")
  case (Some err)
  with assms that(1) show thesis by (auto simp: DbusApi_def Let_def fails_def)
next
  case None
  obtain a h where ah: "be_call e call (bus_host b) = (a, h)" by force
  show thesis
  proof (cases "readAnswer e (dc_timeout call) a")
    case (Inl msg)
    with None ah assms that(2) show thesis by (auto simp: DbusApi_def Let_def fails_def)
  next
    case (Inr v)
    then have "a = Body [DInt32 0, v]"
      by (auto simp: readAnswer_def split: bus_answer.splits list.splits dvalue.splits if_splits)
    with None ah assms that(3) Inr show thesis by (auto simp: DbusApi_def Let_def)
  qed
qed

lemma DbusApi_counters:
  assumes "DbusApi e call b = (r, b')" and "countersOk (bus_counters b)"
  shows "countersOk (bus_counters b') \<and>
         globalCounters (bus_counters b') =
           (if isl r then bump DBUS_FAIL else id) (bump DBUS (globalCounters (bus_counters b)))"
proof -
  note ok = countBus_ok [OF assms(2), of e DBUS]
  have [simp]: "bus_counters (x\<lparr>bus_calls := u, bus_host := v\<rparr>) = bus_counters x" for x :: "'a bus" and u v by simp
  show ?thesis
    using assms(1) ok countBus_ok [of "(countBus e DBUS b)\<lparr>bus_calls := bus_calls b @ [call], bus_host := h\<rparr>" e DBUS_FAIL for h]
      countBus_ok [of "countBus e DBUS b" e DBUS_FAIL]
    by (auto simp: DbusApi_def Let_def fails_def split: option.splits prod.splits sum.splits)
qed

section \<open>Properties\<close>

text \<open>
  C28. One use of the bus: \<open>DbusApi\<close> succeeds exactly when the bus is reached and the service answers with status 0
  and one value, which is the result. The call is sent at most once, and not at all when the bus cannot be reached;
  otherwise the host has done what the call does, also when \<open>DbusApi\<close> reports an error. \<open>DBUS\<close> is counted once,
  \<open>DBUS_FAIL\<close> once if and only if there is an error, and no other counter changes.
\<close>

theorem dbus_api_outcome:
  assumes "DbusApi e call b = (r, b')" and "countersOk (bus_counters b)"
  shows "(\<forall>v. r = Inr v \<longleftrightarrow> be_bus e (bus_host b) = None \<and> fst (be_call e call (bus_host b)) = Body [DInt32 0, v]) \<and>
         (bus_calls b', bus_host b') =
           (if be_bus e (bus_host b) = None then (bus_calls b @ [call], snd (be_call e call (bus_host b)))
            else (bus_calls b, bus_host b)) \<and>
         (\<forall>c. globalCounters (bus_counters b') ! ordinal c =
                globalCounters (bus_counters b) ! ordinal c
                  + (if c = DBUS \<or> c = DBUS_FAIL \<and> isl r then 1 else 0))"
proof -
  have len: "length (globalCounters (bus_counters b)) = 30" using assms(2) by (simp add: countersOk_def)
  have "globalCounters (bus_counters b') ! ordinal c =
      globalCounters (bus_counters b) ! ordinal c + (if c = DBUS \<or> c = DBUS_FAIL \<and> isl r then 1 else 0)" for c
    using DbusApi_counters [OF assms] len by (auto simp: nth_bump)
  moreover from assms(1) have "(bus_calls b', bus_host b') =
      (if be_bus e (bus_host b) = None then (bus_calls b @ [call], snd (be_call e call (bus_host b)))
       else (bus_calls b, bus_host b))"
    by (cases rule: DbusApi_cases) auto
  moreover from assms(1) have "r = Inr v \<longleftrightarrow> be_bus e (bus_host b) = None \<and> fst (be_call e call (bus_host b)) = Body [DInt32 0, v]" for v
    by (cases rule: DbusApi_cases) (auto simp: readAnswer_def)
  ultimately show ?thesis by blast
qed

definition busEnvEx :: "string list bus_env" where
  "busEnvEx =
     \<lparr>be_shm = (\<lambda>_. ShmWorks), be_bus = (\<lambda>_. None),
      be_call = (\<lambda>call h. (Body [DInt32 0, DString ''ok''], h @ [dc_intName call])),
      be_show = (\<lambda>_. []), be_type = (\<lambda>_. []), be_errorf = id\<rparr>"

definition busEx :: "string list bus" where
  "busEx = \<lparr>bus_counters = \<lparr>globalCounters = replicate COUNTER_SIZE 0, segment = None\<rparr>, bus_calls = [], bus_host = []\<rparr>"

theorem dbus_api_outcome_witness:
  "let call = dbusMethod NewDbusClient ''gcu'' ''.replace_db'' 600 [''{}'']; (r, b') = DbusApi busEnvEx call busEx
   in r = Inr (DString ''ok'') \<and> bus_calls b' = [call] \<and>
      globalCounters (bus_counters b') ! ordinal DBUS = 1 \<and> globalCounters (bus_counters b') ! ordinal DBUS_FAIL = 0"
proof -
  let ?call = "dbusMethod NewDbusClient ''gcu'' ''.replace_db'' 600 [''{}'']"
  obtain r b' where rb: "DbusApi busEnvEx ?call busEx = (r, b')" by force
  have zero: "globalCounters (bus_counters busEx) ! ordinal c = 0" for c by (simp add: busEx_def)
  have "countersOk (bus_counters busEx)" by (simp add: busEx_def countersOk_def segment_ok_def)
  note out = dbus_api_outcome [OF rb this]
  from out have "r = Inr (DString ''ok'')" by (simp add: busEnvEx_def)
  moreover from out have "bus_calls b' = [?call]" by (simp add: busEnvEx_def busEx_def)
  moreover from out have "globalCounters (bus_counters b') ! ordinal DBUS = 1" by (simp add: zero)
  moreover from out \<open>r = Inr (DString ''ok'')\<close> have "globalCounters (bus_counters b') ! ordinal DBUS_FAIL = 0" by (simp add: zero)
  ultimately show ?thesis by (simp add: rb)
qed

end
