(* ===== verification/Db_Config.thy ===== *)
theory Db_Config
  imports Gnmi_Prelude
begin

text \<open>
  The configuration of the databases as the server reads it, \<^verbatim>\<open>sonic_db_config/db_config.go\<close>: which namespaces,
  containers and databases there are, and how to reach them.

  The file is a wrapper of the class \<open>SonicDBConfig\<close> of the C++ library swss-common, which is not part of the
  program: its calls are the fields of \<open>swss\<close>, over a state of any type. A call that throws arrives in Go as a
  panic, which \<open>CatchException\<close> turns into an error; such a call gives \<^const>\<open>Inl\<close> here. As in Go, the result and
  the error of a function are both returned.
\<close>

section \<open>The library\<close>

record SonicDBKey =
  key_netns :: string
  key_container :: string

datatype dbscope = NoScope | NsScope string | KeyScope SonicDBKey

record 's swss =
  sw_stat :: "string \<Rightarrow> bool"
  sw_IsGlobalInit :: "'s \<Rightarrow> bool"
  sw_InitializeGlobalConfig :: "'s \<Rightarrow> string option \<times> 's"
  sw_IsInit :: "'s \<Rightarrow> bool"
  sw_Initialize :: "'s \<Rightarrow> string option \<times> 's"
  sw_Reset :: "'s \<Rightarrow> string option \<times> 's"
  sw_GetNamespaces :: "'s \<Rightarrow> string + string list"
  sw_GetDbKeys :: "'s \<Rightarrow> string + SonicDBKey list"
  sw_GetDbList :: "dbscope \<Rightarrow> 's \<Rightarrow> string + string list"
  sw_GetSeparator :: "string \<Rightarrow> dbscope \<Rightarrow> 's \<Rightarrow> string + string"
  sw_GetDbId :: "string \<Rightarrow> dbscope \<Rightarrow> 's \<Rightarrow> string + int"
  sw_GetDbSock :: "string \<Rightarrow> dbscope \<Rightarrow> 's \<Rightarrow> string + string"
  sw_GetDbHostname :: "string \<Rightarrow> dbscope \<Rightarrow> 's \<Rightarrow> string + string"
  sw_GetDbPort :: "string \<Rightarrow> dbscope \<Rightarrow> 's \<Rightarrow> string + int"

record 's dbconfig =
  sonic_db_init :: bool
  dbc_lib :: 's

definition SONIC_DB_GLOBAL_CONFIG_FILE :: string where
  "SONIC_DB_GLOBAL_CONFIG_FILE = ''/var/run/redis/sonic-db/database_global.json''"

definition SONIC_DEFAULT_NAMESPACE :: string where "SONIC_DEFAULT_NAMESPACE = []"

definition SONIC_DEFAULT_CONTAINER :: string where "SONIC_DEFAULT_CONTAINER = []"

section \<open>Initialisation\<close>

definition DbInit :: "'s swss \<Rightarrow> 's dbconfig \<Rightarrow> string option \<times> 's dbconfig" where
  "DbInit e s =
     (if sonic_db_init s then (None, s)
      else
        (let isInit = (if sw_stat e SONIC_DB_GLOBAL_CONFIG_FILE then sw_IsGlobalInit e else sw_IsInit e);
             initialize = (if sw_stat e SONIC_DB_GLOBAL_CONFIG_FILE then sw_InitializeGlobalConfig e else sw_Initialize e)
         in if isInit (dbc_lib s) then (None, s\<lparr>sonic_db_init := True\<rparr>)
            else
              (case initialize (dbc_lib s) of
                 (Some err, l) \<Rightarrow> (Some err, s\<lparr>dbc_lib := l\<rparr>)
               | (None, l) \<Rightarrow> (None, s\<lparr>dbc_lib := l, sonic_db_init := True\<rparr>))))"

definition Db_Init :: "'s swss \<Rightarrow> 's dbconfig \<Rightarrow> string option \<times> 's dbconfig" where
  "Db_Init e s = (case sw_Reset e (dbc_lib s) of (err, l) \<Rightarrow> (err, s\<lparr>sonic_db_init := False, dbc_lib := l\<rparr>))"

text \<open>
  How every query goes: initialise if that has not been done, then call the library. The first value is the
  result when the initialisation fails, the second (the zero value of the named result) when the call panics.
\<close>

definition query :: "'s swss \<Rightarrow> 'a \<Rightarrow> 'a \<Rightarrow> ('s \<Rightarrow> string + 'a) \<Rightarrow> 's dbconfig \<Rightarrow> 'a \<times> string option \<times> 's dbconfig" where
  "query e noInit zero f s =
     (case (if sonic_db_init s then (None, s) else DbInit e s) of
        (Some err, s1) \<Rightarrow> (noInit, Some err, s1)
      | (None, s1) \<Rightarrow>
          (case f (dbc_lib s1) of
             Inl p \<Rightarrow> (zero, Some p, s1)
           | Inr v \<Rightarrow> (v, None, s1)))"

definition mapR :: "('a \<Rightarrow> 'b) \<Rightarrow> string + 'a \<Rightarrow> string + 'b" where
  "mapR f r = (case r of Inl p \<Rightarrow> Inl p | Inr v \<Rightarrow> Inr (f v))"

section \<open>Queries by namespace\<close>

definition GetDbDefaultNamespace :: string where
  "GetDbDefaultNamespace = SONIC_DEFAULT_NAMESPACE"

definition CheckDbMultiNamespace :: "'s swss \<Rightarrow> 's dbconfig \<Rightarrow> bool \<times> string option \<times> 's dbconfig" where
  "CheckDbMultiNamespace e = query e False False (\<lambda>l. mapR (\<lambda>ns. length ns > 1) (sw_GetNamespaces e l))"

definition GetDbNonDefaultNamespaces :: "'s swss \<Rightarrow> 's dbconfig \<Rightarrow> string list \<times> string option \<times> 's dbconfig" where
  "GetDbNonDefaultNamespaces e =
     query e [] [] (\<lambda>l. mapR (filter (\<lambda>ns. ns \<noteq> SONIC_DEFAULT_NAMESPACE)) (sw_GetNamespaces e l))"

definition GetDbAllNamespaces :: "'s swss \<Rightarrow> 's dbconfig \<Rightarrow> string list \<times> string option \<times> 's dbconfig" where
  "GetDbAllNamespaces e = query e [] [] (sw_GetNamespaces e)"

definition GetDbNamespaceFromTarget ::
  "'s swss \<Rightarrow> string \<Rightarrow> 's dbconfig \<Rightarrow> (string \<times> bool \<times> string option) \<times> 's dbconfig" where
  "GetDbNamespaceFromTarget e target s =
     (if target = GetDbDefaultNamespace then ((target, True, None), s)
      else
        (case GetDbNonDefaultNamespaces e s of
           (_, Some err, s1) \<Rightarrow> (([], False, Some err), s1)
         | (ns_list, None, s1) \<Rightarrow>
             if target \<in> set ns_list then ((target, True, None), s1) else (([], False, None), s1)))"

text \<open>\<open>GetDbList\<close> does not pass its namespace on.\<close>

definition GetDbList :: "'s swss \<Rightarrow> string \<Rightarrow> 's dbconfig \<Rightarrow> string list \<times> string option \<times> 's dbconfig" where
  "GetDbList e ns = query e [] [] (sw_GetDbList e NoScope)"

definition GetDbSeparator :: "'s swss \<Rightarrow> string \<Rightarrow> string \<Rightarrow> 's dbconfig \<Rightarrow> string \<times> string option \<times> 's dbconfig" where
  "GetDbSeparator e db_name ns = query e [] [] (sw_GetSeparator e db_name (NsScope ns))"

definition GetDbId :: "'s swss \<Rightarrow> string \<Rightarrow> string \<Rightarrow> 's dbconfig \<Rightarrow> int \<times> string option \<times> 's dbconfig" where
  "GetDbId e db_name ns = query e (- 1) 0 (sw_GetDbId e db_name (NsScope ns))"

definition GetDbSock :: "'s swss \<Rightarrow> string \<Rightarrow> string \<Rightarrow> 's dbconfig \<Rightarrow> string \<times> string option \<times> 's dbconfig" where
  "GetDbSock e db_name ns = query e [] [] (sw_GetDbSock e db_name (NsScope ns))"

definition GetDbHostName :: "'s swss \<Rightarrow> string \<Rightarrow> string \<Rightarrow> 's dbconfig \<Rightarrow> string \<times> string option \<times> 's dbconfig" where
  "GetDbHostName e db_name ns = query e [] [] (sw_GetDbHostname e db_name (NsScope ns))"

definition GetDbPort :: "'s swss \<Rightarrow> string \<Rightarrow> string \<Rightarrow> 's dbconfig \<Rightarrow> int \<times> string option \<times> 's dbconfig" where
  "GetDbPort e db_name ns = query e (- 1) 0 (sw_GetDbPort e db_name (NsScope ns))"

definition tcpAddr ::
  "'s swss \<Rightarrow> ('s dbconfig \<Rightarrow> string \<times> string option \<times> 's dbconfig) \<Rightarrow> ('s dbconfig \<Rightarrow> int \<times> string option \<times> 's dbconfig)
   \<Rightarrow> 's dbconfig \<Rightarrow> string \<times> string option \<times> 's dbconfig" where
  "tcpAddr e host port s =
     (case (if sonic_db_init s then (None, s) else DbInit e s) of
        (Some err, s1) \<Rightarrow> ([], Some err, s1)
      | (None, s1) \<Rightarrow>
          (case host s1 of
             (_, Some err, s2) \<Rightarrow> ([], Some err, s2)
           | (hostname, None, s2) \<Rightarrow>
               (case port s2 of
                  (_, Some err, s3) \<Rightarrow> ([], Some err, s3)
                | (p, None, s3) \<Rightarrow> (hostname @ '':'' @ itoa p, None, s3))))"

definition GetDbTcpAddr :: "'s swss \<Rightarrow> string \<Rightarrow> string \<Rightarrow> 's dbconfig \<Rightarrow> string \<times> string option \<times> 's dbconfig" where
  "GetDbTcpAddr e db_name ns = tcpAddr e (GetDbHostName e db_name ns) (GetDbPort e db_name ns)"

section \<open>Queries by key\<close>

definition CheckDbMultiInstance :: "'s swss \<Rightarrow> 's dbconfig \<Rightarrow> bool \<times> string option \<times> 's dbconfig" where
  "CheckDbMultiInstance e = query e False False (\<lambda>l. mapR (\<lambda>ks. length ks > 1) (sw_GetDbKeys e l))"

definition defaultKey :: SonicDBKey where
  "defaultKey = \<lparr>key_netns = SONIC_DEFAULT_NAMESPACE, key_container = SONIC_DEFAULT_CONTAINER\<rparr>"

definition GetDbNonDefaultInstances :: "'s swss \<Rightarrow> 's dbconfig \<Rightarrow> SonicDBKey list \<times> string option \<times> 's dbconfig" where
  "GetDbNonDefaultInstances e = query e [] [] (\<lambda>l. mapR (filter (\<lambda>k. k \<noteq> defaultKey)) (sw_GetDbKeys e l))"

definition GetDbAllInstances :: "'s swss \<Rightarrow> 's dbconfig \<Rightarrow> SonicDBKey list \<times> string option \<times> 's dbconfig" where
  "GetDbAllInstances e = query e [] [] (sw_GetDbKeys e)"

definition GetDbListByDBKey :: "'s swss \<Rightarrow> SonicDBKey \<Rightarrow> 's dbconfig \<Rightarrow> string list \<times> string option \<times> 's dbconfig" where
  "GetDbListByDBKey e dbkey = query e [] [] (sw_GetDbList e (KeyScope dbkey))"

definition GetDbInstanceFromTarget ::
  "'s swss \<Rightarrow> string \<Rightarrow> string \<Rightarrow> 's dbconfig \<Rightarrow> SonicDBKey option \<times> 's dbconfig" where
  "GetDbInstanceFromTarget e ns container s =
     (let dbkey = \<lparr>key_netns = ns, key_container = container\<rparr> in
      case GetDbListByDBKey e dbkey s of
        (_, Some _, s1) \<Rightarrow> (None, s1)
      | (_, None, s1) \<Rightarrow> (Some dbkey, s1))"

definition GetDbSeparatorByDBKey :: "'s swss \<Rightarrow> string \<Rightarrow> SonicDBKey \<Rightarrow> 's dbconfig \<Rightarrow> string \<times> string option \<times> 's dbconfig" where
  "GetDbSeparatorByDBKey e db_name dbkey = query e [] [] (sw_GetSeparator e db_name (KeyScope dbkey))"

definition GetDbIdByDBKey :: "'s swss \<Rightarrow> string \<Rightarrow> SonicDBKey \<Rightarrow> 's dbconfig \<Rightarrow> int \<times> string option \<times> 's dbconfig" where
  "GetDbIdByDBKey e db_name dbkey = query e (- 1) 0 (sw_GetDbId e db_name (KeyScope dbkey))"

definition GetDbSockByDBKey :: "'s swss \<Rightarrow> string \<Rightarrow> SonicDBKey \<Rightarrow> 's dbconfig \<Rightarrow> string \<times> string option \<times> 's dbconfig" where
  "GetDbSockByDBKey e db_name dbkey = query e [] [] (sw_GetDbSock e db_name (KeyScope dbkey))"

definition GetDbHostNameByDBKey :: "'s swss \<Rightarrow> string \<Rightarrow> SonicDBKey \<Rightarrow> 's dbconfig \<Rightarrow> string \<times> string option \<times> 's dbconfig" where
  "GetDbHostNameByDBKey e db_name dbkey = query e [] [] (sw_GetDbHostname e db_name (KeyScope dbkey))"

definition GetDbPortByDBKey :: "'s swss \<Rightarrow> string \<Rightarrow> SonicDBKey \<Rightarrow> 's dbconfig \<Rightarrow> int \<times> string option \<times> 's dbconfig" where
  "GetDbPortByDBKey e db_name dbkey = query e (- 1) 0 (sw_GetDbPort e db_name (KeyScope dbkey))"

definition GetDbTcpAddrByDBKey :: "'s swss \<Rightarrow> string \<Rightarrow> SonicDBKey \<Rightarrow> 's dbconfig \<Rightarrow> string \<times> string option \<times> 's dbconfig" where
  "GetDbTcpAddrByDBKey e db_name dbkey = tcpAddr e (GetDbHostNameByDBKey e db_name dbkey) (GetDbPortByDBKey e db_name dbkey)"

section \<open>Lemmas\<close>

text \<open>A query changes the state only by the initialisation, which happens once.\<close>

lemma DbInit_done [simp]: "sonic_db_init s \<Longrightarrow> DbInit e s = (None, s)"
  by (simp add: DbInit_def)

lemma DbInit_sets: "DbInit e s = (None, s') \<Longrightarrow> sonic_db_init s'"
  by (auto simp: DbInit_def Let_def split: if_splits prod.splits option.splits)

lemma query_initialized [simp]:
  "sonic_db_init s \<Longrightarrow> query e d z f s = (case f (dbc_lib s) of Inl p \<Rightarrow> (z, Some p, s) | Inr v \<Rightarrow> (v, None, s))"
  by (simp add: query_def)

lemma query_ok:
  assumes "query e d z f s = (v, None, s')"
  shows "sonic_db_init s' \<and> DbInit e s = (None, s') \<and> f (dbc_lib s') = Inr v"
  using assms DbInit_sets [of e s]
  by (auto simp: query_def split: if_splits prod.splits option.splits sum.splits)

lemma query_error:
  assumes "query e d z f s = (v, Some err, s')"
  shows "DbInit e s = (Some err, s') \<or> DbInit e s = (None, s') \<and> f (dbc_lib s') = Inl err"
  using assms by (auto simp: query_def split: if_splits prod.splits option.splits sum.splits)

text \<open>After a successful initialisation, queries leave the state alone.\<close>

lemma query_state: "snd (snd (query e d z f s)) = snd (DbInit e s)"
  by (auto simp: query_def split: prod.splits option.splits sum.splits)

end
