(* ===== verification/Data_Client.thy ===== *)
theory Data_Client
  imports Dbus Db_Config
begin

text \<open>
  What the data clients (\<^verbatim>\<open>sonic_data_client\<close>) share: the outcome of a Go function that may return an error or panic,
  running such functions one after the other, \<open>strings.SplitN\<close>, and the path of a redis table (\<open>tablePath\<close> of \<^verbatim>\<open>db_client.go\<close>).

  The locale \<open>call_frame\<close> states what it takes to reason about such sequences: a relation between the state before and
  after, which every call keeps and which is closed under composition.
\<close>

section \<open>Calls\<close>

text \<open>A function returns, returns an error, or panics.\<close>

datatype 'a go = Ret 'a | Err svc_error | Crash

definition bindG :: "'a go \<times> 's \<Rightarrow> ('a \<Rightarrow> 's \<Rightarrow> 'b go \<times> 's) \<Rightarrow> 'b go \<times> 's" where
  "bindG r k = (case r of (Ret x, s) \<Rightarrow> k x s | (Err err, s) \<Rightarrow> (Err err, s) | (Crash, s) \<Rightarrow> (Crash, s))"

fun forG :: "('a \<Rightarrow> 's \<Rightarrow> unit go \<times> 's) \<Rightarrow> 'a list \<Rightarrow> 's \<Rightarrow> unit go \<times> 's" where
  "forG f [] s = (Ret (), s)"
| "forG f (x # xs) s = bindG (f x s) (\<lambda>_. forG f xs)"

text \<open>The same without a state.\<close>

definition thenG :: "'a go \<Rightarrow> ('a \<Rightarrow> 'b go) \<Rightarrow> 'b go" where
  "thenG r k = (case r of Ret x \<Rightarrow> k x | Err err \<Rightarrow> Err err | Crash \<Rightarrow> Crash)"

fun mapG :: "('a \<Rightarrow> 'b go) \<Rightarrow> 'a list \<Rightarrow> 'b list go" where
  "mapG f [] = Ret []"
| "mapG f (x # xs) = thenG (f x) (\<lambda>y. thenG (mapG f xs) (\<lambda>ys. Ret (y # ys)))"

text \<open>\<open>strings.SplitN(s, sep, 2)\<close>; with an empty separator the first character is split off.\<close>

fun cutAt :: "string \<Rightarrow> string \<Rightarrow> (string \<times> string) option" where
  "cutAt [] sep = (if sep = [] then Some ([], []) else None)"
| "cutAt (c # s) sep =
     (if hasPrefix (c # s) sep then Some ([], drop (length sep) (c # s))
      else map_option (\<lambda>(a, b). (c # a, b)) (cutAt s sep))"

definition splitN2 :: "string \<Rightarrow> string \<Rightarrow> string list" where
  "splitN2 s sep =
     (if sep = [] then (case s of [] \<Rightarrow> [] | [c] \<Rightarrow> [[c]] | c # cs \<Rightarrow> [[c], cs])
      else (case cutAt s sep of None \<Rightarrow> [s] | Some (a, b) \<Rightarrow> [a, b]))"

section \<open>Tables\<close>

type_synonym redis_client = "string \<times> int"

datatype operation = opAdd | opRemove

record tablePath =
  dbNamespace :: string
  dbName :: string
  tableName :: string
  tableKey :: string
  delimitor :: string
  field :: string
  jsonValue :: string
  protoValue :: string
  index :: int
  tp_operation :: operation
  jsonTableName :: string
  jsonTableKey :: string
  jsonDelimitor :: string
  jsonField :: string

definition countersDbHasTableKeys :: "string \<Rightarrow> bool" where
  "countersDbHasTableKeys t \<longleftrightarrow> t = ''COUNTERS'' \<or> t = ''PORT_PHY_ATTR''"

section \<open>Lemmas\<close>

lemma bindG_Ret [simp]: "bindG (Ret x, s) k = k x s"
  by (simp add: bindG_def)

lemma bindG_error [simp]: "bindG (Err err, s) k = (Err err, s)" "bindG (Crash, s) k = (Crash, s)"
  by (simp_all add: bindG_def)

lemma bindG_Ret_iff: "bindG r k = (Ret y, s') \<longleftrightarrow> (\<exists>x s1. r = (Ret x, s1) \<and> k x s1 = (Ret y, s'))"
  by (cases r; cases "fst r") (auto simp: bindG_def)

lemma bindG_cases:
  assumes "bindG r k = (y, s')"
  obtains (returned) x s1 where "r = (Ret x, s1)" "k x s1 = (y, s')"
    | (failed) "fst r \<noteq> Ret x" "\<And>x. y \<noteq> Ret x" "s' = snd r"
  using assms by (cases r; cases "fst r") (auto simp: bindG_def)

lemma thenG_simps [simp]: "thenG (Ret x) k = k x" "thenG (Err err) k = Err err" "thenG Crash k = Crash"
  by (simp_all add: thenG_def)

lemma thenG_Ret_iff: "thenG r k = Ret y \<longleftrightarrow> (\<exists>x. r = Ret x \<and> k x = Ret y)"
  by (cases r) auto

lemma mapG_Ret_iff: "mapG f xs = Ret ys \<longleftrightarrow> list_all2 (\<lambda>x y. f x = Ret y) xs ys"
  by (induction xs arbitrary: ys) (auto simp: thenG_Ret_iff list_all2_Cons1)

lemma mapG_pure: "(\<And>x. x \<in> set xs \<Longrightarrow> f x = Ret (g x)) \<Longrightarrow> mapG f xs = Ret (map g xs)"
  by (induction xs) auto

lemma mapG_cong [fundef_cong]: "xs = ys \<Longrightarrow> (\<And>x. x \<in> set ys \<Longrightarrow> f x = g x) \<Longrightarrow> mapG f xs = mapG g ys"
  by (induction xs arbitrary: ys) auto

locale call_frame =
  fixes R :: "'s \<Rightarrow> 's \<Rightarrow> bool"
  assumes refl: "R s s"
    and trans: "R s s1 \<Longrightarrow> R s1 s2 \<Longrightarrow> R s s2"
begin

lemma keeps_bind:
  assumes "R s (snd r)" and "\<And>x s1. r = (Ret x, s1) \<Longrightarrow> R s1 (snd (k x s1))"
  shows "R s (snd (bindG r k))"
  using assms trans by (cases r; cases "fst r") auto

lemma keeps_for:
  assumes "\<And>x s. x \<in> set xs \<Longrightarrow> I s \<Longrightarrow> R s (snd (f x s))" and "\<And>s s'. I s \<Longrightarrow> R s s' \<Longrightarrow> I s'" and "I s"
  shows "R s (snd (forG f xs s))"
  using assms
proof (induction xs arbitrary: s)
  case (Cons x xs)
  have 1: "R s (snd (f x s))" using Cons.prems by simp
  have "R s1 (snd (forG f xs s1))" if "f x s = (Ret u, s1)" for u s1
    by (rule Cons.IH) (use Cons.prems 1 that in auto)
  with 1 show ?case by (auto intro: keeps_bind)
qed (simp add: refl)

end

end
