(* ===== verification/Mixed_Db.thy ===== *)
theory Mixed_Db
  imports Gnmi_Server Json_Client Data_Client
begin

text \<open>
  The data client of native paths (origin \<^verbatim>\<open>sonic-db\<close>), \<^verbatim>\<open>sonic_data_client/mixed_db_client.go\<close>: finding the
  database of a request, turning paths into tables, keys and fields, reading them from redis and writing tables of
  APPL\_DB and DPU\_APPL\_DB. What it does with CONFIG\_DB is in \<^verbatim>\<open>Mixed_Config\<close>.

  The fields of \<open>menv\<close> are what is outside the program: the database configuration library, the D-Bus, redis, the
  tables of swss-common and Python. A table operation that throws arrives as a panic, which the wrappers turn into
  an error. \<open>ms_ops\<close> records every table operation that was tried, \<open>ms_slept\<close> the milliseconds slept. Making a
  table or a connector is taken to succeed. Of an error only the constant part of its text is kept.
\<close>

section \<open>State and environment\<close>

datatype table_kind = ProducerTable | ZmqTable | PlainTable

datatype table_op =
    SetEntry table_kind string string "string gomap"
  | DelEntry table_kind string string

record ('c, 'r) menv =
  me_swss :: "'c swss"
  me_bus :: "(world \<times> 'r) bus_env"
  me_table :: "table_op \<Rightarrow> 'r \<Rightarrow> string option \<times> 'r"
  me_configEntry :: "string \<Rightarrow> string \<Rightarrow> 'r \<Rightarrow> string gomap"
  me_Keys :: "redis_client \<Rightarrow> string \<Rightarrow> 'r \<Rightarrow> string + string list"
  me_Exists :: "redis_client \<Rightarrow> string \<Rightarrow> 'r \<Rightarrow> string option"
  me_HGetAll :: "redis_client \<Rightarrow> string \<Rightarrow> 'r \<Rightarrow> string + string gomap"
  me_HGet :: "redis_client \<Rightarrow> string \<Rightarrow> string \<Rightarrow> 'r \<Rightarrow> string + string"
  me_python :: "string \<Rightarrow> world \<times> 'r \<Rightarrow> bool"
  me_rng :: "string gomap \<Rightarrow> string gomap"
  me_rngJ :: "json gomap \<Rightarrow> json gomap"
  me_jnum :: "string \<Rightarrow> string"
  me_now :: int

record MixedDbClient =
  mc_prefix :: "Path option"
  mc_paths :: "Path option list"
  mc_encoding :: Encoding
  mc_target :: string
  mc_origin :: string
  mc_workPath :: string
  mc_jClient :: "json gomap option"
  mc_applDB :: "(string \<times> SonicDBKey) option"
  mc_zmqClient :: "string option"
  mc_tableMap :: "string list"
  mc_zmqTableMap :: "string list"
  mc_plainTableMap :: "string list"
  mc_dbkey :: "SonicDBKey option"
  mc_mapkey :: string
  mc_namespace_cnt :: nat
  mc_container_cnt :: nat

record ('c, 'r) mstate =
  ms_client :: MixedDbClient
  ms_cfg :: "'c dbconfig"
  ms_RedisDbMap :: "redis_client gomap"
  ms_DbInstNum :: nat
  ms_zmqClientMap :: "string list"
  ms_bus :: "(world \<times> 'r) bus"
  ms_ops :: "table_op list"
  ms_slept :: nat

definition redisState :: "('c, 'r) mstate \<Rightarrow> 'r" where
  "redisState s = snd (bus_host (ms_bus s))"

definition setRedisState :: "'r \<Rightarrow> ('c, 'r) mstate \<Rightarrow> ('c, 'r) mstate" where
  "setRedisState r s = s\<lparr>ms_bus := (ms_bus s)\<lparr>bus_host := (fst (bus_host (ms_bus s)), r)\<rparr>\<rparr>"

section \<open>Constants\<close>

definition LOCAL_ADDRESS :: string where "LOCAL_ADDRESS = ''127.0.0.1''"
definition DPU_APPL_DB_NAME :: string where "DPU_APPL_DB_NAME = ''DPU_APPL_DB''"
definition APPL_DB_NAME :: string where "APPL_DB_NAME = ''APPL_DB''"
definition DASH_TABLE_PREFIX :: string where "DASH_TABLE_PREFIX = ''DASH_''"
definition DASH_HA_TABLE_PREFIX :: string where "DASH_HA_TABLE_PREFIX = ''DASH_HA_''"
definition MAX_RETRY_COUNT :: nat where "MAX_RETRY_COUNT = 5"
definition RETRY_DELAY_MILLISECOND :: nat where "RETRY_DELAY_MILLISECOND = 100"
definition RETRY_DELAY_FACTOR :: nat where "RETRY_DELAY_FACTOR = 2"
definition HOSTNAME :: string where "HOSTNAME = ''localhost''"

section \<open>ZMQ clients\<close>

definition Hget :: "('c, 'r) menv \<Rightarrow> string \<Rightarrow> string \<Rightarrow> string \<Rightarrow> 'r \<Rightarrow> string option" where
  "Hget e table key f r = map_of (me_configEntry e table key r) f"

definition getDpuAddress :: "('c, 'r) menv \<Rightarrow> string \<Rightarrow> 'r \<Rightarrow> string option" where
  "getDpuAddress e dpuId r =
     (case Hget e ''MID_PLANE_BRIDGE'' ''GLOBAL'' ''bridge'' r of
        None \<Rightarrow> None
      | Some bridgePlane \<Rightarrow>
          (case Hget e ''DPUS'' dpuId ''midplane_interface'' r of
             None \<Rightarrow> None
           | Some dpuInterface \<Rightarrow>
               (case Hget e ''DHCP_SERVER_IPV4_PORT'' (bridgePlane @ ''|'' @ dpuInterface) ''ips@'' r of
                  None \<Rightarrow> None
                | Some dpuAddresses \<Rightarrow> Some (hd (split CHR '','' dpuAddresses)))))"

definition getZmqAddress :: "('c, 'r) menv \<Rightarrow> string \<Rightarrow> string \<Rightarrow> 'r \<Rightarrow> string option" where
  "getZmqAddress e container zmqPort r =
     (if zmqPort = [] then None
      else map_option (\<lambda>a. ''tcp://'' @ a @ '':'' @ zmqPort) (getDpuAddress e container r))"

text \<open>Clients are kept by address; the model knows a client by its address.\<close>

definition getZmqClientByAddress :: "string \<Rightarrow> string list \<Rightarrow> string \<times> string list" where
  "getZmqClientByAddress zmqAddress zmqClientMap =
     (zmqAddress, if zmqAddress \<in> set zmqClientMap then zmqClientMap else zmqClientMap @ [zmqAddress])"

definition removeZmqClient :: "string \<Rightarrow> string list \<Rightarrow> bool \<times> string list" where
  "removeZmqClient zmqClient zmqClientMap =
     (zmqClient \<in> set zmqClientMap, filter (\<lambda>a. a \<noteq> zmqClient) zmqClientMap)"

definition getZmqClient :: "('c, 'r) menv \<Rightarrow> string \<Rightarrow> string \<Rightarrow> ('c, 'r) mstate \<Rightarrow> string option go \<times> ('c, 'r) mstate" where
  "getZmqClient e dpuId zmqPort s =
     (let use = (\<lambda>addr. case getZmqClientByAddress addr (ms_zmqClientMap s) of
                     (client, m) \<Rightarrow> (Ret (Some client), s\<lparr>ms_zmqClientMap := m\<rparr>))
      in if zmqPort = [] then (Ret None, s)
         else if dpuId = SONIC_DEFAULT_CONTAINER then use (''tcp://'' @ LOCAL_ADDRESS @ '':'' @ zmqPort)
         else
           (case getZmqAddress e dpuId zmqPort (redisState s) of
              None \<Rightarrow> (Err (Plain ''Get ZMQ address failed''), s)
            | Some addr \<Rightarrow> use addr))"

section \<open>Tables\<close>

text \<open>\<open>GetTable\<close> says which kind of table a name has, and makes it when it is used first.\<close>

definition GetTable :: "string \<Rightarrow> MixedDbClient \<Rightarrow> table_kind \<times> MixedDbClient" where
  "GetTable table c =
     (if table \<in> set (mc_tableMap c) then (ProducerTable, c)
      else if table \<in> set (mc_zmqTableMap c) then (ZmqTable, c)
      else if table \<in> set (mc_plainTableMap c) then (PlainTable, c)
      else if hasPrefix table DASH_HA_TABLE_PREFIX then
        (PlainTable, c\<lparr>mc_plainTableMap := table # mc_plainTableMap c\<rparr>)
      else if hasPrefix table DASH_TABLE_PREFIX \<and> mc_zmqClient c \<noteq> None then
        (ZmqTable, c\<lparr>mc_zmqTableMap := table # mc_zmqTableMap c\<rparr>)
      else (ProducerTable, c\<lparr>mc_tableMap := table # mc_tableMap c\<rparr>))"

text \<open>The wrappers around \<open>Set\<close> and \<open>Delete\<close> of the tables: a panic is the error.\<close>

definition tableWrapper :: "('c, 'r) menv \<Rightarrow> table_op \<Rightarrow> ('c, 'r) mstate \<Rightarrow> string option \<times> ('c, 'r) mstate" where
  "tableWrapper e op s =
     (case me_table e op (redisState s) of
        (err, r) \<Rightarrow> (err, setRedisState r (s\<lparr>ms_ops := ms_ops s @ [op]\<rparr>)))"

definition connectionError :: "string \<Rightarrow> bool" where
  "connectionError err \<longleftrightarrow> contains err ''zmq connection break'' \<or> contains err ''Resource temporarily unavailable''"

text \<open>
  \<open>Connect\<close> of a nil client panics. The loop ends because \<open>retry\<close> grows to one more than \<open>MAX_RETRY_COUNT\<close>.
\<close>

function retryLoop ::
  "nat \<Rightarrow> nat \<Rightarrow> string option \<Rightarrow> (('c, 'r) mstate \<Rightarrow> string option \<times> ('c, 'r) mstate) \<Rightarrow> ('c, 'r) mstate \<Rightarrow> unit go \<times> ('c, 'r) mstate" where
  "retryLoop retry delay zmqClient action s =
     (case action s of
        (None, s1) \<Rightarrow> (Ret (), s1)
      | (Some err, s1) \<Rightarrow>
          if connectionError err \<and> retry \<le> MAX_RETRY_COUNT then
            (case zmqClient of
               None \<Rightarrow> (Crash, s1)
             | Some _ \<Rightarrow>
                 retryLoop (retry + 1) (delay * RETRY_DELAY_FACTOR) zmqClient action (s1\<lparr>ms_slept := ms_slept s1 + delay\<rparr>))
          else (Err (Plain err), s1))"
  by pat_completeness auto
termination
  by (relation "measure (\<lambda>(retry, _). Suc MAX_RETRY_COUNT - retry)") auto

definition RetryHelper ::
  "string option \<Rightarrow> (('c, 'r) mstate \<Rightarrow> string option \<times> ('c, 'r) mstate) \<Rightarrow> ('c, 'r) mstate \<Rightarrow> unit go \<times> ('c, 'r) mstate" where
  "RetryHelper zmqClient action s = retryLoop 0 RETRY_DELAY_MILLISECOND zmqClient action s"

definition runTableOp ::
  "('c, 'r) menv \<Rightarrow> string \<Rightarrow> (table_kind \<Rightarrow> table_op) \<Rightarrow> ('c, 'r) mstate \<Rightarrow> unit go \<times> ('c, 'r) mstate" where
  "runTableOp e table op s =
     (case GetTable table (ms_client s) of
        (kind, c) \<Rightarrow>
          (let s1 = s\<lparr>ms_client := c\<rparr> in
           if kind = PlainTable then
             (case tableWrapper e (op kind) s1 of
                (None, s2) \<Rightarrow> (Ret (), s2)
              | (Some err, s2) \<Rightarrow> (Err (Plain err), s2))
           else RetryHelper (mc_zmqClient c) (tableWrapper e (op kind)) s1))"

definition DbSetTable ::
  "('c, 'r) menv \<Rightarrow> string \<Rightarrow> string \<Rightarrow> string gomap \<Rightarrow> ('c, 'r) mstate \<Rightarrow> unit go \<times> ('c, 'r) mstate" where
  "DbSetTable e table key values = runTableOp e table (\<lambda>kind. SetEntry kind table key (me_rng e values))"

definition DbDelTable :: "('c, 'r) menv \<Rightarrow> string \<Rightarrow> string \<Rightarrow> ('c, 'r) mstate \<Rightarrow> unit go \<times> ('c, 'r) mstate" where
  "DbDelTable e table key = runTableOp e table (\<lambda>kind. DelEntry kind table key)"

section \<open>The database of a request\<close>

definition setCfg :: "'c dbconfig \<Rightarrow> ('c, 'r) mstate \<Rightarrow> ('c, 'r) mstate" where
  "setCfg cfg s = s\<lparr>ms_cfg := cfg\<rparr>"

definition IsTargetDbByDBKey :: "('c, 'r) menv \<Rightarrow> string \<Rightarrow> SonicDBKey \<Rightarrow> 'c dbconfig \<Rightarrow> bool \<times> 'c dbconfig" where
  "IsTargetDbByDBKey e db dbkey cfg =
     (case GetDbInstanceFromTarget (me_swss e) (key_netns dbkey) (key_container dbkey) cfg of
        (None, cfg1) \<Rightarrow> (False, cfg1)
      | (Some _, cfg1) \<Rightarrow>
          (case GetDbListByDBKey (me_swss e) dbkey cfg1 of
             (_, Some _, cfg2) \<Rightarrow> (False, cfg2)
           | (dbList, None, cfg2) \<Rightarrow> (db \<in> set dbList, cfg2)))"

definition noPath :: "string \<Rightarrow> svc_error" where
  "noPath msg = StatusErr Unimplemented msg"

text \<open>
  What \<open>ParseDatabase\<close> keeps while it goes through the paths: target, namespace, container, previous instance. A
  path without elements is passed over, also when the prefix has some.
\<close>

type_synonym parsed = "string \<times> string \<times> string \<times> string"

definition findInstance ::
  "('c, 'r) menv \<Rightarrow> MixedDbClient \<Rightarrow> string \<Rightarrow> parsed \<Rightarrow> 'c dbconfig \<Rightarrow> parsed go \<times> 'c dbconfig" where
  "findInstance e c inst acc cfg =
     (case acc of
        (target, namespace, container, prev) \<Rightarrow>
          if mc_namespace_cnt c > 1 \<and> mc_container_cnt c > 1 then
            (if inst = HOSTNAME then (Ret acc, cfg)
             else
               (case GetDbInstanceFromTarget (me_swss e) inst SONIC_DEFAULT_CONTAINER cfg of
                  (Some _, cfg1) \<Rightarrow> (Ret (target, inst, container, prev), cfg1)
                | (None, cfg1) \<Rightarrow>
                    (case GetDbInstanceFromTarget (me_swss e) SONIC_DEFAULT_NAMESPACE inst cfg1 of
                       (Some _, cfg2) \<Rightarrow> (Ret (target, namespace, inst, prev), cfg2)
                     | (None, cfg2) \<Rightarrow> (Err (Plain ''Unsupported namespace/container''), cfg2))))
          else if mc_namespace_cnt c > 1 then (Ret (target, inst, container, prev), cfg)
          else if mc_container_cnt c > 1 then (Ret (target, namespace, inst, prev), cfg)
          else (Ret acc, cfg))"

definition parsePathDb ::
  "('c, 'r) menv \<Rightarrow> MixedDbClient \<Rightarrow> Path option \<Rightarrow> Path option \<Rightarrow> parsed \<Rightarrow> 'c dbconfig \<Rightarrow> parsed go \<times> 'c dbconfig" where
  "parsePathDb e c prefix path acc cfg =
     (case acc of
        (target, namespace, container, prev) \<Rightarrow>
          if pathElems path = [] then (Ret acc, cfg)
          else
            (case pathElems prefix @ pathElems path of
               e0 # e1 # _ \<Rightarrow>
                 if target \<noteq> [] \<and> target \<noteq> elem_name e0 then (Err (noPath ''Target conflict in path''), cfg)
                 else if prev \<noteq> [] \<and> prev \<noteq> elem_name e1 then (Err (noPath ''Namespace/container conflict in path''), cfg)
                 else
                   findInstance e c (elem_name e1)
                     (if target = [] then elem_name e0 else target, namespace, container,
                      if prev = [] then elem_name e1 else prev) cfg
             | _ \<Rightarrow> (Err (noPath ''Invalid elem length''), cfg)))"

fun parsePathsDb ::
  "('c, 'r) menv \<Rightarrow> MixedDbClient \<Rightarrow> Path option \<Rightarrow> Path option list \<Rightarrow> parsed \<Rightarrow> 'c dbconfig \<Rightarrow> parsed go \<times> 'c dbconfig" where
  "parsePathsDb e c prefix [] acc cfg = (Ret acc, cfg)"
| "parsePathsDb e c prefix (p # ps) acc cfg =
     bindG (parsePathDb e c prefix p acc cfg) (parsePathsDb e c prefix ps)"

definition ParseDatabase ::
  "('c, 'r) menv \<Rightarrow> MixedDbClient \<Rightarrow> Path option \<Rightarrow> Path option list \<Rightarrow> 'c dbconfig \<Rightarrow> (string \<times> SonicDBKey) go \<times> 'c dbconfig" where
  "ParseDatabase e c prefix paths cfg =
     (if paths = [] then (Err (noPath ''No valid path''), cfg)
      else
        bindG (parsePathsDb e c prefix paths ([], SONIC_DEFAULT_NAMESPACE, SONIC_DEFAULT_CONTAINER, []) cfg)
          (\<lambda>(target, namespace, container, _) cfg1.
             if target = [] then (Err (noPath ''No target specified in path''), cfg1)
             else
               (Ret (target,
                  \<lparr>key_netns = (if namespace = HOSTNAME then SONIC_DEFAULT_NAMESPACE else namespace),
                   key_container = (if container = HOSTNAME then SONIC_DEFAULT_NAMESPACE else container)\<rparr>), cfg1)))"

text \<open>The redis clients. The loops stop at the first error and keep what was entered before it.\<close>

fun addDatabases ::
  "('c, 'r) menv \<Rightarrow> SonicDBKey \<Rightarrow> string list \<Rightarrow> redis_client gomap \<Rightarrow> 'c dbconfig \<Rightarrow> bool \<times> redis_client gomap \<times> 'c dbconfig" where
  "addDatabases e dbkey [] m cfg = (True, m, cfg)"
| "addDatabases e dbkey (db # dbs) m cfg =
     (case GetDbSockByDBKey (me_swss e) db dbkey cfg of
        (_, Some _, cfg1) \<Rightarrow> (False, m, cfg1)
      | (addr, None, cfg1) \<Rightarrow>
          (case GetDbIdByDBKey (me_swss e) db dbkey cfg1 of
             (_, Some _, cfg2) \<Rightarrow> (False, m, cfg2)
           | (dbn, None, cfg2) \<Rightarrow>
               addDatabases e dbkey dbs
                 (AList.update (key_netns dbkey @ '':'' @ key_container dbkey @ '':'' @ db) (addr, dbn) m) cfg2))"

fun addInstances ::
  "('c, 'r) menv \<Rightarrow> SonicDBKey list \<Rightarrow> redis_client gomap \<Rightarrow> 'c dbconfig \<Rightarrow> redis_client gomap \<times> 'c dbconfig" where
  "addInstances e [] m cfg = (m, cfg)"
| "addInstances e (dbkey # dbkeys) m cfg =
     (case GetDbListByDBKey (me_swss e) dbkey cfg of
        (_, Some _, cfg1) \<Rightarrow> (m, cfg1)
      | (dbList, None, cfg1) \<Rightarrow>
          (case addDatabases e dbkey dbList m cfg1 of
             (True, m1, cfg2) \<Rightarrow> addInstances e dbkeys m1 cfg2
           | (False, m1, cfg2) \<Rightarrow> (m1, cfg2)))"

definition initRedisDbMap :: "('c, 'r) menv \<Rightarrow> ('c, 'r) mstate \<Rightarrow> ('c, 'r) mstate" where
  "initRedisDbMap e s =
     (case GetDbAllInstances (me_swss e) (ms_cfg s) of
        (_, Some _, cfg) \<Rightarrow> setCfg cfg s
      | (dbkeys, None, cfg) \<Rightarrow>
          if length dbkeys = ms_DbInstNum s then setCfg cfg s
          else
            (case addInstances e dbkeys [] cfg of
               (m, cfg1) \<Rightarrow> setCfg cfg1 (s\<lparr>ms_DbInstNum := length dbkeys, ms_RedisDbMap := m\<rparr>)))"

definition newClient :: "Path option \<Rightarrow> string \<Rightarrow> Encoding \<Rightarrow> SonicDBKey list \<Rightarrow> MixedDbClient" where
  "newClient prefix origin encoding dbkeys =
     \<lparr>mc_prefix = prefix, mc_paths = [], mc_encoding = encoding,
      mc_target = (case pathElems prefix of [] \<Rightarrow> [] | e0 # _ \<Rightarrow> elem_name e0),
      mc_origin = origin, mc_workPath = [], mc_jClient = None, mc_applDB = None, mc_zmqClient = None,
      mc_tableMap = [], mc_zmqTableMap = [], mc_plainTableMap = [], mc_dbkey = None, mc_mapkey = [],
      mc_namespace_cnt = 1 + length (filter (\<lambda>k. key_netns k \<noteq> SONIC_DEFAULT_NAMESPACE) dbkeys),
      mc_container_cnt = 1 + length (filter (\<lambda>k. key_container k \<noteq> SONIC_DEFAULT_CONTAINER) dbkeys)\<rparr>"

definition GNMI_WORK_PATH :: string where "GNMI_WORK_PATH = ''/tmp''"

text \<open>\<open>ms_client\<close> of the argument is not used: the new client replaces it. The string is \<open>targetDbName\<close>.\<close>

definition NewMixedDbClient ::
  "('c, 'r) menv \<Rightarrow> Path option list \<Rightarrow> Path option \<Rightarrow> string \<Rightarrow> Encoding \<Rightarrow> string \<Rightarrow> ('c, 'r) mstate
   \<Rightarrow> (unit go \<times> string) \<times> ('c, 'r) mstate" where
  "NewMixedDbClient e paths prefix origin encoding zmqPort s0 =
     (let s1 = initRedisDbMap e s0 in
      case GetDbAllInstances (me_swss e) (ms_cfg s1) of
        (dbkeys, _, cfg1) \<Rightarrow>
          (let c = newClient prefix origin encoding dbkeys; s2 = (setCfg cfg1 s1)\<lparr>ms_client := c\<rparr> in
           if paths = [] then ((Ret (), []), s2)
           else
             (case ParseDatabase e c prefix paths cfg1 of
                (Err err, cfg2) \<Rightarrow> ((Err err, []), setCfg cfg2 s2)
              | (Crash, cfg2) \<Rightarrow> ((Crash, []), setCfg cfg2 s2)
              | (Ret (target, dbkey), cfg2) \<Rightarrow>
                  (case IsTargetDbByDBKey e target dbkey cfg2 of
                     (False, cfg3) \<Rightarrow> ((Err (noPath ''Invalid target''), []), setCfg cfg3 s2)
                   | (True, cfg3) \<Rightarrow>
                       (let c1 = c\<lparr>mc_applDB :=
                                     (if target = DPU_APPL_DB_NAME \<or> target = APPL_DB_NAME then Some (target, dbkey) else None),
                                   mc_target := target, mc_mapkey := key_netns dbkey @ '':'' @ key_container dbkey,
                                   mc_paths := paths, mc_workPath := GNMI_WORK_PATH\<rparr>
                        in case getZmqClient e (key_container dbkey) zmqPort ((setCfg cfg3 s2)\<lparr>ms_client := c1\<rparr>) of
                             (Ret zmq, s3) \<Rightarrow> ((Ret (), target), s3\<lparr>ms_client := c1\<lparr>mc_zmqClient := zmq, mc_dbkey := Some dbkey\<rparr>\<rparr>)
                           | (Err err, s3) \<Rightarrow> ((Err (Plain ''Get ZMQ client failed''), target), s3)
                           | (Crash, s3) \<Rightarrow> ((Crash, target), s3))))))"

section \<open>Paths\<close>

text \<open>The elements below database and instance; \<^const>\<open>None\<close> inside \<^const>\<open>Ret\<close> is the nil slice.\<close>

definition gnmiFullPath :: "Path option \<Rightarrow> Path option \<Rightarrow> PathElem list option go" where
  "gnmiFullPath prefix path =
     (if path = None \<and> (case prefix of None \<Rightarrow> True | Some p \<Rightarrow> path_origin p = []) then Crash
      else if pathElems path = [] then Ret None
      else
        (let elems = pathElems prefix @ pathElems path in
         if length elems < 2 then Err (Plain ''Invalid gnmi path: length'') else Ret (Some (drop 2 elems))))"

fun elemStrings :: "PathElem list \<Rightarrow> string list" where
  "elemStrings [] = []"
| "elemStrings (e # es) =
     elem_name e # (case map_of (elem_key e) ''key'' of None \<Rightarrow> [] | Some v \<Rightarrow> [v]) @ elemStrings es"

text \<open>Tables of COUNTERS\_DB without keys get an empty key.\<close>

definition dummyKey :: "string \<Rightarrow> string list \<Rightarrow> string list" where
  "dummyKey db ss =
     (case ss of
        d # t # rest \<Rightarrow> if db = ''COUNTERS_DB'' \<and> \<not> countersDbHasTableKeys t then d # t # [] # rest else ss
      | _ \<Rightarrow> ss)"

text \<open>What the value of an update contributes: operation, \<open>jsonValue\<close> and \<open>protoValue\<close>.\<close>

definition valueParts :: "TypedValue \<Rightarrow> (operation \<times> string \<times> string) option" where
  "valueParts v =
     (case v of
        NilVal \<Rightarrow> Some (opRemove, [], [])
      | JsonIetfVal jv \<Rightarrow> Some (opAdd, jv, [])
      | ProtoBytes pv \<Rightarrow> Some (opAdd, [], pv)
      | _ \<Rightarrow> None)"

definition existsFails :: "('c, 'r) menv \<Rightarrow> redis_client \<Rightarrow> operation \<Rightarrow> string \<Rightarrow> ('c, 'r) mstate \<Rightarrow> bool" where
  "existsFails e redisDb op key s \<longleftrightarrow> op = opRemove \<and> me_Exists e redisDb key (redisState s) \<noteq> None"

definition placePath ::
  "('c, 'r) menv \<Rightarrow> redis_client \<Rightarrow> string list \<Rightarrow> tablePath \<Rightarrow> ('c, 'r) mstate \<Rightarrow> tablePath go" where
  "placePath e redisDb ss tp s =
     (let key = (\<lambda>k. tableName tp @ delimitor tp @ k); missing = Err (Plain ''redis Exists op failed for'') in
      case ss of
        [_] \<Rightarrow> Ret tp
      | [_, _] \<Rightarrow>
          if tp_operation tp = opRemove \<and>
             (case me_Keys e redisDb (tableName tp @ ''*'') (redisState s) of Inl _ \<Rightarrow> True | Inr res \<Rightarrow> res = [])
          then Err (Plain ''Failed to find'')
          else Ret tp
      | [_, _, k] \<Rightarrow>
          if existsFails e redisDb (tp_operation tp) (key k) s then missing else Ret (tp\<lparr>tableKey := k\<rparr>)
      | [_, _, k, f] \<Rightarrow>
          if existsFails e redisDb (tp_operation tp) (key k) s then missing else Ret (tp\<lparr>tableKey := k, field := f\<rparr>)
      | [_, _, k, f, i] \<Rightarrow>
          if existsFails e redisDb (tp_operation tp) (key k) s then missing
          else (case atoi i of None \<Rightarrow> Err (Plain ''Invalid index'') | Some n \<Rightarrow> Ret (tp\<lparr>tableKey := k, field := f, index := n\<rparr>))
      | _ \<Rightarrow> Err (Plain ''Invalid db table Path''))"

definition getDbtablePath ::
  "('c, 'r) menv \<Rightarrow> Path option \<Rightarrow> TypedValue \<Rightarrow> ('c, 'r) mstate \<Rightarrow> tablePath list go \<times> ('c, 'r) mstate" where
  "getDbtablePath e path v s =
     (let c = ms_client s in
      case gnmiFullPath (mc_prefix c) path of
        Err err \<Rightarrow> (Err err, s)
      | Crash \<Rightarrow> (Crash, s)
      | Ret full \<Rightarrow>
          (case mc_dbkey c of
             None \<Rightarrow> (Crash, s)
           | Some dbkey \<Rightarrow>
               (case GetDbSeparatorByDBKey (me_swss e) (mc_target c) dbkey (ms_cfg s) of
                  (separator, _, cfg) \<Rightarrow>
                    (let s1 = setCfg cfg s; db = mc_target c;
                         ss0 = db # elemStrings (case full of None \<Rightarrow> [] | Some es \<Rightarrow> es);
                         ss = dummyKey db ss0
                     in case valueParts v of
                          None \<Rightarrow> (Err (Plain ''Unsupported TypedValue''), s1)
                        | Some (op, jv, pv) \<Rightarrow>
                            (case map_of (ms_RedisDbMap s1) (mc_mapkey c @ '':'' @ db) of
                               None \<Rightarrow> (Err (Plain ''Redis Client not present for dbName''), s1)
                             | Some redisDb \<Rightarrow>
                                 (case placePath e redisDb ss
                                         \<lparr>dbNamespace = key_netns dbkey, dbName = db,
                                          tableName = (case ss of _ # t # _ \<Rightarrow> t | _ \<Rightarrow> []), tableKey = [],
                                          delimitor = separator, field = [], jsonValue = jv, protoValue = pv,
                                          index = - 1, tp_operation = op, jsonTableName = [],
                                          jsonTableKey = [], jsonDelimitor = [], jsonField = []\<rparr> s1 of
                                    Ret tp \<Rightarrow> (Ret [tp], s1)
                                  | Err err \<Rightarrow> (Err err, s1)
                                  | Crash \<Rightarrow> (Crash, s1)))))))"

fun getAllDbtablePath ::
  "('c, 'r) menv \<Rightarrow> Path option list \<Rightarrow> ('c, 'r) mstate \<Rightarrow> tablePath list list go \<times> ('c, 'r) mstate" where
  "getAllDbtablePath e [] s = (Ret [], s)"
| "getAllDbtablePath e (p # ps) s =
     bindG (getDbtablePath e p NilVal s)
       (\<lambda>tps s1. bindG (getAllDbtablePath e ps s1) (\<lambda>tpss s2. (Ret (tps # tpss), s2)))"

section \<open>Reading\<close>

text \<open>What \<open>map[string]interface{}\<close> holds: JSON data, the bytes of a protobuf, or a pointer to the map of a table.\<close>

datatype mval = MJson json | MBytes string | MPtr "json gomap"

text \<open>One field of a hash: the field \<open>NULL\<close> is left out, a name that ends in \<^verbatim>\<open>@\<close> is a list.\<close>

definition redisJson :: "string \<times> string \<Rightarrow> (string \<times> json) option" where
  "redisJson fv =
     (case fv of
        (f, v) \<Rightarrow>
          if f = ''NULL'' then None
          else if hasSuffix f ''@'' then Some (trimSuffix f ''@'', JArr (map JStr (split CHR '','' v)))
          else Some (f, JStr v))"

definition putFields :: "(json \<Rightarrow> 'v) \<Rightarrow> string gomap \<Rightarrow> 'v gomap \<Rightarrow> 'v gomap" where
  "putFields wrap fvs m =
     foldl (\<lambda>m fv. case redisJson fv of None \<Rightarrow> m | Some (k, j) \<Rightarrow> AList.update k (wrap j) m) m fvs"

definition makeJSON_redis ::
  "(string gomap \<Rightarrow> string gomap) \<Rightarrow> (json \<Rightarrow> 'v) \<Rightarrow> 'v gomap \<Rightarrow> string option \<Rightarrow> string option \<Rightarrow> string gomap \<Rightarrow> 'v gomap" where
  "makeJSON_redis rng wrap msi key op mfv =
     (let fp = putFields id (rng mfv) [] in
      case (key, op) of
        (None, None) \<Rightarrow> putFields wrap (rng mfv) msi
      | (None, Some o') \<Rightarrow> AList.update o' (wrap (JObj fp)) msi
      | (Some k, None) \<Rightarrow> AList.update k (wrap (JObj fp)) msi
      | (Some k, Some o') \<Rightarrow> AList.update k (wrap (JObj [(o', JObj fp)])) msi)"

definition addHash ::
  "('c, 'r) menv \<Rightarrow> Encoding \<Rightarrow> tablePath \<Rightarrow> bool \<Rightarrow> string option \<Rightarrow> string \<Rightarrow> string gomap \<Rightarrow> mval gomap \<Rightarrow> mval gomap go" where
  "addHash e enc tp useKey op dbkey fv msi =
     (if tableName tp = [] then
        (case splitN2 dbkey (delimitor tp) of
           t # key # _ \<Rightarrow>
             (let table_msi = (case map_of msi t of Some (MPtr m) \<Rightarrow> m | _ \<Rightarrow> []) in
              Ret (AList.update t (MPtr (makeJSON_redis (me_rng e) id table_msi (Some key) op fv)) msi))
         | _ \<Rightarrow> Crash)
      else if tableKey tp \<noteq> [] \<and> \<not> useKey \<or> tableName tp = dbkey then
        (if enc = JSON_IETF then Ret (makeJSON_redis (me_rng e) MJson msi None op fv)
         else if enc = PROTO then
           (case map_of fv ''pb'' of
              Some v \<Rightarrow> Ret (AList.update ''pb'' (MBytes v) msi)
            | None \<Rightarrow> Err (Plain ''No proto bytes found in redis''))
         else Ret msi)
      else
        (case splitN2 dbkey (delimitor tp) of
           _ # key # _ \<Rightarrow> Ret (makeJSON_redis (me_rng e) MJson msi (Some key) op fv)
         | _ \<Rightarrow> Crash))"

fun addHashes ::
  "('c, 'r) menv \<Rightarrow> Encoding \<Rightarrow> redis_client \<Rightarrow> 'r \<Rightarrow> tablePath \<Rightarrow> bool \<Rightarrow> string option \<Rightarrow> string list \<Rightarrow> mval gomap \<Rightarrow> mval gomap go" where
  "addHashes e enc redisDb r tp useKey op [] msi = Ret msi"
| "addHashes e enc redisDb r tp useKey op (dbkey # dbkeys) msi =
     (case me_HGetAll e redisDb dbkey r of
        Inl err \<Rightarrow> Err (Plain err)
      | Inr fv \<Rightarrow>
          (case addHash e enc tp useKey op dbkey fv msi of
             Ret msi1 \<Rightarrow> addHashes e enc redisDb r tp useKey op dbkeys msi1
           | Err err \<Rightarrow> Err err
           | Crash \<Rightarrow> Crash))"

definition tablePattern :: "tablePath \<Rightarrow> string" where
  "tablePattern tp =
     (if dbName tp = ''COUNTERS_DB'' \<and> \<not> countersDbHasTableKeys (tableName tp) then tableName tp
      else tableName tp @ delimitor tp @ ''*'')"

definition redisOf :: "tablePath \<Rightarrow> ('c, 'r) mstate \<Rightarrow> redis_client option" where
  "redisOf tp s = map_of (ms_RedisDbMap s) (mc_mapkey (ms_client s) @ '':'' @ dbName tp)"

definition tableData2Msi ::
  "('c, 'r) menv \<Rightarrow> tablePath \<Rightarrow> bool \<Rightarrow> string option \<Rightarrow> mval gomap \<Rightarrow> ('c, 'r) mstate \<Rightarrow> mval gomap go" where
  "tableData2Msi e tp useKey op msi s =
     (case redisOf tp s of
        None \<Rightarrow> Err (Plain ''Redis Client not present for dbName'')
      | Some redisDb \<Rightarrow>
          (let go_on = (\<lambda>keys. case keys of
                          Inl err \<Rightarrow> Err (Plain ''redis Keys failed for'')
                        | Inr dbkeys \<Rightarrow> addHashes e (mc_encoding (ms_client s)) redisDb (redisState s) tp useKey op dbkeys msi)
           in if tableName tp = [] then
                (if dbName tp = ''COUNTERS_DB'' then Err (Plain ''Can not read all tables in COUNTERS_DB'')
                 else go_on (me_Keys e redisDb (''*'' @ delimitor tp @ ''*'') (redisState s)))
              else if tableKey tp = [] then go_on (me_Keys e redisDb (tablePattern tp) (redisState s))
              else go_on (Inr [tableName tp @ delimitor tp @ tableKey tp])))"

text \<open>\<open>json.Marshal\<close> writes bytes in base 64.\<close>

definition b64char :: "nat \<Rightarrow> char" where
  "b64char n =
     (''ABCDEFGHIJKLMNOPQRSTUVWXYZabcdefghijklmnopqrstuvwxyz0123456789+/'') ! (n mod 64)"

fun base64 :: "string \<Rightarrow> string" where
  "base64 [] = []"
| "base64 [a] = (let n = of_char a * 16 :: nat in [b64char (n div 64), b64char n, CHR ''='', CHR ''=''])"
| "base64 [a, b] =
     (let n = (of_char a * 256 + of_char b) * 4 :: nat in [b64char (n div 4096), b64char (n div 64), b64char n, CHR ''=''])"
| "base64 (a # b # c # s) =
     (let n = (of_char a * 256 + of_char b) * 256 + of_char c :: nat
      in b64char (n div 262144) # b64char (n div 4096) # b64char (n div 64) # b64char n # base64 s)"

fun mvalJson :: "mval \<Rightarrow> json" where
  "mvalJson (MJson j) = j"
| "mvalJson (MBytes b) = JStr (base64 b)"
| "mvalJson (MPtr m) = JObj m"

definition msi2TypedValue :: "('c, 'r) menv \<Rightarrow> Encoding \<Rightarrow> mval gomap \<Rightarrow> TypedValue go" where
  "msi2TypedValue e enc msi =
     (if enc = JSON_IETF then Ret (JsonIetfVal (emitJSON (me_jnum e) (map (\<lambda>(k, v). (k, mvalJson v)) msi)))
      else if enc = PROTO then
        (case map_of msi ''pb'' of
           None \<Rightarrow> Err (Plain ''No proto bytes found in msi'')
         | Some (MBytes b) \<Rightarrow> Ret (ProtoBytes b)
         | Some _ \<Rightarrow> Crash)
      else Err (Plain ''Unknown encoding''))"

definition fieldValue :: "('c, 'r) menv \<Rightarrow> redis_client \<Rightarrow> tablePath \<Rightarrow> 'r \<Rightarrow> TypedValue go" where
  "fieldValue e redisDb tp r =
     (let key = (if tableKey tp \<noteq> [] then tableName tp @ delimitor tp @ tableKey tp else tableName tp) in
      if index tp \<ge> 0 then
        (case me_HGet e redisDb key (field tp @ ''@'') r of
           Inl err \<Rightarrow> Err (Plain err)
         | Inr v \<Rightarrow>
             (let slice = split CHR '','' v in
              if index tp \<ge> int (length slice) then Err (Plain ''Invalid index'')
              else Ret (JsonIetfVal (quoted (slice ! nat (index tp))))))
      else
        (case me_HGet e redisDb key (field tp) r of
           Inr v \<Rightarrow> Ret (JsonIetfVal (quoted v))
         | Inl _ \<Rightarrow>
             (case me_HGet e redisDb key (field tp @ ''@'') r of
                Inr v \<Rightarrow> Ret (JsonIetfVal (marshal (JArr (map JStr (split CHR '','' v)))))
              | Inl err \<Rightarrow> Err (Plain err))))"

fun typedValueLoop ::
  "('c, 'r) menv \<Rightarrow> tablePath list \<Rightarrow> mval gomap \<Rightarrow> ('c, 'r) mstate \<Rightarrow> TypedValue go" where
  "typedValueLoop e [] msi s = msi2TypedValue e (mc_encoding (ms_client s)) msi"
| "typedValueLoop e (tp # tps) msi s =
     (case redisOf tp s of
        None \<Rightarrow> Err (Plain ''Redis Client not present for dbName'')
      | Some redisDb \<Rightarrow>
          if jsonField tp = [] \<and> field tp \<noteq> [] then fieldValue e redisDb tp (redisState s)
          else
            (case tableData2Msi e tp False None msi s of
               Ret msi1 \<Rightarrow> typedValueLoop e tps msi1 s
             | Err err \<Rightarrow> Err err
             | Crash \<Rightarrow> Crash))"

definition tableData2TypedValue :: "('c, 'r) menv \<Rightarrow> tablePath list \<Rightarrow> ('c, 'r) mstate \<Rightarrow> TypedValue go" where
  "tableData2TypedValue e tblPaths s = typedValueLoop e tblPaths [] s"

fun getTables ::
  "('c, 'r) menv \<Rightarrow> Path option list \<Rightarrow> ('c, 'r) mstate \<Rightarrow> Value list go \<times> ('c, 'r) mstate" where
  "getTables e [] s = (Ret [], s)"
| "getTables e (p # ps) s =
     bindG (getDbtablePath e p NilVal s)
       (\<lambda>tps s1. bindG (tableData2TypedValue e tps s1, s1)
          (\<lambda>v s2. bindG (getTables e ps s2)
             (\<lambda>vs s3. (Ret (\<lparr>val_Path = p, val_Val = v, val_Timestamp = me_now e\<rparr> # vs), s3))))"

section \<open>Writing\<close>

text \<open>A list keeps its strings; every other value that is not a string is left out.\<close>

definition dbField :: "string \<times> json \<Rightarrow> (string \<times> string) option" where
  "dbField kv =
     (case kv of
        (k, JStr s) \<Rightarrow> Some (k, s)
      | (k, JArr vs) \<Rightarrow> Some (k @ ''@'', join '','' (List.map_filter (\<lambda>v. case v of JStr s \<Rightarrow> Some s | _ \<Rightarrow> None) vs))
      | _ \<Rightarrow> None)"

definition ConvertDbEntry :: "(json gomap \<Rightarrow> json gomap) \<Rightarrow> json gomap \<Rightarrow> string gomap" where
  "ConvertDbEntry rng inputData =
     foldl (\<lambda>m kv. case dbField kv of None \<Rightarrow> m | Some (f, v) \<Rightarrow> AList.update f v m) [] (rng inputData)"

definition setEntry ::
  "('c, 'r) menv \<Rightarrow> string \<Rightarrow> string \<Rightarrow> json \<Rightarrow> ('c, 'r) mstate \<Rightarrow> unit go \<times> ('c, 'r) mstate" where
  "setEntry e table key v s =
     (case v of
        JObj ms \<Rightarrow> DbSetTable e table key (ConvertDbEntry (me_rngJ e) (lastWins ms)) s
      | _ \<Rightarrow> (Err (Plain ''Unsupported value''), s))"

definition removeEntries :: "('c, 'r) menv \<Rightarrow> redis_client \<Rightarrow> tablePath \<Rightarrow> ('c, 'r) mstate \<Rightarrow> unit go \<times> ('c, 'r) mstate" where
  "removeEntries e redisDb tp s =
     (let del = (\<lambda>dbkey. DbDelTable e (tableName tp) (trimPrefix dbkey (tableName tp @ delimitor tp))) in
      if tableKey tp = [] then
        (case me_Keys e redisDb (tablePattern tp) (redisState s) of
           Inl _ \<Rightarrow> (Err (Plain ''redis Keys failed for''), s)
         | Inr dbkeys \<Rightarrow> forG del dbkeys s)
      else forG del [tableName tp @ delimitor tp @ tableKey tp] s)"

definition addEntries :: "('c, 'r) menv \<Rightarrow> tablePath \<Rightarrow> ('c, 'r) mstate \<Rightarrow> unit go \<times> ('c, 'r) mstate" where
  "addEntries e tp s =
     (if tableKey tp \<noteq> [] then
        (if jsonValue tp \<noteq> [] then
           (case parseJson (jsonValue tp) of
              None \<Rightarrow> (Err (Plain ''JSON unmarshalling error''), s)
            | Some v \<Rightarrow> setEntry e (tableName tp) (tableKey tp) v s)
         else setEntry e (tableName tp) (tableKey tp) (JObj [(''pb'', JStr (protoValue tp))]) s)
      else if jsonValue tp = [] then (Err (Plain ''No valid value''), s)
      else
        (case parseJson (jsonValue tp) of
           None \<Rightarrow> (Err (Plain ''JSON unmarshalling error''), s)
         | Some (JObj ms) \<Rightarrow>
             forG (\<lambda>(tableKey, tres). setEntry e (tableName tp) tableKey tres) (me_rngJ e (lastWins ms)) s
         | Some _ \<Rightarrow> (Err (Plain ''Unsupported value''), s)))"

definition handleTablePath :: "('c, 'r) menv \<Rightarrow> tablePath \<Rightarrow> ('c, 'r) mstate \<Rightarrow> unit go \<times> ('c, 'r) mstate" where
  "handleTablePath e tp s =
     (case redisOf tp s of
        None \<Rightarrow> (Err (Plain ''Redis Client not present for dbName''), s)
      | Some redisDb \<Rightarrow>
          if jsonField tp = [] \<and> field tp \<noteq> [] then (Err (Plain ''Unsupported path''), s)
          else (case tp_operation tp of opRemove \<Rightarrow> removeEntries e redisDb tp s | opAdd \<Rightarrow> addEntries e tp s))"

definition handleTableData :: "('c, 'r) menv \<Rightarrow> tablePath list \<Rightarrow> ('c, 'r) mstate \<Rightarrow> unit go \<times> ('c, 'r) mstate" where
  "handleTableData e tblPaths = forG (handleTablePath e) tblPaths"

definition setItem :: "('c, 'r) menv \<Rightarrow> Update \<Rightarrow> ('c, 'r) mstate \<Rightarrow> unit go \<times> ('c, 'r) mstate" where
  "setItem e item s = bindG (getDbtablePath e (upd_path item) (upd_val item) s) (handleTableData e)"

definition SetDB ::
  "('c, 'r) menv \<Rightarrow> Path option list \<Rightarrow> Update list \<Rightarrow> Update list \<Rightarrow> ('c, 'r) mstate \<Rightarrow> unit go \<times> ('c, 'r) mstate" where
  "SetDB e delete replace update s =
     bindG (getAllDbtablePath e delete s)
       (\<lambda>tpss s1. bindG (forG (handleTableData e) tpss s1)
          (\<lambda>_ s2. bindG (forG (setItem e) replace s2) (\<lambda>_. forG (setItem e) update)))"

section \<open>Lemmas: writing tables\<close>

declare retryLoop.simps [simp del]

lemma redisState_set [simp]: "redisState (setRedisState r s) = r"
  by (simp add: redisState_def setRedisState_def)

lemma setRedisState_frame [simp]:
  "ms_ops (setRedisState r s) = ms_ops s" "ms_slept (setRedisState r s) = ms_slept s"
  "ms_client (setRedisState r s) = ms_client s" "ms_RedisDbMap (setRedisState r s) = ms_RedisDbMap s"
  "ms_cfg (setRedisState r s) = ms_cfg s" "ms_zmqClientMap (setRedisState r s) = ms_zmqClientMap s"
  by (simp_all add: setRedisState_def)

lemma tableWrapper_frame:
  assumes "tableWrapper e op s = (err, s')"
  shows "ms_ops s' = ms_ops s @ [op]" "ms_slept s' = ms_slept s" "ms_client s' = ms_client s"
    "ms_RedisDbMap s' = ms_RedisDbMap s"
  using assms by (auto simp: tableWrapper_def split: prod.splits)

text \<open>The attempts of the retry loop, with the time it sleeps.\<close>

lemma retryLoop_attempts:
  assumes "retryLoop retry delay z (tableWrapper e op) s = (r, s')" and "retry \<le> 6"
  shows "\<exists>n. 1 \<le> n \<and> n + retry \<le> 7 \<and> ms_ops s' = ms_ops s @ replicate n op
            \<and> ms_slept s' = ms_slept s + delay * (2 ^ (n - 1) - 1) \<and> ms_client s' = ms_client s
            \<and> (\<forall>err. r = Err (Plain err) \<and> connectionError err \<longrightarrow> n + retry = 7)
            \<and> (r = Crash \<longrightarrow> z = None \<and> n = 1) \<and> (\<forall>c m. r \<noteq> Err (StatusErr c m))"
  using assms
proof (induction retry delay z "tableWrapper e op" s rule: retryLoop.induct)
  case (1 retry delay z s)
  obtain a s1 where a: "tableWrapper e op s = (a, s1)" by force
  note f = tableWrapper_frame [OF a]
  show ?case
  proof (cases "\<exists>err zc. a = Some err \<and> connectionError err \<and> retry \<le> 5 \<and> z = Some zc")
    case True
    then obtain err zc where *: "a = Some err" "connectionError err" "retry \<le> MAX_RETRY_COUNT" "z = Some zc"
      by (auto simp: MAX_RETRY_COUNT_def)
    let ?s2 = "s1\<lparr>ms_slept := ms_slept s1 + delay\<rparr>"
    have loop: "retryLoop (retry + 1) (delay * RETRY_DELAY_FACTOR) z (tableWrapper e op) ?s2 = (r, s')"
      using 1(2) a * by (simp add: retryLoop.simps [of retry])
    have "retry + 1 \<le> 6" using * by (simp add: MAX_RETRY_COUNT_def)
    from 1(1) [OF a [symmetric] *(1) conjI [OF *(2,3)] *(4) loop this] obtain n where
      n: "1 \<le> n" "n + (retry + 1) \<le> 7" "ms_ops s' = ms_ops ?s2 @ replicate n op"
        "ms_slept s' = ms_slept ?s2 + delay * RETRY_DELAY_FACTOR * (2 ^ (n - 1) - 1)" "ms_client s' = ms_client ?s2"
        "\<forall>err. r = Err (Plain err) \<and> connectionError err \<longrightarrow> n + (retry + 1) = 7"
        "r = Crash \<longrightarrow> z = None \<and> n = 1" "\<forall>c m. r \<noteq> Err (StatusErr c m)"
      by blast
    obtain m where m: "n = Suc m" using n(1) by (cases n) auto
    have "1 + 2 * (2 ^ m - 1) = 2 ^ n - (1 :: nat)" 
      using one_le_power [of "2 :: nat" m] unfolding m power_Suc by linarith
    then have "delay * (1 + 2 * (2 ^ m - 1)) = delay * (2 ^ n - 1)" by simp
    then have "delay + delay * 2 * (2 ^ (n - 1) - 1) = delay * (2 ^ n - 1)" by (simp add: m distrib_left)
    with n f * show ?thesis
      by (intro exI [of _ "Suc n"]) (auto simp: RETRY_DELAY_FACTOR_def algebra_simps)
  next
    case False
    with 1(2,3) a f show ?thesis
      by (intro exI [of _ 1]) (auto simp: retryLoop.simps [of retry] MAX_RETRY_COUNT_def split: option.splits if_splits)
  qed
qed

text \<open>The kind of table a name has.\<close>

definition kindOf :: "string \<Rightarrow> MixedDbClient \<Rightarrow> table_kind" where
  "kindOf table c = fst (GetTable table c)"

lemma GetTable_frame:
  "mc_zmqClient (snd (GetTable t c)) = mc_zmqClient c" "mc_mapkey (snd (GetTable t c)) = mc_mapkey c"
  "mc_prefix (snd (GetTable t c)) = mc_prefix c" "mc_target (snd (GetTable t c)) = mc_target c"
  "mc_dbkey (snd (GetTable t c)) = mc_dbkey c"
  by (simp_all add: GetTable_def)

lemma GetTable_again: "fst (GetTable t (snd (GetTable t c))) = fst (GetTable t c)"
  by (simp add: GetTable_def)

lemma runTableOp_attempts:
  assumes "runTableOp e table op s = (r, s')"
  shows "\<exists>n. 1 \<le> n \<and> n \<le> 7 \<and> ms_ops s' = ms_ops s @ replicate n (op (kindOf table (ms_client s)))
            \<and> ms_slept s' = ms_slept s + 100 * (2 ^ (n - 1) - 1)
            \<and> (kindOf table (ms_client s) = PlainTable \<longrightarrow> n = 1)
            \<and> ms_client s' = snd (GetTable table (ms_client s))
            \<and> (\<forall>err. kindOf table (ms_client s) \<noteq> PlainTable \<and> r = Err (Plain err) \<and> connectionError err \<longrightarrow> n = 7)
            \<and> (r = Crash \<longrightarrow> mc_zmqClient (ms_client s) = None \<and> n = 1) \<and> (\<forall>c m. r \<noteq> Err (StatusErr c m))"
proof -
  obtain kind c where g: "GetTable table (ms_client s) = (kind, c)" by force
  have z: "mc_zmqClient c = mc_zmqClient (ms_client s)" using GetTable_frame(1) [of table "ms_client s"] g by simp
  show ?thesis
  proof (cases "kind = PlainTable")
    case True
    obtain a s2 where a: "tableWrapper e (op kind) (s\<lparr>ms_client := c\<rparr>) = (a, s2)" by force
    show ?thesis
      using assms g True a tableWrapper_frame [OF a]
      by (intro exI [of _ 1]) (auto simp: runTableOp_def kindOf_def split: option.splits)
  next
    case False
    with assms g have "retryLoop 0 100 (mc_zmqClient c) (tableWrapper e (op kind)) (s\<lparr>ms_client := c\<rparr>) = (r, s')"
      by (simp add: runTableOp_def RetryHelper_def RETRY_DELAY_MILLISECOND_def)
    from retryLoop_attempts [OF this] obtain n where "1 \<le> n" "n \<le> 7" "ms_ops s' = ms_ops s @ replicate n (op kind)"
      "ms_slept s' = ms_slept s + 100 * (2 ^ (n - 1) - 1)" "ms_client s' = c"
      "\<forall>err. r = Err (Plain err) \<and> connectionError err \<longrightarrow> n = 7" "r = Crash \<longrightarrow> mc_zmqClient c = None \<and> n = 1"
      "\<forall>c m. r \<noteq> Err (StatusErr c m)"
      by auto
    with False g z show ?thesis by (intro exI [of _ n]) (auto simp: kindOf_def)
  qed
qed

section \<open>Lemmas: what a request may write\<close>

fun opTable :: "table_op \<Rightarrow> string" where
  "opTable (SetEntry kind t k fvs) = t"
| "opTable (DelEntry kind t k) = t"

fun opKey :: "table_op \<Rightarrow> string" where
  "opKey (SetEntry kind t k fvs) = k"
| "opKey (DelEntry kind t k) = k"

fun isDel :: "table_op \<Rightarrow> bool" where
  "isDel (SetEntry kind t k fvs) = False"
| "isDel (DelEntry kind t k) = True"

text \<open>The names below database and instance in a path, and the operations that stay within them.\<close>

definition namesOf :: "Path option \<Rightarrow> Path option \<Rightarrow> string list" where
  "namesOf prefix path = (if pathElems path = [] then [] else elemStrings (drop 2 (pathElems prefix @ pathElems path)))"

definition within :: "string list \<Rightarrow> table_op \<Rightarrow> bool" where
  "within names op \<longleftrightarrow>
     (case names of
        [] \<Rightarrow> opTable op = []
      | [t] \<Rightarrow> opTable op = t
      | t # k # _ \<Rightarrow> opTable op = t \<and> (k = [] \<or> opKey op = k))"

definition wrote :: "(table_op \<Rightarrow> bool) \<Rightarrow> ('c, 'r) mstate \<Rightarrow> ('c, 'r) mstate \<Rightarrow> bool" where
  "wrote P s s' \<longleftrightarrow>
     (\<exists>ops. ms_ops s' = ms_ops s @ ops \<and> (\<forall>op\<in>set ops. P op)) \<and>
     mc_prefix (ms_client s') = mc_prefix (ms_client s) \<and> mc_target (ms_client s') = mc_target (ms_client s)"

lemma wrote_refl [simp]: "wrote P s s"
  by (simp add: wrote_def)

lemma wrote_setCfg [simp]: "wrote P s (setCfg cfg s)"
  by (simp add: wrote_def setCfg_def)

lemma wrote_trans: "wrote P s s1 \<Longrightarrow> wrote P s1 s2 \<Longrightarrow> wrote P s s2"
  unfolding wrote_def by fastforce

lemma wrote_mono: "wrote P s s' \<Longrightarrow> (\<And>op. P op \<Longrightarrow> Q op) \<Longrightarrow> wrote Q s s'"
  unfolding wrote_def by blast

interpretation wr: call_frame "wrote P" for P
  by unfold_locales (auto intro: wrote_trans)

lemma wrote_runTableOp:
  assumes "\<And>kind. P (op kind)"
  shows "wrote P s (snd (runTableOp e table op s))"
proof -
  obtain r s' where run: "runTableOp e table op s = (r, s')" by force
  from runTableOp_attempts [OF run] assms GetTable_frame [of table "ms_client s"] show ?thesis
    by (auto simp: run wrote_def)
qed

lemma trimPrefix_cancel: "trimPrefix (a @ b @ k) (a @ b) = k"
  using trimPrefix_append [of "a @ b" k] by simp

definition pathFits :: "string list \<Rightarrow> tablePath \<Rightarrow> bool" where
  "pathFits names tp \<longleftrightarrow>
     (case names of
        [] \<Rightarrow> tableName tp = [] \<and> tableKey tp = []
      | [t] \<Rightarrow> tableName tp = t \<and> tableKey tp = []
      | t # k # _ \<Rightarrow> tableName tp = t \<and> tableKey tp = k)"

lemma within_fits: "pathFits names tp \<Longrightarrow> opTable op = tableName tp \<Longrightarrow> tableKey tp = [] \<or> opKey op = tableKey tp \<Longrightarrow> within names op"
  by (auto simp: pathFits_def within_def split: list.splits)

lemma handleTablePath_wrote:
  assumes "pathFits names tp"
  shows "wrote (\<lambda>op. within names op \<and> (isDel op \<longleftrightarrow> tp_operation tp = opRemove)) s (snd (handleTablePath e tp s))"
    (is "wrote ?P _ _")
proof -
  note fits = within_fits [OF assms]
  show ?thesis
  proof (cases "tp_operation tp")
    case opRemove
    have "wrote ?P s' (snd (DbDelTable e (tableName tp) k s'))" if "tableKey tp = [] \<or> k = tableKey tp" for k s'
      unfolding DbDelTable_def by (rule wrote_runTableOp) (use fits that opRemove in auto)
    then have "wrote ?P s' (snd (removeEntries e redisDb tp s'))" for redisDb s'
      by (auto simp: removeEntries_def Let_def trimPrefix_cancel split: sum.splits
          intro!: wr.keeps_for [where I = "\<lambda>_. True"] wr.keeps_bind)
    with opRemove show ?thesis by (simp add: handleTablePath_def split: option.splits)
  next
    case opAdd
    have set: "wrote ?P s' (snd (setEntry e (tableName tp) k v s'))" if "tableKey tp = [] \<or> k = tableKey tp" for k v s'
      unfolding setEntry_def DbSetTable_def
      by (cases v) (auto intro!: wrote_runTableOp, use fits that opAdd in auto)
    then have "wrote ?P s' (snd (addEntries e tp s'))" for s'
      by (auto simp: addEntries_def split: option.splits json.splits intro!: wr.keeps_for [where I = "\<lambda>_. True"])
    with opAdd show ?thesis by (simp add: handleTablePath_def split: option.splits)
  qed
qed

lemma placePath_fits:
  assumes "placePath e redisDb (db # names) tp s = Ret tp'"
    and "tableName tp = (case names of [] \<Rightarrow> [] | t # _ \<Rightarrow> t)" and "tableKey tp = []"
  shows "pathFits names tp' \<and> tp_operation tp' = tp_operation tp"
  using assms by (auto simp: placePath_def pathFits_def Let_def split: list.splits if_splits option.splits)

lemma getDbtablePath_fits:
  assumes "getDbtablePath e path v s = (Ret tps, s')" and "mc_target (ms_client s) \<noteq> ''COUNTERS_DB''"
  shows "\<exists>tp. tps = [tp] \<and> pathFits (namesOf (mc_prefix (ms_client s)) path) tp \<and> (tp_operation tp = opRemove \<longleftrightarrow> v = NilVal)"
proof -
  have names: "elemStrings (case full of None \<Rightarrow> [] | Some es \<Rightarrow> es) = namesOf (mc_prefix (ms_client s)) path"
    if "gnmiFullPath (mc_prefix (ms_client s)) path = Ret full" for full
    using that by (auto simp: gnmiFullPath_def namesOf_def Let_def split: if_splits)
  have dummy: "dummyKey (mc_target (ms_client s)) ss = ss" for ss
    using assms(2) by (simp add: dummyKey_def split: list.splits)
  have op: "op = opRemove \<longleftrightarrow> v = NilVal" if "valueParts v = Some (op, jv, pv)" for op jv pv
    using that by (auto simp: valueParts_def split: TypedValue.splits)
  show ?thesis
    using assms(1)
    by (auto simp: getDbtablePath_def Let_def names dummy
        split: go.splits option.splits prod.splits dest!: placePath_fits op)
qed

text \<open>
  What the request allows: a deletion of what a delete path names, or of what an update without a value names; a
  write of what an update with a value names.
\<close>

definition allowed :: "Path option \<Rightarrow> Path option list \<Rightarrow> Update list \<Rightarrow> table_op \<Rightarrow> bool" where
  "allowed prefix dels its op \<longleftrightarrow>
     (if isDel op then
        (\<exists>p\<in>set dels. within (namesOf prefix p) op) \<or>
        (\<exists>u\<in>set its. upd_val u = NilVal \<and> within (namesOf prefix (upd_path u)) op)
      else (\<exists>u\<in>set its. upd_val u \<noteq> NilVal \<and> within (namesOf prefix (upd_path u)) op))"

lemma getDbtablePath_wrote: "wrote P s (snd (getDbtablePath e path v s))"
  by (auto simp: getDbtablePath_def Let_def split: go.splits option.splits prod.splits)

lemma getAll_wrote: "wrote P s (snd (getAllDbtablePath e ps s))"
  by (induction ps arbitrary: s) (auto intro!: wr.keeps_bind getDbtablePath_wrote)

lemma getAll_fits:
  assumes "getAllDbtablePath e ps s = (Ret tpss, s')" and "mc_target (ms_client s) \<noteq> ''COUNTERS_DB''" and "tps \<in> set tpss"
  shows "\<exists>p\<in>set ps. \<exists>tp. tps = [tp] \<and> pathFits (namesOf (mc_prefix (ms_client s)) p) tp \<and> tp_operation tp = opRemove"
  using assms
proof (induction ps arbitrary: s s' tpss)
  case (Cons p ps)
  from Cons.prems(1) obtain tps1 s1 tpss1 where 1: "getDbtablePath e p NilVal s = (Ret tps1, s1)"
    "getAllDbtablePath e ps s1 = (Ret tpss1, s')" "tpss = tps1 # tpss1"
    by (auto simp: bindG_def split: prod.splits go.splits)
  from getDbtablePath_wrote [of "\<lambda>_. True" s e p NilVal] 1(1)
  have same: "mc_prefix (ms_client s1) = mc_prefix (ms_client s)" "mc_target (ms_client s1) = mc_target (ms_client s)"
    by (auto simp: wrote_def)
  show ?case
    using Cons.IH [OF 1(2)] getDbtablePath_fits [OF 1(1) Cons.prems(2)] Cons.prems 1(3) same by auto
qed simp

lemma handleTableData_wrote:
  assumes "pathFits names tp"
  shows "wrote (\<lambda>op. within names op \<and> (isDel op \<longleftrightarrow> tp_operation tp = opRemove)) s (snd (handleTableData e [tp] s))"
  unfolding handleTableData_def
  by (rule wr.keeps_for [where I = "\<lambda>_. True"]) (use handleTablePath_wrote [OF assms] in auto)

lemma setItem_wrote:
  assumes "u \<in> set its" and "mc_target (ms_client s) \<noteq> ''COUNTERS_DB''"
  shows "wrote (allowed (mc_prefix (ms_client s)) dels its) s (snd (setItem e u s))"
  unfolding setItem_def
proof (rule wr.keeps_bind [OF getDbtablePath_wrote])
  fix tps s1
  assume get: "getDbtablePath e (upd_path u) (upd_val u) s = (Ret tps, s1)"
  from getDbtablePath_fits [OF this assms(2)] obtain tp where
    tp: "tps = [tp]" "pathFits (namesOf (mc_prefix (ms_client s)) (upd_path u)) tp" "tp_operation tp = opRemove \<longleftrightarrow> upd_val u = NilVal"
    by blast
  show "wrote (allowed (mc_prefix (ms_client s)) dels its) s1 (snd (handleTableData e tps s1))"
    unfolding tp(1) by (rule wrote_mono [OF handleTableData_wrote [OF tp(2)]]) (use tp(3) assms(1) in \<open>auto simp: allowed_def\<close>)
qed

lemma SetDB_wrote:
  assumes "mc_target (ms_client s) \<noteq> ''COUNTERS_DB''"
  shows "wrote (allowed (mc_prefix (ms_client s)) dels (reps @ upds)) s (snd (SetDB e dels reps upds s))"
proof -
  let ?P = "allowed (mc_prefix (ms_client s)) dels (reps @ upds)"
  let ?I = "\<lambda>s'. mc_prefix (ms_client s') = mc_prefix (ms_client s) \<and> mc_target (ms_client s') = mc_target (ms_client s)"
  have inv: "?I s1 \<Longrightarrow> wrote ?P s1 s2 \<Longrightarrow> ?I s2" for s1 s2 :: "('a, 'b) mstate" by (simp add: wrote_def)
  have items: "wrote ?P s1 (snd (forG (setItem e) us s1))" if "set us \<subseteq> set (reps @ upds)" "?I s1" for us and s1 :: "('a, 'b) mstate"
  proof (rule wr.keeps_for [where I = ?I])
    fix u and s2 :: "('a, 'b) mstate"
    assume "u \<in> set us" "?I s2"
    with that assms setItem_wrote [of u "reps @ upds" s2 dels e] show "wrote ?P s2 (snd (setItem e u s2))" by auto
  qed (use inv that in blast)+
  show ?thesis
    unfolding SetDB_def
  proof (rule wr.keeps_bind [OF getAll_wrote])
    fix tpss s1
    assume get: "getAllDbtablePath e dels s = (Ret tpss, s1)"
    have I1: "?I s1" using getAll_wrote [of "\<lambda>_. True" s e dels] get by (auto simp: wrote_def)
    have dels: "wrote ?P s1 (snd (forG (handleTableData e) tpss s1))"
    proof (rule wr.keeps_for [where I = ?I])
      fix tps and s2 :: "('a, 'b) mstate"
      assume "tps \<in> set tpss" "?I s2"
      from getAll_fits [OF get assms this(1)] obtain p tp where
        p: "p \<in> set dels" "tps = [tp]" "pathFits (namesOf (mc_prefix (ms_client s)) p) tp" "tp_operation tp = opRemove"
        by blast
      show "wrote ?P s2 (snd (handleTableData e tps s2))"
        unfolding p(2) by (rule wrote_mono [OF handleTableData_wrote [OF p(3)]]) (use p in \<open>auto simp: allowed_def\<close>)
    qed (use inv I1 in blast)+
    show "wrote ?P s1 (snd (bindG (forG (handleTableData e) tpss s1)
        (\<lambda>_ s2. bindG (forG (setItem e) reps s2) (\<lambda>_. forG (setItem e) upds))))"
    proof (rule wr.keeps_bind [OF dels])
      fix u s2
      assume "forG (handleTableData e) tpss s1 = (Ret u, s2)"
      then have I2: "?I s2" using inv [OF I1 dels] by simp
      have reps: "wrote ?P s2 (snd (forG (setItem e) reps s2))" by (rule items) (use I2 in auto)
      show "wrote ?P s2 (snd (bindG (forG (setItem e) reps s2) (\<lambda>_. forG (setItem e) upds)))"
      proof (rule wr.keeps_bind [OF reps])
        fix u s3
        assume "forG (setItem e) reps s2 = (Ret u, s3)"
        then have "?I s3" using inv [OF I2 reps] by simp
        then show "wrote ?P s3 (snd (forG (setItem e) upds s3))" by (intro items) auto
      qed
    qed
  qed
qed

section \<open>Lemmas: entries and hashes\<close>

text \<open>Fields that come back as they went in: strings, and lists of strings without a comma that are not empty.\<close>

definition plainField :: "string \<times> json \<Rightarrow> bool" where
  "plainField kv \<longleftrightarrow>
     (case kv of
        (k, v) \<Rightarrow>
          k \<noteq> ''NULL'' \<and> \<not> hasSuffix k ''@'' \<and>
          (case v of
             JStr s \<Rightarrow> True
           | JArr vs \<Rightarrow> vs \<noteq> [] \<and> (\<forall>v\<in>set vs. case v of JStr s \<Rightarrow> CHR '','' \<notin> set s | _ \<Rightarrow> False)
           | _ \<Rightarrow> False))"

lemma suffix_at [simp]: "hasSuffix (k @ ''@'') ''@''" "trimSuffix (k @ ''@'') ''@'' = k"
  by (simp_all add: hasSuffix_def trimSuffix_def)

lemma strings_of_list:
  assumes "\<forall>v\<in>set vs. case v of JStr s \<Rightarrow> CHR '','' \<notin> set s | _ \<Rightarrow> False"
  shows "\<exists>ss. vs = map JStr ss \<and> (\<forall>s\<in>set ss. CHR '','' \<notin> set s)"
  using assms
proof (induction vs)
  case (Cons v vs)
  then obtain s ss where "v = JStr s" "CHR '','' \<notin> set s" "vs = map JStr ss" "\<forall>s\<in>set ss. CHR '','' \<notin> set s"
    by (auto split: json.splits)
  then show ?case by (intro exI [of _ "s # ss"]) auto
qed simp

lemma map_filter_strings: "List.map_filter (\<lambda>v. case v of JStr s \<Rightarrow> Some s | _ \<Rightarrow> None) (map JStr ss) = ss"
  by (induction ss) (auto simp: List.map_filter_def)

lemma field_roundtrip:
  assumes "plainField kv"
  shows "\<exists>fv. dbField kv = Some fv \<and> redisJson fv = Some kv"
proof -
  obtain k v where kv: "kv = (k, v)" by (cases kv)
  show ?thesis
  proof (cases v)
    case (JStr s)
    with assms kv show ?thesis by (simp add: plainField_def dbField_def redisJson_def)
  next
    case (JArr vs)
    with assms kv have vs: "vs \<noteq> []" "\<forall>v\<in>set vs. case v of JStr s \<Rightarrow> CHR '','' \<notin> set s | _ \<Rightarrow> False"
      by (simp_all add: plainField_def)
    from strings_of_list [OF vs(2)] obtain ss where ss: "vs = map JStr ss" "\<forall>s\<in>set ss. CHR '','' \<notin> set s" by blast
    have "last (k @ ''@'') \<noteq> last ''NULL''" by simp
    then have "k @ ''@'' \<noteq> ''NULL''" by metis
    with JArr vs ss kv show ?thesis
      by (simp add: dbField_def redisJson_def map_filter_strings split_join)
  qed (use assms kv in \<open>simp_all add: plainField_def\<close>)
qed

lemma foldl_update_filter:
  assumes "distinct (map fst (acc @ List.map_filter f xs))"
  shows "foldl (\<lambda>m x. case f x of None \<Rightarrow> m | Some (k, v) \<Rightarrow> AList.update k v m) acc xs = acc @ List.map_filter f xs"
  using assms
proof (induction xs arbitrary: acc)
  case (Cons x xs)
  show ?case
  proof (cases "f x")
    case None
    with Cons show ?thesis by (simp add: map_filter_simps)
  next
    case (Some kv)
    obtain k v where kv: "kv = (k, v)" by (cases kv)
    with Cons.prems Some have "k \<notin> fst ` set acc" by (auto simp: map_filter_simps)
    with Cons.IH [of "acc @ [(k, v)]"] Cons.prems Some kv show ?thesis
      by (simp add: map_filter_simps update_fresh)
  qed
qed (simp add: map_filter_simps)

lemma range_distinct_keys:
  assumes "range_order rng" and "distinct (map fst m)"
  shows "distinct (map fst (rng m))"
proof (rule card_distinct)
  have "card (fst ` set (rng m)) = card (fst ` set m)" using assms(1) by (simp add: range_orderD)
  also have "\<dots> = length m" using assms(2) by (metis distinct_card length_map set_map)
  finally show "card (set (map fst (rng m))) = length (map fst (rng m))"
    using assms(1) by (simp add: range_order_def)
qed

lemma map_filter_all: "(\<And>x. x \<in> set xs \<Longrightarrow> f x \<noteq> None) \<Longrightarrow> List.map_filter f xs = map (\<lambda>x. the (f x)) xs"
proof (induction xs)
  case (Cons x xs)
  from Cons.prems [of x] obtain y where "f x = Some y" by auto
  with Cons show ?case by (simp add: map_filter_simps)
qed (simp add: map_filter_simps)

lemma distinct_fst_map: "(\<And>x. x \<in> set xs \<Longrightarrow> g (fst (f x)) = fst x) \<Longrightarrow> distinct (map fst xs) \<Longrightarrow> distinct (map fst (map f xs))"
proof -
  assume "\<And>x. x \<in> set xs \<Longrightarrow> g (fst (f x)) = fst x" and d: "distinct (map fst xs)"
  then have "map g (map fst (map f xs)) = map fst xs" by simp
  with d show ?thesis by (metis distinct_map)
qed

definition fieldKey :: "string \<Rightarrow> string" where
  "fieldKey f = (if hasSuffix f ''@'' then trimSuffix f ''@'' else f)"

lemma redisJson_key: "redisJson fv = Some kv \<Longrightarrow> fieldKey (fst fv) = fst kv"
  by (auto simp: redisJson_def fieldKey_def split: prod.splits if_splits)

lemma entry_roundtrip:
  assumes "range_order rng1" and "range_order rng2" and "distinct (map fst m)" and "\<forall>kv\<in>set m. plainField kv"
  shows "map_of (putFields id (rng2 (ConvertDbEntry rng1 m)) []) = map_of m"
proof -
  let ?df = "\<lambda>kv. the (dbField kv)" and ?rj = "\<lambda>fv. the (redisJson fv)"
  let ?fvs = "map ?df (rng1 m)"
  have there: "dbField kv = Some (?df kv) \<and> redisJson (?df kv) = Some kv" if "kv \<in> set (rng1 m)" for kv
    using field_roundtrip [of kv] assms(1,4) that by (auto simp: range_orderD)
  have keys: "distinct (map fst (rng1 m))" by (rule range_distinct_keys [OF assms(1,3)])
  have d1: "distinct (map fst ?fvs)"
    by (rule distinct_fst_map [where g = fieldKey]) (use there keys in \<open>auto dest: redisJson_key\<close>)
  have mf: "List.map_filter dbField (rng1 m) = ?fvs" by (rule map_filter_all) (metis there option.distinct(1))
  have conv: "ConvertDbEntry rng1 m = ?fvs"
    unfolding ConvertDbEntry_def by (rule foldl_update_filter [of "[]" dbField "rng1 m", unfolded append_Nil mf, OF d1])
  have d2: "distinct (map fst (rng2 ?fvs))" by (rule range_distinct_keys [OF assms(2) d1])
  have set2: "set (rng2 ?fvs) = ?df ` set m" using assms(1,2) by (simp add: range_orderD)
  have rev: "redisJson fv = Some (?rj fv)" if "fv \<in> set (rng2 ?fvs)" for fv
    using that there set2 assms(1) by (auto simp: range_orderD)
  have set3: "?rj ` set (rng2 ?fvs) = set m"
    using there assms(1) by (force simp: set2 range_orderD image_image)
  have "length (rng2 ?fvs) = length m" using assms(1,2) by (simp add: range_order_def)
  moreover have "card (fst ` set m) = length m" using assms(3) by (metis distinct_card length_map set_map)
  ultimately have d3: "distinct (map fst (map ?rj (rng2 ?fvs)))"
    by (intro card_distinct) (simp add: set3 [symmetric] image_image)
  have "putFields id (rng2 ?fvs) [] = map ?rj (rng2 ?fvs)"
  proof -
    have mf: "List.map_filter redisJson (rng2 ?fvs) = map ?rj (rng2 ?fvs)" by (rule map_filter_all) (metis rev option.distinct(1))
    show ?thesis
      unfolding putFields_def id_apply by (rule foldl_update_filter [of "[]" redisJson "rng2 ?fvs", unfolded append_Nil mf, OF d3])
  qed
  then show ?thesis
    using map_of_inject_set [OF d3 assms(3)] set3 by (simp add: conv)
qed

section \<open>Properties\<close>

definition swssEx :: "unit swss" where
  "swssEx =
     \<lparr>sw_stat = (\<lambda>_. False), sw_IsGlobalInit = (\<lambda>_. False), sw_InitializeGlobalConfig = (\<lambda>l. (None, l)),
      sw_IsInit = (\<lambda>_. False), sw_Initialize = (\<lambda>l. (None, l)), sw_Reset = (\<lambda>l. (None, l)),
      sw_GetNamespaces = (\<lambda>_. Inr [[]]), sw_GetDbKeys = (\<lambda>_. Inr [defaultKey]),
      sw_GetDbList = (\<lambda>_ _. Inr [''APPL_DB'', ''CONFIG_DB'']), sw_GetSeparator = (\<lambda>_ _ _. Inr '':''),
      sw_GetDbId = (\<lambda>_ _ _. Inr 0), sw_GetDbSock = (\<lambda>_ _ _. Inr ''redis.sock''),
      sw_GetDbHostname = (\<lambda>_ _ _. Inr ''localhost''), sw_GetDbPort = (\<lambda>_ _ _. Inr 6379)\<rparr>"

definition busOk :: "'s bus_env" where
  "busOk =
     \<lparr>be_shm = (\<lambda>_. ShmWorks), be_bus = (\<lambda>_. None), be_call = (\<lambda>call h. (Body [DInt32 0, DString []], h)),
      be_show = (\<lambda>_. []), be_type = (\<lambda>_. []), be_errorf = id\<rparr>"

text \<open>Redis as a list of hashes. The first \<open>n\<close> table operations find no connection.\<close>

definition menvEx :: "(unit, string gomap gomap \<times> nat) menv" where
  "menvEx =
     \<lparr>me_swss = swssEx, me_bus = busOk,
      me_table = (\<lambda>op (db, n). if n > 0 then (Some ''Resource temporarily unavailable'', (db, n - 1)) else (None, (db, n))),
      me_configEntry = (\<lambda>_ _ _. []),
      me_Keys = (\<lambda>_ pattern (db, _). Inr (filter (\<lambda>k. hasPrefix k (butlast pattern)) (map fst db))),
      me_Exists = (\<lambda>_ _ _. None),
      me_HGetAll = (\<lambda>_ k (db, _). Inr (case map_of db k of None \<Rightarrow> [] | Some h \<Rightarrow> h)),
      me_HGet = (\<lambda>_ k f (db, _). case Option.bind (map_of db k) (\<lambda>h. map_of h f) of None \<Rightarrow> Inl ''redis: nil'' | Some v \<Rightarrow> Inr v),
      me_python = (\<lambda>_ _. True), me_rng = (\<lambda>m. m), me_rngJ = (\<lambda>m. m), me_jnum = id, me_now = 0\<rparr>"

definition mclientEx :: "string \<Rightarrow> string option \<Rightarrow> MixedDbClient" where
  "mclientEx target zmq =
     (newClient (pathN [target, ''localhost'']) ''sonic-db'' JSON_IETF [])
       \<lparr>mc_target := target, mc_dbkey := Some defaultKey, mc_mapkey := '':'', mc_zmqClient := zmq, mc_workPath := GNMI_WORK_PATH\<rparr>"

definition mstateEx :: "string \<Rightarrow> string option \<Rightarrow> nat \<Rightarrow> (unit, string gomap gomap \<times> nat) mstate" where
  "mstateEx target zmq n =
     \<lparr>ms_client = mclientEx target zmq, ms_cfg = \<lparr>sonic_db_init = True, dbc_lib = ()\<rparr>,
      ms_RedisDbMap = [(''::'' @ target, (''redis.sock'', 0))], ms_DbInstNum = 1, ms_zmqClientMap = [],
      ms_bus = \<lparr>bus_counters = \<lparr>globalCounters = replicate COUNTER_SIZE 0, segment = None\<rparr>, bus_calls = [],
                bus_host = (\<lparr>w_files = [], w_db = [], w_faults = []\<rparr>, ([], n))\<rparr>,
      ms_ops = [], ms_slept = 0\<rparr>"

lemma runTableOp_crash:
  "(fst (runTableOp e table op s) = Crash) \<longleftrightarrow>
     kindOf table (ms_client s) \<noteq> PlainTable \<and> mc_zmqClient (ms_client s) = None \<and>
     (\<exists>err. fst (me_table e (op (kindOf table (ms_client s))) (redisState s)) = Some err \<and> connectionError err)"
proof (cases "kindOf table (ms_client s) = PlainTable \<or> mc_zmqClient (ms_client s) \<noteq> None")
  case True
  obtain r s' where run: "runTableOp e table op s = (r, s')" by force
  show ?thesis
  proof (cases "kindOf table (ms_client s) = PlainTable")
    case True
    then show ?thesis
      by (auto simp: runTableOp_def kindOf_def split: prod.splits option.splits)
  next
    case False
    with True runTableOp_attempts [OF run] show ?thesis by (auto simp: run)
  qed
next
  case False
  obtain kind c where g: "GetTable table (ms_client s) = (kind, c)" by force
  then have z: "mc_zmqClient c = None" using GetTable_frame(1) [of table "ms_client s"] False by simp
  have rs: "redisState (s\<lparr>ms_client := c\<rparr>) = redisState s" by (simp add: redisState_def)
  show ?thesis
    using False g z
    by (auto simp: runTableOp_def kindOf_def RetryHelper_def retryLoop.simps [of 0] tableWrapper_def rs
        split: prod.splits option.splits if_splits)
qed

text \<open>
  C26. Writing an entry ends: the same operation is tried at most seven times (once for the plain tables with prefix
  \<^verbatim>\<open>DASH_HA_\<close>), with waits that double from 100 ms, so at most 6.3 s in all. An error about the connection is
  returned only after the seventh attempt. The call panics if and only if the client has no ZMQ client and the first
  attempt reports such an error.
\<close>

theorem table_write_retries:
  assumes "DbSetTable e table key values s = (r, s')"
  shows "(\<exists>n. 1 \<le> n \<and> n \<le> 7 \<and> ms_slept s' = ms_slept s + 100 * (2 ^ (n - 1) - 1) \<and>
             ms_ops s' = ms_ops s @ replicate n (SetEntry (kindOf table (ms_client s)) table key (me_rng e values)) \<and>
             (kindOf table (ms_client s) = PlainTable \<longrightarrow> n = 1) \<and>
             (\<forall>err. kindOf table (ms_client s) \<noteq> PlainTable \<and> r = Err (Plain err) \<and> connectionError err \<longrightarrow> n = 7)) \<and>
         (r = Crash \<longleftrightarrow>
            kindOf table (ms_client s) \<noteq> PlainTable \<and> mc_zmqClient (ms_client s) = None \<and>
            (\<exists>err. fst (me_table e (SetEntry (kindOf table (ms_client s)) table key (me_rng e values)) (redisState s)) = Some err
                   \<and> connectionError err))"
proof -
  let ?op = "\<lambda>kind. SetEntry kind table key (me_rng e values)"
  have run: "runTableOp e table ?op s = (r, s')" using assms by (simp add: DbSetTable_def)
  show ?thesis
    using runTableOp_attempts [OF run] runTableOp_crash [of e table ?op s] by (auto simp: run)
qed

theorem table_write_retries_witness:
  "ms_slept (snd (DbSetTable menvEx ''DASH_QOS'' ''a'' [(''f'', ''1'')] (mstateEx ''APPL_DB'' (Some ''tcp'') 2))) = 300 \<and>
   fst (DbSetTable menvEx ''DASH_QOS'' ''a'' [(''f'', ''1'')] (mstateEx ''APPL_DB'' None 1)) = Crash"
proof -
  let ?s = "mstateEx ''APPL_DB'' (Some ''tcp'') 2" and ?t = "mstateEx ''APPL_DB'' None 1"
  let ?put = "DbSetTable menvEx ''DASH_QOS'' ''a'' [(''f'', ''1'')]"
  have k: "kindOf ''DASH_QOS'' (ms_client ?s) = ZmqTable" "kindOf ''DASH_QOS'' (ms_client ?t) = ProducerTable" by code_simp+
  obtain r s' where w: "?put ?s = (r, s')" by force
  obtain n where n: "ms_slept s' = 100 * (2 ^ (n - 1) - 1)" "length (ms_ops s') = n"
    using table_write_retries [OF w] by (auto simp: mstateEx_def)
  have "length (ms_ops (snd (?put ?s))) = 3" by code_simp
  with n w have "ms_slept s' = 300" by simp
  moreover
  obtain r0 s0 where w0: "?put ?t = (r0, s0)" by force
  have "connectionError ''Resource temporarily unavailable''" by code_simp
  then have "r0 = Crash"
    using table_write_retries [OF w0] k(2) by (simp add: mstateEx_def mclientEx_def menvEx_def redisState_def newClient_def)
  ultimately show ?thesis unfolding w w0 by simp
qed

text \<open>
  C25. A Set on APPL\_DB or DPU\_APPL\_DB stays within the paths it names, whatever redis and the tables answer: every
  table operation it tries is a deletion within a delete path or within the path of an update that has no value, or
  a write within the path of an update that has one; with a key in the path, of that entry only.
\<close>

theorem set_db_confined:
  assumes "SetDB e dels reps upds s = (r, s')" and "mc_target (ms_client s) \<noteq> ''COUNTERS_DB''"
  shows "\<exists>ops. ms_ops s' = ms_ops s @ ops \<and>
           (\<forall>op\<in>set ops. allowed (mc_prefix (ms_client s)) dels (reps @ upds) op)"
  using SetDB_wrote [OF assms(2), of dels reps upds e] assms(1) by (auto simp: wrote_def)

definition qosUpdate :: Update where
  "qosUpdate =
     \<lparr>upd_path = pathN [''DASH_QOS'', ''qos1''],
      upd_val = JsonIetfVal (marshal (JObj [(''bw'', JStr ''10''), (''ports'', JArr [JStr ''1'', JStr ''2''])]))\<rparr>"

theorem set_db_confined_witness:
  "let (r, s') = SetDB menvEx [] [] [qosUpdate] (mstateEx ''APPL_DB'' None 0)
   in r = Ret () \<and> ms_ops s' = [SetEntry ProducerTable ''DASH_QOS'' ''qos1'' [(''bw'', ''10''), (''ports@'', ''1,2'')]] \<and>
      allowed (pathN [''APPL_DB'', ''localhost'']) [] [qosUpdate] (hd (ms_ops s'))"
proof -
  obtain r s' where run: "SetDB menvEx [] [] [qosUpdate] (mstateEx ''APPL_DB'' None 0) = (r, s')" by force
  have "fst (SetDB menvEx [] [] [qosUpdate] (mstateEx ''APPL_DB'' None 0)) = Ret ()"
    and "ms_ops (snd (SetDB menvEx [] [] [qosUpdate] (mstateEx ''APPL_DB'' None 0))) =
      [SetEntry ProducerTable ''DASH_QOS'' ''qos1'' [(''bw'', ''10''), (''ports@'', ''1,2'')]]"
    by code_simp+
  moreover have "mc_target (ms_client (mstateEx ''APPL_DB'' None 0)) \<noteq> ''COUNTERS_DB''" by code_simp
  note set_db_confined [OF run this]
  moreover have "mc_prefix (ms_client (mstateEx ''APPL_DB'' None 0)) = pathN [''APPL_DB'', ''localhost'']"
    "ms_ops (mstateEx ''APPL_DB'' None 0) = []"
    by (simp_all add: mstateEx_def mclientEx_def newClient_def)
  ultimately show ?thesis by (simp add: run)
qed



end
