(* ===== verification/Mixed_Config.thy ===== *)
theory Mixed_Config
  imports Mixed_Db
begin

text \<open>
  What the mixed DB client (\<^verbatim>\<open>sonic_data_client/mixed_db_client.go\<close>) does with CONFIG\_DB: a Set is turned into a
  JSON patch, checked against a checkpoint of the configuration, and given to the generic config updater through the
  D-Bus; a Get reads the checkpoint file.

  The program only sees the host through its files and the answers of the D-Bus, so the effect of a call on the
  configuration is part of \<open>be_call\<close>. \<open>me_python\<close> says whether the Python code that loads the YANG models and
  validates a file succeeds. \<open>ioutil.WriteFile\<close> and \<open>os.Remove\<close> are those of \<^verbatim>\<open>Host\<close>.
\<close>

section \<open>The host\<close>

definition hostWorld :: "('c, 'r) mstate \<Rightarrow> world" where
  "hostWorld s = fst (bus_host (ms_bus s))"

definition onWorld :: "(world \<Rightarrow> 'a \<times> world) \<Rightarrow> ('c, 'r) mstate \<Rightarrow> 'a \<times> ('c, 'r) mstate" where
  "onWorld f s =
     (case f (hostWorld s) of
        (x, w) \<Rightarrow> (x, s\<lparr>ms_bus := (ms_bus s)\<lparr>bus_host := (w, snd (bus_host (ms_bus s)))\<rparr>\<rparr>))"

definition onBus ::
  "('c, 'r) menv \<Rightarrow> ((world \<times> 'r) bus_env \<Rightarrow> DbusClient \<Rightarrow> (world \<times> 'r) bus \<Rightarrow> svc_error option \<times> (world \<times> 'r) bus)
   \<Rightarrow> ('c, 'r) mstate \<Rightarrow> unit go \<times> ('c, 'r) mstate" where
  "onBus e call s =
     (case call (me_bus e) NewDbusClient (ms_bus s) of
        (None, b) \<Rightarrow> (Ret (), s\<lparr>ms_bus := b\<rparr>)
      | (Some err, b) \<Rightarrow> (Err err, s\<lparr>ms_bus := b\<rparr>))"

definition CHECK_POINT_PATH :: string where "CHECK_POINT_PATH = ''/etc/sonic''"

section \<open>The JSON patch\<close>

datatype patch_kind = DELETE_OPERATION | REPLACE_OPERATION | UPDATE_OPERATION

fun kindText :: "patch_kind \<Rightarrow> string" where
  "kindText UPDATE_OPERATION = ''add''"
| "kindText DELETE_OPERATION = ''remove''"
| "kindText REPLACE_OPERATION = ''replace''"

record patch_op =
  po_op :: patch_kind
  po_path :: string
  po_value :: "json option"

fun keyText :: "string gomap \<Rightarrow> string" where
  "keyText [] = []"
| "keyText ((k, v) # kvs) = ''['' @ k @ ''='' @ v @ '']'' @ keyText kvs"

definition jsonPath :: "(string gomap \<Rightarrow> string gomap) \<Rightarrow> PathElem list \<Rightarrow> string" where
  "jsonPath rng elems =
     trimSuffix (''/'' @ concat (map (\<lambda>el. elem_name el @ keyText (rng (elem_key el)) @ ''/'') elems)) ''/''"

definition ConvertToJsonPatch ::
  "('c, 'r) menv \<Rightarrow> Path option \<Rightarrow> Path option \<Rightarrow> TypedValue \<Rightarrow> patch_kind \<Rightarrow> patch_op go" where
  "ConvertToJsonPatch e prefix path t operation =
     (if t \<noteq> NilVal \<and> GetJsonIetfVal t = [] then Err (Plain ''Value encoding is not IETF JSON'')
      else
        (case gnmiFullPath prefix path of
           Err err \<Rightarrow> Err err
         | Crash \<Rightarrow> Crash
         | Ret full \<Rightarrow>
             (let p = jsonPath (me_rng e) (case full of None \<Rightarrow> [] | Some es \<Rightarrow> es) in
              if t = NilVal then Ret \<lparr>po_op = operation, po_path = p, po_value = None\<rparr>
              else
                (case parseJson (GetJsonIetfVal t) of
                   None \<Rightarrow> Err (Plain ''JSON unmarshalling error'')
                 | Some v \<Rightarrow> Ret \<lparr>po_op = operation, po_path = p, po_value = Some v\<rparr>))))"

text \<open>\<open>json.Marshal\<close> of the list of operations; the members of each are in alphabetical order.\<close>

definition patchJson :: "(string \<Rightarrow> string) \<Rightarrow> patch_op \<Rightarrow> json" where
  "patchJson jnum p =
     JObj ([(''op'', JStr (kindText (po_op p))), (''path'', JStr (po_path p))] @
       (case po_value p of None \<Rightarrow> [] | Some v \<Rightarrow> [(''value'', sortMaps jnum v)]))"

definition patchText :: "(string \<Rightarrow> string) \<Rightarrow> patch_op list \<Rightarrow> string" where
  "patchText jnum ps = marshal (JArr (map (patchJson jnum) ps))"

text \<open>With several namespaces a path starts with the namespace.\<close>

definition inNamespace :: "string option \<Rightarrow> patch_op \<Rightarrow> patch_op" where
  "inNamespace ns p = (case ns of None \<Rightarrow> p | Some n \<Rightarrow> p\<lparr>po_path := ''/'' @ n @ po_path p\<rparr>)"

text \<open>
  One operation of the request: what it does to the copy of the checkpoint, and the operation of the patch, if any.
  A nil list of elements skips the copy. A deletion of something that is not there is left out.
\<close>

definition editDelete :: "string list \<Rightarrow> json gomap \<Rightarrow> bool go \<times> json gomap" where
  "editDelete p d = (case JsonClient_Remove p d of (ok, d1) \<Rightarrow> (Ret ok, d1))"

definition editReplace :: "TypedValue \<Rightarrow> string list \<Rightarrow> json gomap \<Rightarrow> bool go \<times> json gomap" where
  "editReplace t p d =
     (if t = NilVal then editDelete p d
      else
        (case JsonClient_Replace p (GetJsonIetfVal t) d of
           (True, d1) \<Rightarrow> (Ret True, d1)
         | (False, d1) \<Rightarrow> (Err (Plain ''Replace''), d1)))"

definition editUpdate :: "TypedValue \<Rightarrow> string list \<Rightarrow> json gomap \<Rightarrow> bool go \<times> json gomap" where
  "editUpdate t p d =
     (if t = NilVal then (Err (Plain ''Invalid update''), d)
      else
        (case JsonClient_Add p (GetJsonIetfVal t) d of
           (True, d1) \<Rightarrow> (Ret True, d1)
         | (False, d1) \<Rightarrow> (Err (Plain ''Add''), d1)))"

definition patchStep ::
  "('c, 'r) menv \<Rightarrow> Path option \<Rightarrow> string option \<Rightarrow> patch_kind \<Rightarrow> Path option \<Rightarrow> TypedValue
   \<Rightarrow> (string list \<Rightarrow> json gomap \<Rightarrow> bool go \<times> json gomap) \<Rightarrow> json gomap \<Rightarrow> patch_op list go \<times> json gomap" where
  "patchStep e prefix ns kind path t edit d =
     (case gnmiFullPath prefix path of
        Err err \<Rightarrow> (Err err, d)
      | Crash \<Rightarrow> (Crash, d)
      | Ret full \<Rightarrow>
          bindG (case full of None \<Rightarrow> (Ret True, d) | Some es \<Rightarrow> edit (map elem_name es) d)
            (\<lambda>there d1.
               if \<not> there then (Ret [], d1)
               else
                 (case ConvertToJsonPatch e prefix path t kind of
                    Ret p \<Rightarrow> (Ret [inNamespace ns p], d1)
                  | Err err \<Rightarrow> (Err err, d1)
                  | Crash \<Rightarrow> (Crash, d1))))"

fun patchSteps :: "('a \<Rightarrow> json gomap \<Rightarrow> patch_op list go \<times> json gomap) \<Rightarrow> 'a list \<Rightarrow> json gomap \<Rightarrow> patch_op list go \<times> json gomap" where
  "patchSteps f [] d = (Ret [], d)"
| "patchSteps f (x # xs) d =
     bindG (f x d) (\<lambda>ps d1. bindG (patchSteps f xs d1) (\<lambda>qs d2. (Ret (ps @ qs), d2)))"

definition deleteStep where
  "deleteStep e prefix ns path = patchStep e prefix ns DELETE_OPERATION path NilVal editDelete"

definition replaceStep where
  "replaceStep e prefix ns u = patchStep e prefix ns REPLACE_OPERATION (upd_path u) (upd_val u) (editReplace (upd_val u))"

definition updateStep where
  "updateStep e prefix ns u = patchStep e prefix ns UPDATE_OPERATION (upd_path u) (upd_val u) (editUpdate (upd_val u))"

definition buildPatch ::
  "('c, 'r) menv \<Rightarrow> Path option \<Rightarrow> string option \<Rightarrow> Path option list \<Rightarrow> Update list \<Rightarrow> Update list \<Rightarrow> json gomap
   \<Rightarrow> patch_op list go \<times> json gomap" where
  "buildPatch e prefix ns delete replace update d =
     bindG (patchSteps (deleteStep e prefix ns) delete d)
       (\<lambda>ps d1. bindG (patchSteps (replaceStep e prefix ns) replace d1)
          (\<lambda>qs d2. bindG (patchSteps (updateStep e prefix ns) update d2)
             (\<lambda>rs d3. (Ret (ps @ qs @ rs), d3))))"

section \<open>Set\<close>

text \<open>The namespace of the checkpoint: None with a single namespace.\<close>

definition checkpointNs :: "('c, 'r) menv \<Rightarrow> ('c, 'r) mstate \<Rightarrow> string option go \<times> ('c, 'r) mstate" where
  "checkpointNs e s =
     (case CheckDbMultiNamespace (me_swss e) (ms_cfg s) of
        (_, Some err, cfg) \<Rightarrow> (Err (Plain err), setCfg cfg s)
      | (False, None, cfg) \<Rightarrow> (Ret None, setCfg cfg s)
      | (True, None, cfg) \<Rightarrow>
          (case mc_dbkey (ms_client s) of
             None \<Rightarrow> (Crash, setCfg cfg s)
           | Some k \<Rightarrow>
               (Ret (Some (if key_netns k = SONIC_DEFAULT_NAMESPACE then HOSTNAME else key_netns k)), setCfg cfg s)))"

definition loadCheckpoint :: "string \<Rightarrow> ('c, 'r) mstate \<Rightarrow> json gomap go \<times> ('c, 'r) mstate" where
  "loadCheckpoint ns s =
     (case onWorld (NewJsonClient (CHECK_POINT_PATH @ ''/config.cp.json'') ns) s of
        (None, s1) \<Rightarrow> (Err (Plain ''checkpoint''), s1\<lparr>ms_client := (ms_client s1)\<lparr>mc_jClient := None\<rparr>\<rparr>)
      | (Some d, s1) \<Rightarrow> (Ret d, s1\<lparr>ms_client := (ms_client s1)\<lparr>mc_jClient := Some d\<rparr>\<rparr>))"

definition applyPatch ::
  "('c, 'r) menv \<Rightarrow> patch_op list \<Rightarrow> ('c, 'r) mstate \<Rightarrow> unit go \<times> ('c, 'r) mstate" where
  "applyPatch e ps s =
     (if ps = [] then (Ret (), s)
      else
        (let text = patchText (me_jnum e) ps in
         case onWorld (osWriteFile (mc_workPath (ms_client s) @ ''/gcu.patch'') text) s of
           (False, s1) \<Rightarrow> (Err (Plain ''WriteFile''), s1)
         | (True, s1) \<Rightarrow>
             bindG (if mc_origin (ms_client s1) = ''sonic-db'' then onBus e (\<lambda>be c. ApplyPatchDb be c text) s1 else (Ret (), s1))
               (\<lambda>_. onBus e (\<lambda>be c. ConfigSave be c ''/etc/sonic/config_db.json''))))"

definition withCheckpoint ::
  "('c, 'r) menv \<Rightarrow> string option \<Rightarrow> Path option list \<Rightarrow> Update list \<Rightarrow> Update list \<Rightarrow> ('c, 'r) mstate
   \<Rightarrow> unit go \<times> ('c, 'r) mstate" where
  "withCheckpoint e ns delete replace update s =
     bindG (loadCheckpoint (case ns of None \<Rightarrow> [] | Some n \<Rightarrow> n) s)
       (\<lambda>d s1.
          case buildPatch e (mc_prefix (ms_client s1)) ns delete replace update d of
            (r, d1) \<Rightarrow>
              bindG (r, s1\<lparr>ms_client := (ms_client s1)\<lparr>mc_jClient := Some d1\<rparr>\<rparr>) (applyPatch e))"

text \<open>The checkpoint is deleted when the function returns, also by a panic; an error of the deletion is ignored.\<close>

definition SetIncrementalConfig ::
  "('c, 'r) menv \<Rightarrow> Path option list \<Rightarrow> Update list \<Rightarrow> Update list \<Rightarrow> ('c, 'r) mstate \<Rightarrow> unit go \<times> ('c, 'r) mstate" where
  "SetIncrementalConfig e delete replace update s =
     bindG (checkpointNs e s)
       (\<lambda>ns s1.
          bindG (onBus e (\<lambda>be c. CreateCheckPoint be c (CHECK_POINT_PATH @ ''/config'')) s1)
            (\<lambda>_ s2.
               case withCheckpoint e ns delete replace update s2 of
                 (r, s3) \<Rightarrow> (r, snd (onBus e (\<lambda>be c. DeleteCheckPoint be c (CHECK_POINT_PATH @ ''/config'')) s3))))"

definition SetFullConfig ::
  "('c, 'r) menv \<Rightarrow> Path option list \<Rightarrow> Update list \<Rightarrow> Update list \<Rightarrow> ('c, 'r) mstate \<Rightarrow> unit go \<times> ('c, 'r) mstate" where
  "SetFullConfig e delete replace update s =
     (case update of
        [] \<Rightarrow> (Crash, s)
      | u # _ \<Rightarrow>
          (let content = GetJsonIetfVal (upd_val u); fileName = mc_workPath (ms_client s) @ ''/config_db.json.tmp'' in
           if content = [] then (Err (Plain ''Value encoding is not IETF JSON''), s)
           else
             (case onWorld (osWriteFile fileName content) s of
                (False, s1) \<Rightarrow> (Err (Plain ''WriteFile''), s1)
              | (True, s1) \<Rightarrow>
                  if me_python e fileName (bus_host (ms_bus s1)) then (Ret (), s1)
                  else (Err (Plain ''Yang validation failed!''), s1))))"

definition ReplaceFullConfig ::
  "('c, 'r) menv \<Rightarrow> Path option list \<Rightarrow> Update list \<Rightarrow> Update list \<Rightarrow> ('c, 'r) mstate \<Rightarrow> unit go \<times> ('c, 'r) mstate" where
  "ReplaceFullConfig e delete replace update s =
     (case replace of
        [] \<Rightarrow> (Crash, s)
      | u # _ \<Rightarrow>
          (let content = GetJsonIetfVal (upd_val u) in
           if content = [] then (Err (Plain ''Value encoding is not IETF JSON''), s)
           else
             bindG (onBus e (\<lambda>be c. ConfigReplace be c content) s)
               (\<lambda>_. onBus e (\<lambda>be c. ConfigSave be c ''/etc/sonic/config_db.json''))))"

definition isRoot :: "PathElem list option \<Rightarrow> bool" where
  "isRoot full \<longleftrightarrow> (case full of None \<Rightarrow> True | Some es \<Rightarrow> es = [])"

definition liftG :: "'a go \<Rightarrow> 's \<Rightarrow> 'a go \<times> 's" where
  "liftG r s = (r, s)"

definition SetConfigDB ::
  "('c, 'r) menv \<Rightarrow> Path option list \<Rightarrow> Update list \<Rightarrow> Update list \<Rightarrow> ('c, 'r) mstate \<Rightarrow> unit go \<times> ('c, 'r) mstate" where
  "SetConfigDB e delete replace update s0 =
     (let s = snd (onWorld (osRemove (mc_workPath (ms_client s0) @ ''/config_db.json.tmp'')) s0);
          full = gnmiFullPath (mc_prefix (ms_client s)) in
      case (delete, replace, update) of
        ([d], [], [u]) \<Rightarrow>
          bindG (liftG (full d) s)
            (\<lambda>fd s1. bindG (liftG (full (upd_path u)) s1)
               (\<lambda>fu s2.
                  if isRoot fd \<and> isRoot fu then SetFullConfig e delete replace update s2
                  else SetIncrementalConfig e delete replace update s2))
      | ([], [u], []) \<Rightarrow>
          bindG (liftG (full (upd_path u)) s)
            (\<lambda>fr s1.
               if isRoot fr then ReplaceFullConfig e delete replace update s1
               else SetIncrementalConfig e delete replace update s1)
      | _ \<Rightarrow> SetIncrementalConfig e delete replace update s)"

definition Mixed_Set ::
  "('c, 'r) menv \<Rightarrow> Path option list \<Rightarrow> Update list \<Rightarrow> Update list \<Rightarrow> ('c, 'r) mstate \<Rightarrow> unit go \<times> ('c, 'r) mstate" where
  "Mixed_Set e delete replace update s =
     (let target = mc_target (ms_client s) in
      if target = ''CONFIG_DB'' then SetConfigDB e delete replace update s
      else if target = DPU_APPL_DB_NAME \<or> target = APPL_DB_NAME then SetDB e delete replace update s
      else (Err (Plain ''Set RPC does not support''), s))"

section \<open>Get\<close>

text \<open>
  \<open>GetCheckPoint\<close> declares \<open>namespace\<close> again inside the branch for several namespaces, so the name it passes on is
  always empty.
\<close>

fun checkpointValues ::
  "('c, 'r) menv \<Rightarrow> Path option \<Rightarrow> json gomap \<Rightarrow> Path option list \<Rightarrow> Value list go" where
  "checkpointValues e prefix d [] = Ret []"
| "checkpointValues e prefix d (p # ps) =
     (case gnmiFullPath prefix p of
        Err err \<Rightarrow> Err err
      | Crash \<Rightarrow> Crash
      | Ret None \<Rightarrow> checkpointValues e prefix d ps
      | Ret (Some es) \<Rightarrow>
          (case JsonClient_Get (me_jnum e) d (map elem_name es) of
             None \<Rightarrow> Err (Plain ''Get'')
           | Some jv \<Rightarrow>
               (case checkpointValues e prefix d ps of
                  Ret vs \<Rightarrow> Ret (\<lparr>val_Path = p, val_Val = JsonIetfVal jv, val_Timestamp = me_now e\<rparr> # vs)
                | r \<Rightarrow> r)))"

definition GetCheckPoint :: "('c, 'r) menv \<Rightarrow> ('c, 'r) mstate \<Rightarrow> Value list go \<times> ('c, 'r) mstate" where
  "GetCheckPoint e s =
     bindG (checkpointNs e s)
       (\<lambda>_ s1.
          bindG (loadCheckpoint [] s1)
            (\<lambda>d s2. (checkpointValues e (mc_prefix (ms_client s2)) d (mc_paths (ms_client s2)), s2)))"

definition Mixed_Get :: "('c, 'r) menv \<Rightarrow> ('c, 'r) mstate \<Rightarrow> Value list go \<times> ('c, 'r) mstate" where
  "Mixed_Get e s =
     (if mc_target (ms_client s) = ''CONFIG_DB'' then
        (case GetCheckPoint e s of
           (Ret vs, s1) \<Rightarrow> (Ret vs, s1)
         | (Err _, s1) \<Rightarrow> getTables e (mc_paths (ms_client s1)) s1
         | (Crash, s1) \<Rightarrow> (Crash, s1))
      else getTables e (mc_paths (ms_client s)) s)"

section \<open>Lemmas: sequences of D-Bus calls\<close>

text \<open>The bus can be reached.\<close>

definition busUp :: "('c, 'r) menv \<Rightarrow> bool" where
  "busUp e \<longleftrightarrow> (\<forall>h. be_bus (me_bus e) h = None)"

definition sent :: "('c, 'r) mstate \<Rightarrow> dbus_call list" where
  "sent s = bus_calls (ms_bus s)"

lemma onBus_sent:
  assumes "busUp e" and "onBus e call s = (r, s')"
    and "\<And>be b. call be NewDbusClient b = onlyErr (DbusApi be m (countBus be ct b))"
  shows "sent s' = sent s @ [m]" "ms_client s' = ms_client s"
proof -
  obtain v b where api: "DbusApi (me_bus e) m (countBus (me_bus e) ct (ms_bus s)) = (v, b)" by force
  have up: "be_bus (me_bus e) h = None" for h using assms(1) unfolding busUp_def by blast
  from api have "bus_calls b = bus_calls (ms_bus s) @ [m]"
    by (cases rule: DbusApi_cases) (simp_all add: up)
  with assms(2) show "sent s' = sent s @ [m]" "ms_client s' = ms_client s"
    by (auto simp: onBus_def assms(3) api onlyErr_def sent_def split: sum.splits)
qed

definition createCall :: dbus_call where
  "createCall = dbusMethod NewDbusClient ''gcu'' ''.create_checkpoint'' 60 [CHECK_POINT_PATH @ ''/config'']"

definition deleteCall :: dbus_call where
  "deleteCall = dbusMethod NewDbusClient ''gcu'' ''.delete_checkpoint'' 60 [CHECK_POINT_PATH @ ''/config'']"

definition applyCall :: "('c, 'r) menv \<Rightarrow> patch_op list \<Rightarrow> dbus_call" where
  "applyCall e ps = dbusMethod NewDbusClient ''gcu'' ''.apply_patch_db'' 600 [patchText (me_jnum e) ps]"

definition saveCall :: dbus_call where
  "saveCall = dbusMethod NewDbusClient ''config'' ''.save'' 60 [''/etc/sonic/config_db.json'']"

lemma config_calls:
  assumes "busUp e"
  shows "onBus e (\<lambda>be c. CreateCheckPoint be c (CHECK_POINT_PATH @ ''/config'')) s = (r, s')
           \<Longrightarrow> sent s' = sent s @ [createCall] \<and> ms_client s' = ms_client s"
    and "onBus e (\<lambda>be c. DeleteCheckPoint be c (CHECK_POINT_PATH @ ''/config'')) s = (r, s')
           \<Longrightarrow> sent s' = sent s @ [deleteCall] \<and> ms_client s' = ms_client s"
    and "onBus e (\<lambda>be c. ApplyPatchDb be c (patchText (me_jnum e) ps)) s = (r, s')
           \<Longrightarrow> sent s' = sent s @ [applyCall e ps] \<and> ms_client s' = ms_client s"
    and "onBus e (\<lambda>be c. ConfigSave be c ''/etc/sonic/config_db.json'') s = (r, s')
           \<Longrightarrow> sent s' = sent s @ [saveCall] \<and> ms_client s' = ms_client s"
proof -
  note rule = onBus_sent [OF assms]
  show "onBus e (\<lambda>be c. CreateCheckPoint be c (CHECK_POINT_PATH @ ''/config'')) s = (r, s')
      \<Longrightarrow> sent s' = sent s @ [createCall] \<and> ms_client s' = ms_client s"
    using rule [where m = createCall and ct = DBUS_CREATE_CHECKPOINT] by (simp add: CreateCheckPoint_def createCall_def)
  show "onBus e (\<lambda>be c. DeleteCheckPoint be c (CHECK_POINT_PATH @ ''/config'')) s = (r, s')
      \<Longrightarrow> sent s' = sent s @ [deleteCall] \<and> ms_client s' = ms_client s"
    using rule [where m = deleteCall and ct = DBUS_DELETE_CHECKPOINT] by (simp add: DeleteCheckPoint_def deleteCall_def)
  show "onBus e (\<lambda>be c. ApplyPatchDb be c (patchText (me_jnum e) ps)) s = (r, s')
      \<Longrightarrow> sent s' = sent s @ [applyCall e ps] \<and> ms_client s' = ms_client s"
    using rule [where m = "applyCall e ps" and ct = DBUS_APPLY_PATCH_DB] by (simp add: ApplyPatchDb_def applyCall_def)
  show "onBus e (\<lambda>be c. ConfigSave be c ''/etc/sonic/config_db.json'') s = (r, s')
      \<Longrightarrow> sent s' = sent s @ [saveCall] \<and> ms_client s' = ms_client s"
    using rule [where m = saveCall and ct = DBUS_CONFIG_SAVE] by (simp add: ConfigSave_def saveCall_def)
qed

lemma onWorld_frame: "onWorld f s = (x, s') \<Longrightarrow> sent s' = sent s \<and> ms_client s' = ms_client s"
  by (auto simp: onWorld_def sent_def split: prod.splits)

lemma checkpointNs_frame:
  "checkpointNs e s = (r, s') \<Longrightarrow> sent s' = sent s \<and> ms_client s' = ms_client s \<and> hostWorld s' = hostWorld s"
  by (auto simp: checkpointNs_def sent_def setCfg_def hostWorld_def split: prod.splits option.splits bool.splits)

lemma loadCheckpoint_frame:
  "loadCheckpoint ns s = (r, s') \<Longrightarrow>
     sent s' = sent s \<and> mc_prefix (ms_client s') = mc_prefix (ms_client s) \<and> mc_origin (ms_client s') = mc_origin (ms_client s)"
  by (auto simp: loadCheckpoint_def sent_def onWorld_def split: prod.splits option.splits)

lemma applyPatch_sent:
  assumes "busUp e" and "mc_origin (ms_client s) = ''sonic-db''" and "applyPatch e ps s = (r, s')"
  shows "sent s' = sent s \<and> (ps = [] \<or> r \<noteq> Ret ()) \<or>
         ps \<noteq> [] \<and> sent s' = sent s @ [applyCall e ps] \<and> r \<noteq> Ret () \<or>
         ps \<noteq> [] \<and> sent s' = sent s @ [applyCall e ps, saveCall]"
proof (cases "ps = []")
  case True
  with assms(3) show ?thesis by (simp add: applyPatch_def)
next
  case False
  obtain ok s1 where w: "onWorld (osWriteFile (mc_workPath (ms_client s) @ ''/gcu.patch'') (patchText (me_jnum e) ps)) s = (ok, s1)"
    by force
  note f = onWorld_frame [OF w]
  show ?thesis
  proof (cases ok)
    case True
    obtain ra sa where a: "onBus e (\<lambda>be c. ApplyPatchDb be c (patchText (me_jnum e) ps)) s1 = (ra, sa)" by force
    obtain rb sb where b: "onBus e (\<lambda>be c. ConfigSave be c ''/etc/sonic/config_db.json'') sa = (rb, sb)" by force
    from True False w f assms(2,3) a b have "bindG (ra, sa) (\<lambda>_ _. (rb, sb)) = (r, s')"
      by (cases ra) (auto simp: applyPatch_def Let_def)
    then show ?thesis
      using config_calls(3) [OF assms(1) a] config_calls(4) [OF assms(1) b] f False by (cases ra) auto
  next
    case False
    with \<open>ps \<noteq> []\<close> w f assms(3) show ?thesis by (auto simp: applyPatch_def Let_def)
  qed
qed

lemma withCheckpoint_sent:
  assumes "busUp e" and "mc_origin (ms_client s) = ''sonic-db''" and "withCheckpoint e ns dels reps upds s = (r, s')"
  shows "\<exists>mid. sent s' = sent s @ mid \<and>
           (mid = [] \<and> r \<noteq> Ret () \<or>
            (\<exists>d ps d'. buildPatch e (mc_prefix (ms_client s)) ns dels reps upds d = (Ret ps, d') \<and>
               (ps = [] \<and> mid = [] \<or> ps \<noteq> [] \<and> mid = [applyCall e ps] \<and> r \<noteq> Ret () \<or> ps \<noteq> [] \<and> mid = [applyCall e ps, saveCall])))"
proof -
  obtain l s1 where l: "loadCheckpoint (case ns of None \<Rightarrow> [] | Some n \<Rightarrow> n) s = (l, s1)" by force
  note f = loadCheckpoint_frame [OF l]
  show ?thesis
  proof (cases l)
    case (Ret d)
    obtain p d' where p: "buildPatch e (mc_prefix (ms_client s1)) ns dels reps upds d = (p, d')" by force
    let ?s2 = "s1\<lparr>ms_client := (ms_client s1)\<lparr>mc_jClient := Some d'\<rparr>\<rparr>"
    have s2: "sent ?s2 = sent s" "mc_origin (ms_client ?s2) = ''sonic-db''" using f assms(2) by (simp_all add: sent_def)
    have run: "bindG (p, ?s2) (applyPatch e) = (r, s')" using assms(3) l Ret p by (simp add: withCheckpoint_def)
    show ?thesis
    proof (cases p)
      case (Ret ps)
      with run have "applyPatch e ps ?s2 = (r, s')" by simp
      from applyPatch_sent [OF assms(1) s2(2) this] s2(1) p Ret f show ?thesis by auto
    qed (use run s2 in auto)
  qed (use assms(3) l f in \<open>auto simp: withCheckpoint_def\<close>)
qed

text \<open>The calls of one request, and how they depend on the outcome.\<close>

lemma SetIncrementalConfig_sent:
  assumes "busUp e" and "mc_origin (ms_client s) = ''sonic-db''" and "SetIncrementalConfig e dels reps upds s = (r, s')"
  shows "(sent s' = sent s \<or> sent s' = sent s @ [createCall]) \<and> r \<noteq> Ret () \<or>
         (\<exists>mid. sent s' = sent s @ createCall # mid @ [deleteCall] \<and>
           (mid = [] \<and> r \<noteq> Ret () \<or>
            (\<exists>ns d ps d'. buildPatch e (mc_prefix (ms_client s)) ns dels reps upds d = (Ret ps, d') \<and>
               (ps = [] \<and> mid = [] \<or> ps \<noteq> [] \<and> mid = [applyCall e ps] \<and> r \<noteq> Ret () \<or> ps \<noteq> [] \<and> mid = [applyCall e ps, saveCall]))))"
proof -
  obtain n s1 where n: "checkpointNs e s = (n, s1)" by force
  note f1 = checkpointNs_frame [OF n]
  show ?thesis
  proof (cases n)
    case (Ret ns)
    obtain c s2 where c: "onBus e (\<lambda>be c. CreateCheckPoint be c (CHECK_POINT_PATH @ ''/config'')) s1 = (c, s2)" by force
    note f2 = config_calls(1) [OF assms(1) c]
    show ?thesis
    proof (cases c)
      case (Ret u)
      obtain r1 s3 where w: "withCheckpoint e ns dels reps upds s2 = (r1, s3)" by force
      obtain r2 s4 where d: "onBus e (\<lambda>be c. DeleteCheckPoint be c (CHECK_POINT_PATH @ ''/config'')) s3 = (r2, s4)" by force
      have rs: "r1 = r" "s4 = s'" using assms(3) n \<open>n = Ret ns\<close> c Ret w d by (simp_all add: SetIncrementalConfig_def)
      have o2: "mc_origin (ms_client s2) = ''sonic-db''" using assms(2) f1 f2 by simp
      have s4: "sent s' = sent s3 @ [deleteCall]" using config_calls(2) [OF assms(1) d] rs by simp
      from withCheckpoint_sent [OF assms(1) o2 w] obtain mid where mid: "sent s3 = sent s2 @ mid"
        "mid = [] \<and> r1 \<noteq> Ret () \<or>
          (\<exists>d ps d'. buildPatch e (mc_prefix (ms_client s2)) ns dels reps upds d = (Ret ps, d') \<and>
             (ps = [] \<and> mid = [] \<or> ps \<noteq> [] \<and> mid = [applyCall e ps] \<and> r1 \<noteq> Ret () \<or> ps \<noteq> [] \<and> mid = [applyCall e ps, saveCall]))"
        by blast
      have "sent s' = sent s @ createCall # mid @ [deleteCall]" using s4 mid(1) f1 f2 by simp
      with mid(2) rs(1) f1 f2 show ?thesis by auto
    qed (use assms(3) n \<open>n = Ret ns\<close> c f1 f2 in \<open>auto simp: SetIncrementalConfig_def\<close>)
  qed (use assms(3) n f1 in \<open>auto simp: SetIncrementalConfig_def\<close>)
qed

section \<open>Lemmas: the patch\<close>

lemma parse_wf:
  "parseValue n s = Some (v, r) \<Longrightarrow> wfJson v"
  "parseElems n s = Some (vs, r) \<Longrightarrow> list_all wfJson vs"
  "parseMembers n s = Some (ms, r) \<Longrightarrow> list_all (\<lambda>(k, v). wfJson v) ms"
proof (induction n arbitrary: s v vs ms r)
  case (Suc n)
  {
    case 1
    obtain c cs where sk: "skipWs s = c # cs" using 1 by (cases "skipWs s") auto
    have num: "list_all isNumChar (takeWhile isNumChar (c # cs))" by (simp only: list_all_iff) (metis set_takeWhileD)
    from 1 sk consider (str) t where "v = JStr t" | (arr) vs where "v = JArr vs" "vs = [] \<or> (\<exists>r. parseElems n cs = Some (vs, r))"
      | (obj) ms where "v = JObj ms" "ms = [] \<or> (\<exists>r. parseMembers n cs = Some (ms, r))"
      | (lit) "v = JNull \<or> (\<exists>b. v = JBool b)"
      | (num) "v = JNum (takeWhile isNumChar (c # cs))" "validNum (takeWhile isNumChar (c # cs))"
      unfolding parseValue.simps sk list.case Let_def
      by (simp del: takeWhile.simps dropWhile.simps split: if_splits option.splits) blast+
    then show ?case using Suc.IH(2,3) [of cs] num by cases (auto simp del: takeWhile.simps)
  next
    case 2
    then obtain v s1 where v: "parseValue n s = Some (v, s1)" by (auto split: option.splits)
    with 2 have "vs = [v] \<or> (\<exists>s2 vs'. vs = v # vs' \<and> parseElems n s2 = Some (vs', r))"
      by (auto split: option.splits)
    with Suc.IH(1) [OF v] Suc.IH(2) show ?case by auto
  next
    case 3
    then obtain cs k s1 s2 v s3 where p: "eat quoteC s = Some cs" "parseStr cs = Some (k, s1)"
        "eat (CHR '':'') s1 = Some s2" "parseValue n s2 = Some (v, s3)"
      by (auto split: option.splits)
    with 3 have "ms = [(k, v)] \<or> (\<exists>s4 ms'. ms = (k, v) # ms' \<and> parseMembers n s4 = Some (ms', r))"
      by (auto split: option.splits)
    with Suc.IH(1) [OF p(4)] Suc.IH(3) show ?case by auto
  }
qed simp_all

lemma parseJson_marshal: "parseJson t = Some v \<Longrightarrow> parseJson (marshal v) = Some v"
  by (rule parse_marshal)
    (auto simp: parseJson_def simp del: parseValue.simps split: option.splits if_splits dest: parse_wf(1))

lemma Add_cong:
  assumes "parseJson t = parseJson t'"
  shows "JsonClient_Add p t d = JsonClient_Add p t' d"
  unfolding JsonClient_Add_def addTable_def addEntry_def addField_def addItem_def assms ..

lemma Replace_cong:
  assumes "parseJson t = parseJson t'"
  shows "JsonClient_Replace p t d = JsonClient_Replace p t' d"
  unfolding JsonClient_Replace_def Add_cong [OF assms] ..

text \<open>Paths whose elements have no keys and no slash: the patch names them faithfully.\<close>

definition plainPath :: "Path option \<Rightarrow> Path option \<Rightarrow> bool" where
  "plainPath prefix path \<longleftrightarrow>
     pathElems path \<noteq> [] \<and>
     (\<forall>el\<in>set (drop 2 (pathElems prefix @ pathElems path)). elem_key el = [] \<and> CHR ''/'' \<notin> set (elem_name el))"

definition pathNames :: "Path option \<Rightarrow> Path option \<Rightarrow> string list" where
  "pathNames prefix path = map elem_name (drop 2 (pathElems prefix @ pathElems path))"

lemma concat_slash: "names \<noteq> [] \<Longrightarrow> concat (map (\<lambda>n. n @ ''/'') names) = join ''/'' names @ ''/''"
  by (induction "''/''" names rule: join.induct) auto

lemma jsonPath_names:
  assumes "\<forall>el\<in>set es. elem_key el = [] \<and> CHR ''/'' \<notin> set (elem_name el)" and "rng [] = []"
  shows "tl (split CHR ''/'' (jsonPath rng es)) = map elem_name es"
proof (cases "es = []")
  case True
  then show ?thesis by (simp add: jsonPath_def trimSuffix_def hasSuffix_def)
next
  case False
  have "map (\<lambda>el. elem_name el @ keyText (rng (elem_key el)) @ ''/'') es = map (\<lambda>n. n @ ''/'') (map elem_name es)"
    using assms by simp
  then have "concat (map (\<lambda>el. elem_name el @ keyText (rng (elem_key el)) @ ''/'') es) = concat (map (\<lambda>n. n @ ''/'') (map elem_name es))"
    by (rule arg_cong)
  also have "\<dots> = join ''/'' (map elem_name es) @ ''/''" by (rule concat_slash) (use False in simp)
  finally have "jsonPath rng es = ''/'' @ join ''/'' (map elem_name es)"
    by (simp only: jsonPath_def) (simp add: trimSuffix_def hasSuffix_def)
  also have "\<dots> = join ''/'' ([] # map elem_name es)" using False by (cases es) auto
  finally show ?thesis
    using split_join [of "[] # map elem_name es" "CHR ''/''"] assms(1) by simp
qed

text \<open>Carrying a patch out with the JSON client, one operation after the other; an operation that fails stops it.\<close>

definition runOp :: "patch_op \<Rightarrow> json gomap \<Rightarrow> json gomap option" where
  "runOp p d =
     (let names = tl (split CHR ''/'' (po_path p));
          result = (\<lambda>r. case r of (True, d') \<Rightarrow> Some d' | (False, _) \<Rightarrow> None) in
      case (po_op p, po_value p) of
        (DELETE_OPERATION, _) \<Rightarrow> result (JsonClient_Remove names d)
      | (REPLACE_OPERATION, Some v) \<Rightarrow> result (JsonClient_Replace names (marshal v) d)
      | (UPDATE_OPERATION, Some v) \<Rightarrow> result (JsonClient_Add names (marshal v) d)
      | _ \<Rightarrow> None)"

fun runPatch :: "patch_op list \<Rightarrow> json gomap \<Rightarrow> json gomap option" where
  "runPatch [] d = Some d"
| "runPatch (p # ps) d = Option.bind (runOp p d) (runPatch ps)"

lemma runPatch_append: "runPatch (ps @ qs) d = Option.bind (runPatch ps d) (runPatch qs)"
  by (induction ps arbitrary: d) (auto split: Option.bind_splits)

text \<open>One step of the request: nothing, or one operation whose path and value are those of the step.\<close>

lemma patchStep_cases:
  assumes "patchStep e prefix None kind path t edit d = (Ret ps, d')" and "plainPath prefix path" and "me_rng e [] = []"
  obtains (absent) "ps = []" "edit (pathNames prefix path) d = (Ret False, d')"
    | (present) p where "ps = [p]" "po_op p = kind" "edit (pathNames prefix path) d = (Ret True, d')"
        "tl (split CHR ''/'' (po_path p)) = pathNames prefix path" "po_value p = None \<longleftrightarrow> t = NilVal"
        "\<And>v. po_value p = Some v \<Longrightarrow> parseJson (GetJsonIetfVal t) = Some v"
proof -
  have full: "gnmiFullPath prefix path = Ret full \<Longrightarrow> full = Some (drop 2 (pathElems prefix @ pathElems path))" for full
    using assms(2) by (auto simp: gnmiFullPath_def plainPath_def Let_def split: if_splits)
  from assms(1) have fp: "gnmiFullPath prefix path = Ret (Some (drop 2 (pathElems prefix @ pathElems path)))"
    by (cases "gnmiFullPath prefix path") (auto simp: patchStep_def dest: full simp del: drop_append)
  have "\<exists>there d1. edit (pathNames prefix path) d = (Ret there, d1) \<and>
      (if there then \<exists>p. ConvertToJsonPatch e prefix path t kind = Ret p \<and> ps = [p] \<and> d1 = d' else ps = [] \<and> d1 = d')"
    using assms(1) unfolding patchStep_def fp go.case option.case pathNames_def [symmetric] bindG_Ret_iff
    by (fastforce simp: inNamespace_def split: if_splits go.splits)
  then obtain there where ed: "edit (pathNames prefix path) d = (Ret there, d')"
    and ps: "if there then \<exists>p. ConvertToJsonPatch e prefix path t kind = Ret p \<and> ps = [p] else ps = []"
    by (auto split: if_splits)
  show thesis
  proof (cases there)
    case False
    with ed ps absent show thesis by simp
  next
    case True
    with ps obtain p where p: "ps = [p]" "ConvertToJsonPatch e prefix path t kind = Ret p" by auto
    have "tl (split CHR ''/'' (jsonPath (me_rng e) (drop 2 (pathElems prefix @ pathElems path)))) = pathNames prefix path"
      using jsonPath_names [of _ "me_rng e"] assms(2,3) by (simp add: plainPath_def pathNames_def)
    with p(2) fp have "po_op p = kind" "tl (split CHR ''/'' (po_path p)) = pathNames prefix path"
      "po_value p = None \<longleftrightarrow> t = NilVal" "\<And>v. po_value p = Some v \<Longrightarrow> parseJson (GetJsonIetfVal t) = Some v"
      by (auto simp: ConvertToJsonPatch_def Let_def split: if_splits option.splits)
    with p(1) ed True present show thesis by simp
  qed
qed

lemma deleteStep_runs:
  assumes "deleteStep e prefix None path d = (Ret ps, d')" and "plainPath prefix path" and "me_rng e [] = []"
  shows "runPatch ps d = Some d' \<and> (map po_op ps = [] \<or> map po_op ps = [DELETE_OPERATION])"
  using assms(1) [unfolded deleteStep_def] assms(2,3)
proof (cases rule: patchStep_cases)
  case absent
  then show ?thesis using Remove_failed [of "pathNames prefix path" d d'] by (auto simp: editDelete_def split: prod.splits)
next
  case (present p)
  then show ?thesis by (auto simp: editDelete_def runOp_def split: prod.splits)
qed

lemma replaceStep_runs:
  assumes "replaceStep e prefix None u d = (Ret ps, d')" and "plainPath prefix (upd_path u)" and "me_rng e [] = []"
    and "upd_val u \<noteq> NilVal"
  shows "runPatch ps d = Some d' \<and> map po_op ps = [REPLACE_OPERATION]"
  using assms(1) [unfolded replaceStep_def] assms(2,3)
proof (cases rule: patchStep_cases)
  case absent
  then show ?thesis using assms(4) by (auto simp: editReplace_def split: prod.splits bool.splits)
next
  case (present p)
  then obtain v where v: "po_value p = Some v" using assms(4) by (cases "po_value p") auto
  with present(6) have "JsonClient_Replace n (marshal v) d = JsonClient_Replace n (GetJsonIetfVal (upd_val u)) d" for n
    by (intro Replace_cong) (simp add: parseJson_marshal)
  with present v assms(4) show ?thesis by (auto simp: editReplace_def runOp_def split: prod.splits bool.splits)
qed

lemma updateStep_runs:
  assumes "updateStep e prefix None u d = (Ret ps, d')" and "plainPath prefix (upd_path u)" and "me_rng e [] = []"
  shows "runPatch ps d = Some d' \<and> map po_op ps = [UPDATE_OPERATION]"
  using assms(1) [unfolded updateStep_def] assms(2,3)
proof (cases rule: patchStep_cases)
  case absent
  then show ?thesis by (auto simp: editUpdate_def split: prod.splits bool.splits if_splits)
next
  case (present p)
  then have nn: "upd_val u \<noteq> NilVal" by (auto simp: editUpdate_def)
  with present obtain v where v: "po_value p = Some v" by (cases "po_value p") auto
  with present(6) have "JsonClient_Add n (marshal v) d = JsonClient_Add n (GetJsonIetfVal (upd_val u)) d" for n
    by (intro Add_cong) (simp add: parseJson_marshal)
  with present v nn show ?thesis by (auto simp: editUpdate_def runOp_def split: prod.splits bool.splits)
qed

lemma patchSteps_runs:
  assumes "patchSteps f xs d = (Ret ps, d')"
    and "\<And>x d qs d'. x \<in> set xs \<Longrightarrow> f x d = (Ret qs, d') \<Longrightarrow> runPatch qs d = Some d' \<and> Q (map po_op qs)"
  shows "runPatch ps d = Some d' \<and> (\<exists>kss. length kss = length xs \<and> list_all Q kss \<and> map po_op ps = concat kss)"
  using assms
proof (induction xs arbitrary: d ps)
  case (Cons x xs)
  from Cons.prems(1) obtain qs d1 rs where x: "f x d = (Ret qs, d1)" "patchSteps f xs d1 = (Ret rs, d')" "ps = qs @ rs"
    by (auto simp: bindG_Ret_iff)
  have "runPatch rs d1 = Some d' \<and> (\<exists>kss. length kss = length xs \<and> list_all Q kss \<and> map po_op rs = concat kss)"
    by (rule Cons.IH [OF x(2)]) (rule Cons.prems(2), auto)
  then obtain kss where
    kss: "length kss = length xs" "list_all Q kss" "map po_op rs = concat kss" "runPatch rs d1 = Some d'" by auto
  with Cons.prems(2) [OF _ x(1)] x(3) show ?case
    by (auto simp: runPatch_append intro!: exI [of _ "map po_op qs # kss"])
qed simp

lemma concat_singletons: "list_all (\<lambda>ks. ks = [k]) kss \<Longrightarrow> concat kss = replicate (length kss) k"
  by (induction kss) auto

lemma concat_at_most: "list_all (\<lambda>ks. ks = [] \<or> ks = [k]) kss \<Longrightarrow> \<exists>i \<le> length kss. concat kss = replicate i k"
proof (induction kss)
  case (Cons ks kss)
  then obtain i where "i \<le> length kss" "concat kss = replicate i k" by auto
  with Cons.prems show ?case by (auto intro: exI [of _ i] exI [of _ "Suc i"])
qed simp

lemma buildPatch_runs:
  assumes "buildPatch e prefix None dels reps upds d = (Ret ps, d')"
    and "me_rng e [] = []" and "\<forall>p\<in>set dels. plainPath prefix p"
    and "\<forall>u\<in>set reps. plainPath prefix (upd_path u) \<and> upd_val u \<noteq> NilVal" and "\<forall>u\<in>set upds. plainPath prefix (upd_path u)"
  shows "runPatch ps d = Some d' \<and>
         (\<exists>i \<le> length dels. map po_op ps =
            replicate i DELETE_OPERATION @ replicate (length reps) REPLACE_OPERATION @ replicate (length upds) UPDATE_OPERATION)"
proof -
  from assms(1) obtain p1 d1 p2 d2 p3 where
    1: "patchSteps (deleteStep e prefix None) dels d = (Ret p1, d1)" and
    2: "patchSteps (replaceStep e prefix None) reps d1 = (Ret p2, d2)" and
    3: "patchSteps (updateStep e prefix None) upds d2 = (Ret p3, d')" and ps: "ps = p1 @ p2 @ p3"
    by (auto simp: buildPatch_def bindG_Ret_iff)
  have r1: "runPatch p1 d = Some d1 \<and> (\<exists>kss. length kss = length dels \<and> list_all (\<lambda>ks. ks = [] \<or> ks = [DELETE_OPERATION]) kss
      \<and> map po_op p1 = concat kss)"
    by (rule patchSteps_runs [OF 1]) (use deleteStep_runs assms(2,3) in blast)
  have r2: "runPatch p2 d1 = Some d2 \<and> (\<exists>kss. length kss = length reps \<and> list_all (\<lambda>ks. ks = [REPLACE_OPERATION]) kss
      \<and> map po_op p2 = concat kss)"
    by (rule patchSteps_runs [OF 2]) (use replaceStep_runs assms(2,4) in blast)
  have r3: "runPatch p3 d2 = Some d' \<and> (\<exists>kss. length kss = length upds \<and> list_all (\<lambda>ks. ks = [UPDATE_OPERATION]) kss
      \<and> map po_op p3 = concat kss)"
    by (rule patchSteps_runs [OF 3]) (use updateStep_runs assms(2,5) in blast)
  from r1 concat_at_most obtain i where "i \<le> length dels" "map po_op p1 = replicate i DELETE_OPERATION" by fastforce
  moreover from r2 concat_singletons have "map po_op p2 = replicate (length reps) REPLACE_OPERATION" by fastforce
  moreover from r3 concat_singletons have "map po_op p3 = replicate (length upds) UPDATE_OPERATION" by fastforce
  ultimately show ?thesis using r1 r2 r3 by (auto simp: ps runPatch_append)
qed

text \<open>Every update gives an operation.\<close>

lemma updateSteps_length: "patchSteps (updateStep e prefix ns) us d = (Ret ps, d') \<Longrightarrow> length ps = length us"
proof (induction us arbitrary: d ps)
  case (Cons u us)
  then obtain qs d1 rs where "updateStep e prefix ns u d = (Ret qs, d1)" "patchSteps (updateStep e prefix ns) us d1 = (Ret rs, d')"
    "ps = qs @ rs" by (auto simp: bindG_Ret_iff)
  moreover from this(1) have "length qs = 1"
    by (cases "ConvertToJsonPatch e prefix (upd_path u) (upd_val u) UPDATE_OPERATION")
      (auto simp: updateStep_def patchStep_def bindG_Ret_iff editUpdate_def
        split: go.splits option.splits if_splits prod.splits bool.splits)
  ultimately show ?case using Cons.IH by simp
qed simp

lemma buildPatch_updates: "buildPatch e prefix ns dels reps us d = (Ret ps, d') \<Longrightarrow> length us \<le> length ps"
  by (auto simp: buildPatch_def bindG_Ret_iff dest: updateSteps_length)

text \<open>A deletion of the whole configuration.\<close>

lemma root_delete_no_patch:
  assumes "pathElems p \<noteq> []" and "length (pathElems prefix @ pathElems p) = 2"
  shows "buildPatch e prefix ns [p] [] [] d = (Ret [], d) \<or> buildPatch e prefix ns [p] [] [] d = (Crash, d)"
proof -
  have "drop 2 (pathElems prefix @ pathElems p) = []" using assms(2) by simp
  moreover have "JsonClient_Remove [] d = (False, d)" by (simp add: JsonClient_Remove_def FixPath_def)
  ultimately show ?thesis
    using assms
    by (auto simp: buildPatch_def deleteStep_def patchStep_def gnmiFullPath_def Let_def editDelete_def bindG_def
        simp del: drop_append)
qed

lemma Mixed_Set_root_delete:
  assumes "mc_target (ms_client s) = ''CONFIG_DB''"
  shows "Mixed_Set e [p] [] [] s =
           SetIncrementalConfig e [p] [] [] (snd (onWorld (osRemove (mc_workPath (ms_client s) @ ''/config_db.json.tmp'')) s))"
  using assms by (simp add: Mixed_Set_def SetConfigDB_def Let_def)

lemma GetCheckPoint_value:
  assumes "mc_dbkey (ms_client s) = Some k"
  shows "fst (GetCheckPoint e s) =
     (case CheckDbMultiNamespace (me_swss e) (ms_cfg s) of
        (_, Some err, _) \<Rightarrow> Err (Plain err)
      | (_, None, _) \<Rightarrow>
          (case fst (NewJsonClient (CHECK_POINT_PATH @ ''/config.cp.json'') [] (hostWorld s)) of
             None \<Rightarrow> Err (Plain ''checkpoint'')
           | Some d \<Rightarrow> checkpointValues e (mc_prefix (ms_client s)) d (mc_paths (ms_client s))))"
  using assms
  by (auto simp: GetCheckPoint_def checkpointNs_def loadCheckpoint_def onWorld_def hostWorld_def setCfg_def
      split: prod.splits option.splits bool.splits)

section \<open>Properties\<close>

definition vlanEx :: "json gomap" where
  "vlanEx = [(''V'', JObj [(''a'', JObj [(''id'', JStr ''1'')])])]"

definition configEx :: "json gomap \<Rightarrow> (unit, string gomap gomap \<times> nat) mstate" where
  "configEx cp =
     (let s = mstateEx ''CONFIG_DB'' None 0 in
      s\<lparr>ms_bus := (ms_bus s)\<lparr>bus_host :=
          (\<lparr>w_files = [(''/etc/sonic/config.cp.json'', Regular (marshal (JObj cp)))], w_db = [], w_faults = []\<rparr>, ([], 0))\<rparr>\<rparr>)"

definition idUpdate :: Update where
  "idUpdate = \<lparr>upd_path = pathN [''V'', ''a'', ''id''], upd_val = JsonIetfVal (marshal (JStr ''2''))\<rparr>"

text \<open>A run of the example: the bus answers every call, and the checkpoint is the one of the state.\<close>

lemma onBus_Ok:
  assumes "\<And>be b. call be NewDbusClient b = onlyErr (DbusApi be m (countBus be ct b))"
  shows "\<exists>s'. onBus menvEx call s = (Ret (), s') \<and> hostWorld s' = hostWorld s \<and> ms_client s' = ms_client s"
proof -
  have host: "bus_host (countBus be c b) = bus_host b" for be c b by (simp add: countBus_def split: option.split)
  have "\<exists>v b'. DbusApi (me_bus menvEx) m b = (Inr v, b') \<and> bus_host b' = bus_host b" for b
    by (simp add: DbusApi_def menvEx_def busOk_def readAnswer_def host Let_def)
  then obtain v b' where "DbusApi (me_bus menvEx) m (countBus (me_bus menvEx) ct (ms_bus s)) = (Inr v, b')"
    "bus_host b' = bus_host (ms_bus s)" by (metis host)
  then show ?thesis by (simp add: onBus_def assms onlyErr_def hostWorld_def)
qed

lemma ex_calls:
  "\<exists>s'. onBus menvEx (\<lambda>be c. CreateCheckPoint be c (CHECK_POINT_PATH @ ''/config'')) s = (Ret (), s') \<and>
        hostWorld s' = hostWorld s \<and> ms_client s' = ms_client s"
  "\<exists>s'. onBus menvEx (\<lambda>be c. ApplyPatchDb be c t) s = (Ret (), s') \<and> hostWorld s' = hostWorld s \<and> ms_client s' = ms_client s"
  "\<exists>s'. onBus menvEx (\<lambda>be c. ConfigSave be c t) s = (Ret (), s') \<and> hostWorld s' = hostWorld s \<and> ms_client s' = ms_client s"
  by (rule onBus_Ok, simp add: CreateCheckPoint_def ApplyPatchDb_def ConfigSave_def)+

lemma applyPatch_Ok:
  assumes "fst (osWriteFile (mc_workPath (ms_client s) @ ''/gcu.patch'') (patchText (me_jnum menvEx) ps) (hostWorld s))"
  shows "fst (applyPatch menvEx ps s) = Ret ()"
proof -
  obtain w where w: "onWorld (osWriteFile (mc_workPath (ms_client s) @ ''/gcu.patch'') (patchText (me_jnum menvEx) ps)) s = (True, w)"
    using assms
    by (cases "osWriteFile (mc_workPath (ms_client s) @ ''/gcu.patch'') (patchText (me_jnum menvEx) ps) (hostWorld s)")
      (auto simp: onWorld_def)
  obtain a where a: "onBus menvEx (\<lambda>be c. ApplyPatchDb be c (patchText (me_jnum menvEx) ps)) w = (Ret (), a)"
    using ex_calls(2) by blast
  have save: "fst (onBus menvEx (\<lambda>be c. ConfigSave be c ''/etc/sonic/config_db.json'') x) = Ret ()" for x
    using ex_calls(3) [of "''/etc/sonic/config_db.json''" x] by auto
  show ?thesis by (simp add: applyPatch_def Let_def w a save)
qed

lemma load_configEx:
  assumes "hostWorld s = hostWorld (configEx cp)" and "wfJson (JObj cp)"
  shows "\<exists>s'. loadCheckpoint [] s = (Ret (lastWins cp), s') \<and> w_faults (hostWorld s') = [] \<and>
           w_files (hostWorld s') = w_files (hostWorld s) \<and> mc_prefix (ms_client s') = mc_prefix (ms_client s) \<and>
           mc_workPath (ms_client s') = mc_workPath (ms_client s) \<and> mc_paths (ms_client s') = mc_paths (ms_client s)"
proof -
  have w: "hostWorld (configEx cp) =
      \<lparr>w_files = [(''/etc/sonic/config.cp.json'', Regular (marshal (JObj cp)))], w_db = [], w_faults = []\<rparr>"
    by (simp add: configEx_def hostWorld_def Let_def)
  have "NewJsonClient (CHECK_POINT_PATH @ ''/config.cp.json'') [] (hostWorld (configEx cp)) =
      (Some (lastWins cp), hostWorld (configEx cp))"
    using parse_marshal [OF assms(2)]
    by (simp add: NewJsonClient_def w osReadFile_def nextFault_def statNode_def CHECK_POINT_PATH_def del: marshal.simps)
  moreover have "w_faults (hostWorld (configEx cp)) = []" by (simp add: w)
  ultimately show ?thesis using assms(1) by (simp add: loadCheckpoint_def onWorld_def hostWorld_def)
qed

lemma SetIncrementalConfig_Ok:
  assumes "fst (checkpointNs menvEx s) = Ret None" and "hostWorld s = hostWorld (configEx cp)" and "wfJson (JObj cp)"
    and "mc_workPath (ms_client s) = GNMI_WORK_PATH"
    and "buildPatch menvEx (mc_prefix (ms_client s)) None dels reps upds (lastWins cp) = (Ret ps, d')"
  shows "fst (SetIncrementalConfig menvEx dels reps upds s) = Ret ()"
proof -
  from assms(1) obtain s1 where s1: "checkpointNs menvEx s = (Ret None, s1)" by (metis prod.collapse)
  note f1 = checkpointNs_frame [OF s1]
  obtain s2 where s2: "onBus menvEx (\<lambda>be c. CreateCheckPoint be c (CHECK_POINT_PATH @ ''/config'')) s1 = (Ret (), s2)"
    "hostWorld s2 = hostWorld s1" "ms_client s2 = ms_client s1" using ex_calls(1) by blast
  have "hostWorld s2 = hostWorld (configEx cp)" using assms(2) s2(2) f1 by simp
  from load_configEx [OF this assms(3)] obtain s3 where s3: "loadCheckpoint [] s2 = (Ret (lastWins cp), s3)"
    "w_faults (hostWorld s3) = []" "w_files (hostWorld s3) = w_files (hostWorld (configEx cp))"
    "mc_prefix (ms_client s3) = mc_prefix (ms_client s)" "mc_workPath (ms_client s3) = GNMI_WORK_PATH"
    using f1 s2 assms(2,4) by auto
  have "fst (applyPatch menvEx ps (s3\<lparr>ms_client := (ms_client s3)\<lparr>mc_jClient := Some d'\<rparr>\<rparr>)) = Ret ()"
    using s3(2,3,5) by (intro applyPatch_Ok)
      (simp add: osWriteFile_def hostWorld_def configEx_def nextFault_def GNMI_WORK_PATH_def numeral_eq_Suc Let_def)
  then have "fst (withCheckpoint menvEx None dels reps upds s2) = Ret ()"
    using s3(1,4) assms(5) by (simp add: withCheckpoint_def)
  then show ?thesis using s1 s2(1) by (auto simp: SetIncrementalConfig_def split: prod.splits)
qed

lemma busUp_ex: "busUp menvEx"
  by (simp add: busUp_def menvEx_def busOk_def)

lemma configEx_ns: "fst (checkpointNs menvEx s) = Ret None" if "ms_cfg s = ms_cfg (configEx vlanEx)"
proof -
  have "CheckDbMultiNamespace (me_swss menvEx) (ms_cfg (configEx vlanEx)) = (False, None, ms_cfg (configEx vlanEx))"
    by (simp add: CheckDbMultiNamespace_def query_def menvEx_def swssEx_def configEx_def mstateEx_def DbInit_def mapR_def Let_def)
  then show ?thesis by (simp add: checkpointNs_def that)
qed





text \<open>
  A deletion of the whole of CONFIG\_DB is dropped: a Set that deletes only the root sends no patch to the
  configuration updater, and it may well be answered with success.
\<close>

theorem config_root_delete_ignored:
  assumes "busUp e" and "mc_target (ms_client s) = ''CONFIG_DB''" and "mc_origin (ms_client s) = ''sonic-db''"
    and "pathElems p \<noteq> []" and "length (pathElems (mc_prefix (ms_client s)) @ pathElems p) = 2"
    and "Mixed_Set e [p] [] [] s = (r, s')"
  shows "sent s' \<in> {sent s, sent s @ [createCall], sent s @ [createCall, deleteCall]}"
proof -
  let ?s1 = "snd (onWorld (osRemove (mc_workPath (ms_client s) @ ''/config_db.json.tmp'')) s)"
  have f: "sent ?s1 = sent s" "ms_client ?s1 = ms_client s" using onWorld_frame by (metis prod.collapse)+
  have run: "SetIncrementalConfig e [p] [] [] ?s1 = (r, s')" using assms(6) Mixed_Set_root_delete [OF assms(2)] by simp
  have nil: "ps = []" if "buildPatch e (mc_prefix (ms_client s)) ns [p] [] [] d = (Ret ps, d')" for ns d ps d'
    using root_delete_no_patch [OF assms(4,5), of e ns d] that by auto
  have "mc_origin (ms_client ?s1) = ''sonic-db''" using assms(3) f by simp
  from SetIncrementalConfig_sent [OF assms(1) this run] show ?thesis unfolding f by (auto dest: nil)
qed

theorem config_root_delete_ignored_witness:
  "let (r, s') = Mixed_Set menvEx [pathN [''localhost'']] [] []
                   ((configEx vlanEx)\<lparr>ms_client := (ms_client (configEx vlanEx))\<lparr>mc_prefix := pathN [''CONFIG_DB'']\<rparr>\<rparr>)
   in r = Ret () \<and> length (sent s') \<le> 2"
proof -
  let ?s = "(configEx vlanEx)\<lparr>ms_client := (ms_client (configEx vlanEx))\<lparr>mc_prefix := pathN [''CONFIG_DB'']\<rparr>\<rparr>"
  let ?p = "pathN [''localhost'']"
  let ?s1 = "snd (onWorld (osRemove (mc_workPath (ms_client ?s) @ ''/config_db.json.tmp'')) ?s)"
  obtain r s' where run: "Mixed_Set menvEx [?p] [] [] ?s = (r, s')" by force
  have el: "pathElems ?p \<noteq> []" "length (pathElems (pathN [''CONFIG_DB'']) @ pathElems ?p) = 2"
    by (simp_all add: pathN_def pathElems_def)
  have c: "mc_target (ms_client ?s) = ''CONFIG_DB''" "mc_origin (ms_client ?s) = ''sonic-db''" "sent ?s = []"
    "mc_prefix (ms_client ?s) = pathN [''CONFIG_DB'']" "mc_workPath (ms_client ?s) = GNMI_WORK_PATH"
    by (simp_all add: configEx_def mstateEx_def mclientEx_def newClient_def sent_def Let_def)
  have "sent s' \<in> {sent ?s, sent ?s @ [createCall], sent ?s @ [createCall, deleteCall]}"
    by (rule config_root_delete_ignored [OF busUp_ex c(1,2) el(1) _ run]) (use c(4) el(2) in simp)
  moreover have "fst (SetIncrementalConfig menvEx [?p] [] [] ?s1) = Ret ()"
  proof (rule SetIncrementalConfig_Ok)
    show "fst (checkpointNs menvEx ?s1) = Ret None"
      by (rule configEx_ns) (simp add: onWorld_def split: prod.split)
    show "hostWorld ?s1 = hostWorld (configEx vlanEx)"
      by (simp add: c(5) onWorld_def osRemove_def hostWorld_def configEx_def nextFault_def GNMI_WORK_PATH_def Let_def)
    show "wfJson (JObj vlanEx)" by (simp add: vlanEx_def)
    show "mc_workPath (ms_client ?s1) = GNMI_WORK_PATH" using c(5) by (simp add: onWorld_def split: prod.split)
    have "mc_prefix (ms_client ?s1) = pathN [''CONFIG_DB'']" using c(4) by (simp add: onWorld_def split: prod.split)
    moreover have "fst (buildPatch menvEx (pathN [''CONFIG_DB'']) None [?p] [] [] (lastWins vlanEx)) = Ret []" by code_simp
    ultimately show "buildPatch menvEx (mc_prefix (ms_client ?s1)) None [?p] [] [] (lastWins vlanEx) =
        (Ret [], snd (buildPatch menvEx (pathN [''CONFIG_DB'']) None [?p] [] [] (lastWins vlanEx)))" by (metis prod.collapse)
  qed
  ultimately show ?thesis using run c(3) Mixed_Set_root_delete [OF c(1), of menvEx ?p] by auto
qed

text \<open>
  A Get on CONFIG\_DB gives the same answer for every namespace: what \<open>GetCheckPoint\<close> returns does not depend on
  the namespace of the database the request names.
\<close>

theorem checkpoint_ignores_namespace:
  assumes "mc_dbkey (ms_client s) = Some k"
  shows "fst (GetCheckPoint e (s\<lparr>ms_client := (ms_client s)\<lparr>mc_dbkey := Some k'\<rparr>\<rparr>)) = fst (GetCheckPoint e s)"
proof -
  let ?s = "s\<lparr>ms_client := (ms_client s)\<lparr>mc_dbkey := Some k'\<rparr>\<rparr>"
  have s: "mc_dbkey (ms_client ?s) = Some k'" "hostWorld ?s = hostWorld s" "ms_cfg ?s = ms_cfg s"
    "mc_prefix (ms_client ?s) = mc_prefix (ms_client s)" "mc_paths (ms_client ?s) = mc_paths (ms_client s)"
    by (simp_all add: hostWorld_def)
  show ?thesis unfolding GetCheckPoint_value [OF assms] GetCheckPoint_value [OF s(1)] s(2-5) ..
qed

theorem checkpoint_ignores_namespace_witness:
  "let s = configEx [(''asic0'', JObj vlanEx)];
       req = s\<lparr>ms_client := (ms_client s)\<lparr>mc_paths := [pathN [''V'']]\<rparr>\<rparr>;
       asic0 = \<lparr>key_netns = ''asic0'', key_container = []\<rparr>
   in fst (GetCheckPoint menvEx req) = Err (Plain ''Get'') \<and>
      fst (GetCheckPoint menvEx (req\<lparr>ms_client := (ms_client req)\<lparr>mc_dbkey := Some asic0\<rparr>\<rparr>)) = Err (Plain ''Get'')"
proof -
  let ?s = "configEx [(''asic0'', JObj vlanEx)]"
  let ?req = "?s\<lparr>ms_client := (ms_client ?s)\<lparr>mc_paths := [pathN [''V'']]\<rparr>\<rparr>"
  have "fst (GetCheckPoint menvEx ?req) = Err (Plain ''Get'')" by code_simp
  moreover have "mc_dbkey (ms_client ?req) = Some defaultKey"
    by (simp add: configEx_def mstateEx_def mclientEx_def Let_def)
  from checkpoint_ignores_namespace [OF this, of menvEx "\<lparr>key_netns = ''asic0'', key_container = []\<rparr>"]
  have "fst (GetCheckPoint menvEx (?req\<lparr>ms_client := (ms_client ?req)\<lparr>mc_dbkey := Some \<lparr>key_netns = ''asic0'', key_container = []\<rparr>\<rparr>\<rparr>)) =
      fst (GetCheckPoint menvEx ?req)" .
  ultimately show ?thesis unfolding Let_def by simp
qed

end
