(* ===== verification/Trie.thy ===== *)
theory Trie
  imports Gnmi_Prelude
begin

text \<open>
  The trie of paths with wildcards (\<^verbatim>\<open>sonic_data_client/trie.go\<close>) that finds the handler of a virtual path, of a path
  outside the databases and of a show command.

  A node has its children by name and the names of the children that end in a star. In the source the wildcard children
  are a second map with the same pointers, which \<open>NewChild\<close> and \<open>RemoveChild\<close> keep in step with the first. The
  parent of a node, which \<open>Remove\<close> climbs to, is the node one step before it on the path. The order in which \<open>range\<close>
  visits the wildcards is the argument \<open>rng\<close>.

  The reference for \<open>Find\<close> is \<open>matchPath\<close>, which works on the list of the registered paths and knows no nodes.
\<close>

section \<open>The trie\<close>

datatype 'm node =
  Node (isTerm: bool) (meta: "'m option") (children: "(string \<times> 'm node) list") (wildcards: "string list")

record 'm Trie =
  root :: "'m node"
  trie_size :: int

definition newNode :: "bool \<Rightarrow> 'm option \<Rightarrow> 'm node" where
  "newNode t m = Node t m [] []"

definition NewTrie :: "'m Trie" where
  "NewTrie = \<lparr>root = newNode False None, trie_size = 0\<rparr>"

fun setChild :: "string \<Rightarrow> 'm node \<Rightarrow> 'm node \<Rightarrow> 'm node" where
  "setChild k c (Node t m ch w) = Node t m (AList.update k c ch) w"

fun NewChild :: "string \<Rightarrow> 'm option \<Rightarrow> bool \<Rightarrow> 'm node \<Rightarrow> 'm node" where
  "NewChild v mt t (Node t0 m ch w) =
     Node t0 m (AList.update v (newNode t mt) ch) (if hasSuffix v ''*'' \<and> v \<notin> set w then w @ [v] else w)"

fun RemoveChild :: "string \<Rightarrow> 'm node \<Rightarrow> 'm node" where
  "RemoveChild r (Node t m ch w) = Node t m (AList.delete r ch) (filter (\<lambda>x. x \<noteq> r) w)"

fun addAt :: "string list \<Rightarrow> 'm \<Rightarrow> 'm node \<Rightarrow> 'm node" where
  "addAt [] mt n = NewChild [] (Some mt) True n"
| "addAt (k # ks) mt n =
     (let n1 = (case map_of (children n) k of Some _ \<Rightarrow> n | None \<Rightarrow> NewChild k None False n) in
      case map_of (children n1) k of
        None \<Rightarrow> n1
      | Some c \<Rightarrow> setChild k (addAt ks mt c) n1)"

definition Trie_Add :: "string list \<Rightarrow> 'm \<Rightarrow> 'm Trie \<Rightarrow> 'm Trie" where
  "Trie_Add keys mt t = t\<lparr>root := addAt keys mt (root t), trie_size := trie_size t + 1\<rparr>"

text \<open>A wildcard matches every name that starts with what is before the star.\<close>

definition keyCovers :: "string \<Rightarrow> string \<Rightarrow> bool" where
  "keyCovers w k \<longleftrightarrow> hasPrefix k (butlast w)"

text \<open>The name of the child that a key leads to: the key itself, or the first wildcard that keyCovers it.\<close>

definition step :: "(string list \<Rightarrow> string list) \<Rightarrow> 'm node \<Rightarrow> string \<Rightarrow> string option" where
  "step rng n k =
     (case map_of (children n) k of Some _ \<Rightarrow> Some k | None \<Rightarrow> find (\<lambda>w. keyCovers w k) (rng (wildcards n)))"

fun findNode :: "(string list \<Rightarrow> string list) \<Rightarrow> 'm node \<Rightarrow> string list \<Rightarrow> 'm node option" where
  "findNode rng n [] = Some n"
| "findNode rng n (k # ks) =
     (case step rng n k of
        None \<Rightarrow> None
      | Some v \<Rightarrow> (case map_of (children n) v of None \<Rightarrow> None | Some c \<Rightarrow> findNode rng c ks))"

definition Trie_Find :: "(string list \<Rightarrow> string list) \<Rightarrow> 'm Trie \<Rightarrow> string list \<Rightarrow> 'm option" where
  "Trie_Find rng t keys =
     (case findNode rng (root t) keys of
        None \<Rightarrow> None
      | Some n \<Rightarrow>
          (case map_of (children n) [] of
             None \<Rightarrow> None
           | Some c \<Rightarrow> if isTerm c then meta c else None))"

fun longestFrom :: "(string list \<Rightarrow> string list) \<Rightarrow> 'm Trie \<Rightarrow> string list \<Rightarrow> nat \<Rightarrow> 'm option" where
  "longestFrom rng t keys 0 = None"
| "longestFrom rng t keys (Suc i) =
     (if Suc i < 2 then None
      else (case Trie_Find rng t (take (Suc i) keys) of Some m \<Rightarrow> Some m | None \<Rightarrow> longestFrom rng t keys i))"

definition FindLongestPrefix :: "(string list \<Rightarrow> string list) \<Rightarrow> 'm Trie \<Rightarrow> string list \<Rightarrow> 'm option" where
  "FindLongestPrefix rng t keys = (if length keys < 2 then None else longestFrom rng t keys (length keys))"

text \<open>
  \<open>Remove\<close> finds the node of the keys and climbs: in the first node above it that has more than one child it removes
  the child with the name of the key at that place. The flag says that a child was removed. A path that is not there
  is a nil pointer and panics (\<^const>\<open>None\<close>).
\<close>

fun climb :: "(string list \<Rightarrow> string list) \<Rightarrow> string list \<Rightarrow> 'm node \<Rightarrow> ('m node \<times> bool) option" where
  "climb rng [] n = Some (n, False)"
| "climb rng (k # ks) n =
     (case step rng n k of
        None \<Rightarrow> None
      | Some v \<Rightarrow>
          (case map_of (children n) v of
             None \<Rightarrow> None
           | Some c \<Rightarrow>
               (case climb rng ks c of
                  None \<Rightarrow> None
                | Some (c', True) \<Rightarrow> Some (setChild v c' n, True)
                | Some (c', False) \<Rightarrow>
                    if length (children n) > 1 then Some (RemoveChild k (setChild v c' n), True)
                    else Some (setChild v c' n, False))))"

definition Trie_Remove :: "(string list \<Rightarrow> string list) \<Rightarrow> string list \<Rightarrow> 'm Trie \<Rightarrow> 'm Trie option" where
  "Trie_Remove rng keys t =
     map_option (\<lambda>(n, _). t\<lparr>root := n, trie_size := trie_size t - 1\<rparr>) (climb rng keys (root t))"

section \<open>The reference: a list of paths\<close>

text \<open>
  The registered paths that start with a name, without it; the names that start registered paths, in the order of
  their first registration.
\<close>

definition below :: "string \<Rightarrow> (string list \<times> 'm) list \<Rightarrow> (string list \<times> 'm) list" where
  "below k es = map (\<lambda>(p, m). (tl p, m)) (filter (\<lambda>(p, m). p \<noteq> [] \<and> hd p = k) es)"

definition heads :: "(string list \<times> 'm) list \<Rightarrow> string list" where
  "heads es = rev (remdups (rev (map (hd \<circ> fst) (filter (\<lambda>(p, m). p \<noteq> []) es))))"

definition ending :: "(string list \<times> 'm) list \<Rightarrow> 'm option" where
  "ending es = map_of (rev es) []"

definition pick :: "(string list \<Rightarrow> string list) \<Rightarrow> (string list \<times> 'm) list \<Rightarrow> string \<Rightarrow> string option" where
  "pick rng es k =
     (if k \<in> set (heads es) then Some k
      else find (\<lambda>w. keyCovers w k) (rng (filter (\<lambda>w. hasSuffix w ''*'') (heads es))))"

fun matchPath :: "(string list \<Rightarrow> string list) \<Rightarrow> (string list \<times> 'm) list \<Rightarrow> string list \<Rightarrow> 'm option" where
  "matchPath rng es [] = ending es"
| "matchPath rng es (k # ks) =
     (case pick rng es k of None \<Rightarrow> None | Some v \<Rightarrow> matchPath rng (below v es) ks)"

definition populate :: "(string list \<times> 'm) list \<Rightarrow> 'm Trie" where
  "populate es = foldl (\<lambda>t (p, m). Trie_Add p m t) NewTrie es"

section \<open>Lemmas\<close>

text \<open>A node stands for a list of registered paths.\<close>

inductive stands :: "'m node \<Rightarrow> (string list \<times> 'm) list \<Rightarrow> bool" where
  "stands (Node t m ch w) es"
  if "\<And>k. k \<noteq> [] \<Longrightarrow> map_of ch k \<noteq> None \<longleftrightarrow> k \<in> set (heads es)"
    and "\<And>k c. k \<noteq> [] \<Longrightarrow> map_of ch k = Some c \<Longrightarrow> stands c (below k es)"
    and "w = filter (\<lambda>w. hasSuffix w ''*'') (heads es)"
    and "map_option (\<lambda>c. (isTerm c, meta c)) (map_of ch []) = map_option (\<lambda>m. (True, Some m)) (ending es)"

inductive_simps stands_Node: "stands (Node t m ch w) es"

lemma heads_snoc: "heads (es @ [(p, m)]) = (if p = [] \<or> hd p \<in> set (heads es) then heads es else heads es @ [hd p])"
  by (auto simp: heads_def)

lemma below_snoc: "below k (es @ [(p, m)]) = below k es @ (if p \<noteq> [] \<and> hd p = k then [(tl p, m)] else [])"
  by (auto simp: below_def)

lemma ending_snoc: "ending (es @ [(p, m)]) = (if p = [] then Some m else ending es)"
  by (simp add: ending_def)

lemma below_not_head: "k \<notin> set (heads es) \<Longrightarrow> below k es = []"
  by (force simp: heads_def below_def filter_empty_conv)

lemma hasSuffix_star: "hasSuffix w ''*'' \<Longrightarrow> w \<noteq> []"
  by (auto simp: hasSuffix_def)

lemma stands_new: "stands (newNode t m) []"
  unfolding newNode_def by (rule stands.intros) (simp_all add: heads_def ending_def)

lemma stands_add:
  assumes "stands n es" and "[] \<notin> set p"
  shows "stands (addAt p m n) (es @ [(p, m)])"
  using assms
proof (induction p arbitrary: n es)
  case Nil
  obtain t m0 ch w where n: "n = Node t m0 ch w" by (cases n)
  from Nil(1) [unfolded n] show ?case
    unfolding n addAt.simps NewChild.simps stands_Node
    by (simp add: newNode_def update_conv' heads_snoc below_snoc ending_snoc hasSuffix_def)
next
  case (Cons k ks)
  obtain t m0 ch w where n: "n = Node t m0 ch w" by (cases n)
  from Cons.prems have k: "k \<noteq> []" "[] \<notin> set ks" by auto
  from Cons.prems(1) [unfolded n] have st:
    "\<And>k. k \<noteq> [] \<Longrightarrow> map_of ch k \<noteq> None \<longleftrightarrow> k \<in> set (heads es)"
    "\<And>k c. k \<noteq> [] \<Longrightarrow> map_of ch k = Some c \<Longrightarrow> stands c (below k es)"
    "w = filter (\<lambda>w. hasSuffix w ''*'') (heads es)"
    "map_option (\<lambda>c. (isTerm c, meta c)) (map_of ch []) = map_option (\<lambda>m. (True, Some m)) (ending es)"
    unfolding stands_Node by blast+
  show ?case
  proof (cases "map_of ch k")
    case None
    then have nh: "k \<notin> set (heads es)" using st(1) [OF k(1)] by simp
    have "stands (addAt ks m (newNode False None)) (below k es @ [(ks, m)])"
      using Cons.IH [OF stands_new k(2), of False None] below_not_head [OF nh] by simp
    then show ?thesis
      using None nh st k unfolding n
      by (auto simp: stands_Node update_conv' heads_snoc below_snoc ending_snoc)
  next
    case (Some c)
    then have h: "k \<in> set (heads es)" using st(1) [OF k(1)] by simp
    have "stands (addAt ks m c) (below k es @ [(ks, m)])" by (rule Cons.IH) (use st(2) Some k in auto)
    then show ?thesis
      using Some h st k unfolding n
      by (auto simp: stands_Node update_conv' heads_snoc below_snoc ending_snoc)
  qed
qed

lemma stands_populate: "\<forall>(p, m) \<in> set es. [] \<notin> set p \<Longrightarrow> stands (root (populate es)) es"
proof (induction es rule: rev_induct)
  case Nil
  then show ?case by (simp add: populate_def NewTrie_def stands_new)
next
  case (snoc e es)
  obtain p m where e: "e = (p, m)" by force
  have "stands (root (populate es)) es" "[] \<notin> set p" using snoc e by auto
  from stands_add [OF this] show ?case by (simp add: e populate_def Trie_Add_def)
qed

lemma range_order_set: "range_order rng \<Longrightarrow> set (rng xs) = set xs"
  by (simp add: range_order_def)

lemma find_in: "find P xs = Some x \<Longrightarrow> x \<in> set xs \<and> P x"
  by (auto simp: find_Some_iff)

lemma stands_find:
  assumes "stands n es" and "[] \<notin> set keys" and "range_order rng"
  shows "(case findNode rng n keys of
            None \<Rightarrow> None
          | Some n \<Rightarrow> (case map_of (children n) [] of None \<Rightarrow> None | Some c \<Rightarrow> if isTerm c then meta c else None)) =
         matchPath rng es keys"
  using assms(1,2)
proof (induction keys arbitrary: n es)
  case Nil
  obtain t m0 ch w where n: "n = Node t m0 ch w" by (cases n)
  from Nil(1) [unfolded n] show ?case
    unfolding stands_Node by (cases "ending es") (auto simp: n split: option.splits)
next
  case (Cons k ks)
  obtain t m0 ch w where n: "n = Node t m0 ch w" by (cases n)
  from Cons.prems have k: "k \<noteq> []" "[] \<notin> set ks" by auto
  from Cons.prems(1) [unfolded n] have st:
    "\<And>k. k \<noteq> [] \<Longrightarrow> map_of ch k \<noteq> None \<longleftrightarrow> k \<in> set (heads es)"
    "\<And>k c. k \<noteq> [] \<Longrightarrow> map_of ch k = Some c \<Longrightarrow> stands c (below k es)"
    "w = filter (\<lambda>w. hasSuffix w ''*'') (heads es)"
    unfolding stands_Node by blast+
  have same: "step rng n k = pick rng es k"
    using st(1) [OF k(1)] by (auto simp: step_def pick_def n st(3) split: option.splits)
  show ?case
  proof (cases "pick rng es k")
    case None
    then show ?thesis by (simp add: same)
  next
    case (Some v)
    have v: "v \<in> set (heads es) \<and> v \<noteq> []"
      using Some k(1)
      by (auto simp: pick_def range_order_set [OF assms(3)] dest!: find_in dest: hasSuffix_star split: if_splits)
    then obtain c where c: "map_of ch v = Some c" using st(1) by auto
    with Cons.IH [OF st(2) k(2), of v c] v Some same show ?thesis by (simp add: n)
  qed
qed

text \<open>The longest prefix of at least two names that is registered.\<close>

lemma longestFrom_Some:
  "longestFrom rng t keys n = Some m \<longleftrightarrow>
     (\<exists>i. 2 \<le> i \<and> i \<le> n \<and> Trie_Find rng t (take i keys) = Some m \<and>
          (\<forall>j. i < j \<longrightarrow> j \<le> n \<longrightarrow> Trie_Find rng t (take j keys) = None))"
proof (induction n)
  case (Suc n)
  show ?case
  proof (cases "Suc n < 2")
    case False
    show ?thesis
    proof (cases "Trie_Find rng t (take (Suc n) keys)")
      case None
      then have "i \<le> n" if "i \<le> Suc n" "Trie_Find rng t (take i keys) = Some m" for i
        using that by (cases "i = Suc n") auto
      with None False show ?thesis by (auto simp: Suc.IH le_Suc_eq)
    next
      case (Some a)
      have "i = Suc n" if "i \<le> Suc n" "\<forall>j. i < j \<longrightarrow> j \<le> Suc n \<longrightarrow> Trie_Find rng t (take j keys) = None" for i
        using that Some by (cases "i = Suc n") auto
      moreover have "longestFrom rng t keys (Suc n) = Some a" using Some False by simp
      moreover have "2 \<le> Suc n" using False by simp
      ultimately show ?thesis using Some by (metis less_le_not_le option.inject order_refl)
    qed
  qed auto
qed simp

lemma FindLongestPrefix_Some:
  "FindLongestPrefix rng t keys = Some m \<longleftrightarrow>
     (\<exists>i. 2 \<le> i \<and> i \<le> length keys \<and> Trie_Find rng t (take i keys) = Some m \<and>
          (\<forall>j. i < j \<longrightarrow> j \<le> length keys \<longrightarrow> Trie_Find rng t (take j keys) = None))"
  by (auto simp: FindLongestPrefix_def longestFrom_Some)

text \<open>\<open>Remove\<close> of the only registered path leaves the trie as it is, apart from its size.\<close>

lemma climb_chain: "climb rng p (addAt p m (newNode t mt)) = Some (addAt p m (newNode t mt), False)"
proof (induction p arbitrary: t mt)
  case (Cons k ks)
  then show ?case by (simp add: newNode_def [of t] step_def)
qed simp

lemma remove_only_path:
  assumes "range_order rng" and "[] \<notin> set p"
  shows "\<exists>t. Trie_Remove rng p (populate [(p, m)]) = Some t \<and> trie_size t = 0 \<and> Trie_Find rng t p = Some m"
proof -
  let ?t = "(populate [(p, m)])\<lparr>trie_size := 0\<rparr>"
  have "Trie_Remove rng p (populate [(p, m)]) = Some ?t"
    by (simp add: Trie_Remove_def populate_def Trie_Add_def NewTrie_def climb_chain)
  moreover have "Trie_Find rng ?t p = matchPath rng [(p, m)] p"
    using stands_find [OF stands_populate assms(2,1), of "[(p, m)]"] assms(2) by (simp add: Trie_Find_def)
  moreover have "matchPath rng [(p, m)] p = Some m"
    by (induction p) (auto simp: ending_def pick_def heads_def below_def)
  ultimately show ?thesis by simp
qed

section \<open>Properties\<close>

text \<open>
  \<open>Find\<close> answers as the list of registered paths does: name by name, a registered name is taken before a wildcard,
  among wildcards the first one that Go's \<open>range\<close> visits, without ever going back; the value is the one that was
  registered last for the path that is left. This holds for every order of \<open>range\<close>, for paths without empty names.
\<close>

theorem trie_refines_paths:
  assumes "range_order rng" and "\<forall>(p, m) \<in> set es. [] \<notin> set p" and "[] \<notin> set keys"
  shows "Trie_Find rng (populate es) keys = matchPath rng es keys"
  unfolding Trie_Find_def by (rule stands_find [OF stands_populate [OF assms(2)] assms(3,1)])

theorem trie_refines_paths_witness:
  "Trie_Find id (populate [([''C'', ''E*''], 1 :: nat), ([''C'', ''E*'', ''Q''], 2), ([''C'', ''E*'', ''*''], 3)])
     [''C'', ''E0'', ''x''] = Some 3"
proof -
  let ?es = "[([''C'', ''E*''], 1 :: nat), ([''C'', ''E*'', ''Q''], 2), ([''C'', ''E*'', ''*''], 3)]"
  have "range_order id" by (simp add: range_order_def)
  then have "Trie_Find id (populate ?es) [''C'', ''E0'', ''x''] = matchPath id ?es [''C'', ''E0'', ''x'']"
    by (rule trie_refines_paths) auto
  also have "\<dots> = Some 3" by code_simp
  finally show ?thesis .
qed


end
