(* ===== verification/Virtual_Db.thy ===== *)
theory Virtual_Db
  imports Data_Client Trie
begin

text \<open>
  Virtual paths of COUNTERS\_DB (\<^verbatim>\<open>sonic_data_client/virtual_db.go\<close>): the maps from ports, queues, priority groups, SIDs
  and ACL rules to the object identifiers under which the counters are stored, how they are read once, and the
  functions that turn a virtual path into tables. Redis is a parameter: the fields of \<open>venv\<close> say what a read returns
  in a state of redis. \<open>ve_rng\<close> is the order in which \<open>range\<close> visits the keys of a map.

  The locks only order the initialisations and the reads and are left out. An assignment of a nil map is one of an empty
  map. Of an error only the constant part of its text is kept.
\<close>

section \<open>Environment and state\<close>

datatype hget = HVal string | HNil | HErr string

record ('c, 'r) venv =
  ve_swss :: "'c swss"
  ve_Ping :: "redis_client \<Rightarrow> 'r \<Rightarrow> string option"
  ve_Keys :: "redis_client \<Rightarrow> string \<Rightarrow> 'r \<Rightarrow> string + string list"
  ve_Exists :: "redis_client \<Rightarrow> string \<Rightarrow> 'r \<Rightarrow> string + bool"
  ve_HExists :: "redis_client \<Rightarrow> string \<Rightarrow> string \<Rightarrow> 'r \<Rightarrow> string + bool"
  ve_HGet :: "redis_client \<Rightarrow> string \<Rightarrow> string \<Rightarrow> 'r \<Rightarrow> hget"
  ve_HGetAll :: "redis_client \<Rightarrow> string \<Rightarrow> 'r \<Rightarrow> string + string gomap"
  ve_rng :: "string list \<Rightarrow> string list"
  ve_unitTest :: bool

record vmaps =
  countersPortNameMap :: "string gomap"
  countersQueueNameMap :: "string gomap"
  countersSidMap :: "string gomap"
  countersAclRuleMap :: "string gomap"
  countersPGNameMap :: "string gomap gomap"
  alias2nameMap :: "string gomap"
  name2aliasMap :: "string gomap"
  port2namespaceMap :: "string gomap"
  countersPfcwdNameMap :: "string gomap gomap"
  countersFabricPortNameMap :: "string gomap"
  countersDebugNameSwitchStatMap :: "string gomap"
  portOnce :: bool
  queueOnce :: bool
  pgOnce :: bool
  sidOnce :: bool
  aclOnce :: bool
  aliasOnce :: bool
  pfcwdOnce :: bool
  fabricOnce :: bool

record 'c vstate =
  vs_cfg :: "'c dbconfig"
  vs_maps :: vmaps
  Target2RedisDb :: "redis_client gomap gomap"

definition noMaps :: vmaps where
  "noMaps =
     \<lparr>countersPortNameMap = [], countersQueueNameMap = [], countersSidMap = [], countersAclRuleMap = [],
      countersPGNameMap = [], alias2nameMap = [], name2aliasMap = [], port2namespaceMap = [],
      countersPfcwdNameMap = [], countersFabricPortNameMap = [], countersDebugNameSwitchStatMap = [],
      portOnce = False, queueOnce = False, pgOnce = False, sidOnce = False, aclOnce = False, aliasOnce = False,
      pfcwdOnce = False, fabricOnce = False\<rparr>"

text \<open>The entries of a map in the order of \<open>range\<close>.\<close>

definition rangeOver :: "(string list \<Rightarrow> string list) \<Rightarrow> 'v gomap \<Rightarrow> (string \<times> 'v) list" where
  "rangeOver rng m = List.map_filter (\<lambda>k. map_option (Pair k) (map_of m k)) (rng (map fst m))"

text \<open>Running a function on every element of a list; the results in order, or the first error.\<close>

fun mapS :: "('a \<Rightarrow> 's \<Rightarrow> 'b go \<times> 's) \<Rightarrow> 'a list \<Rightarrow> 's \<Rightarrow> 'b list go \<times> 's" where
  "mapS f [] s = (Ret [], s)"
| "mapS f (x # xs) s = bindG (f x s) (\<lambda>y s1. bindG (mapS f xs s1) (\<lambda>ys s2. (Ret (y # ys), s2)))"

text \<open>\<open>strings.Split(s, sep)\<close>; an empty separator splits after every byte.\<close>

function splitOn :: "string \<Rightarrow> string \<Rightarrow> string list" where
  "splitOn sep [] = [[]]"
| "splitOn sep (c # s) =
     (if sep \<noteq> [] \<and> hasPrefix (c # s) sep then [] # splitOn sep (drop (length sep) (c # s))
      else (case splitOn sep s of [] \<Rightarrow> [[c]] | f # fs \<Rightarrow> (c # f) # fs))"
  by pat_completeness auto
termination
  by (relation "measure (\<lambda>(sep, s). length s)") auto

definition splitStr :: "string \<Rightarrow> string \<Rightarrow> string list" where
  "splitStr s sep = (if sep = [] then map (\<lambda>c. [c]) s else splitOn sep s)"

section \<open>Redis clients and separators\<close>

definition Target_value :: "int gomap" where
  "Target_value =
     [(''APPL_DB'', 0), (''ASIC_DB'', 1), (''COUNTERS_DB'', 2), (''CONFIG_DB'', 4), (''PFC_WD_DB'', 5),
      (''FLEX_COUNTER_DB'', 5), (''STATE_DB'', 6), (''CHASSIS_STATE_DB'', 13), (''OTHERS'', 100)]"

definition setVCfg :: "'c dbconfig \<Rightarrow> 'c vstate \<Rightarrow> 'c vstate" where
  "setVCfg cfg s = s\<lparr>vs_cfg := cfg\<rparr>"

definition GetTableKeySeparator :: "('c, 'r) venv \<Rightarrow> string \<Rightarrow> string \<Rightarrow> 'c vstate \<Rightarrow> (string \<times> string option) \<times> 'c vstate" where
  "GetTableKeySeparator e target ns s =
     (if target \<notin> set (map fst Target_value) then (([], Some ''not a valid path target''), s)
      else (case GetDbSeparator (ve_swss e) target ns (vs_cfg s) of (sep, err, cfg) \<Rightarrow> ((sep, err), setVCfg cfg s)))"

text \<open>Most callers ignore the error.\<close>

definition separatorOf :: "('c, 'r) venv \<Rightarrow> string \<Rightarrow> string \<Rightarrow> 'c vstate \<Rightarrow> string \<times> 'c vstate" where
  "separatorOf e target ns s = (case GetTableKeySeparator e target ns s of ((sep, _), s1) \<Rightarrow> (sep, s1))"

definition redisDb :: "'c vstate \<Rightarrow> string \<Rightarrow> string \<Rightarrow> redis_client option" where
  "redisDb s ns db = Option.bind (map_of (Target2RedisDb s) ns) (\<lambda>m. map_of m db)"

definition GetRedisClientsForDb :: "('c, 'r) venv \<Rightarrow> string \<Rightarrow> 'c vstate \<Rightarrow> redis_client gomap go \<times> 'c vstate" where
  "GetRedisClientsForDb e target s =
     (let clients = (\<lambda>nss. foldl (\<lambda>m ns. case redisDb s ns target of None \<Rightarrow> m | Some c \<Rightarrow> AList.update ns c m) [] nss) in
      case CheckDbMultiNamespace (ve_swss e) (vs_cfg s) of
        (_, Some err, cfg) \<Rightarrow> (Err (Plain err), setVCfg cfg s)
      | (False, None, cfg) \<Rightarrow> (Ret (clients [GetDbDefaultNamespace]), setVCfg cfg s)
      | (True, None, cfg) \<Rightarrow>
          (case GetDbNonDefaultNamespaces (ve_swss e) cfg of
             (_, Some err, cfg1) \<Rightarrow> (Err (Plain err), setVCfg cfg1 s)
           | (ns_list, None, cfg1) \<Rightarrow> (Ret (clients ns_list), setVCfg cfg1 s)))"

section \<open>Reading the maps\<close>

definition addmap :: "(string list \<Rightarrow> string list) \<Rightarrow> 'v gomap \<Rightarrow> 'v gomap \<Rightarrow> 'v gomap" where
  "addmap rng a b = foldl (\<lambda>m (k, v). AList.update k v m) a (rangeOver rng b)"

text \<open>One table of COUNTERS\_DB from every namespace; \<open>rename\<close> makes its keys unique.\<close>

fun readTables ::
  "('c, 'r) venv \<Rightarrow> string \<Rightarrow> (string \<Rightarrow> string \<Rightarrow> string) \<Rightarrow> 'r \<Rightarrow> (string \<times> redis_client) list \<Rightarrow> string gomap \<Rightarrow> string gomap go" where
  "readTables e table rename r [] m = Ret m"
| "readTables e table rename r ((ns, c) # cs) m =
     (case ve_HGetAll e c table r of
        Inl err \<Rightarrow> Err (Plain err)
      | Inr fv \<Rightarrow>
          readTables e table rename r cs
            (addmap (ve_rng e) m (foldl (\<lambda>a (k, v). AList.update (rename ns k) v a) [] (rangeOver (ve_rng e) fv))))"

definition countersMap ::
  "('c, 'r) venv \<Rightarrow> string \<Rightarrow> (string \<Rightarrow> string \<Rightarrow> string) \<Rightarrow> 'r \<Rightarrow> 'c vstate \<Rightarrow> string gomap go \<times> 'c vstate" where
  "countersMap e table rename r s =
     bindG (GetRedisClientsForDb e ''COUNTERS_DB'' s)
       (\<lambda>clients s1. (readTables e table rename r (rangeOver (ve_rng e) clients) [], s1))"

definition GetCountersMap :: "('c, 'r) venv \<Rightarrow> string \<Rightarrow> 'r \<Rightarrow> 'c vstate \<Rightarrow> string gomap go \<times> 'c vstate" where
  "GetCountersMap e table = countersMap e table (\<lambda>ns k. k)"

definition withNamespace :: "string \<Rightarrow> string \<Rightarrow> string" where
  "withNamespace ns k = k @ (if ns \<noteq> [] then CHR ''-'' # ns else [])"

definition GetFabricCountersMap :: "('c, 'r) venv \<Rightarrow> string \<Rightarrow> 'r \<Rightarrow> 'c vstate \<Rightarrow> string gomap go \<times> 'c vstate" where
  "GetFabricCountersMap e table = countersMap e table withNamespace"

definition getSwitchStatMap :: "('c, 'r) venv \<Rightarrow> string \<Rightarrow> 'r \<Rightarrow> 'c vstate \<Rightarrow> string gomap go \<times> 'c vstate" where
  "getSwitchStatMap e table = countersMap e table withNamespace"

text \<open>The three alias maps. A key shorter than \<^verbatim>\<open>PORT|\<close> is a slice out of range.\<close>

type_synonym aliases = "string gomap \<times> string gomap \<times> string gomap"

fun aliasKeys :: "('c, 'r) venv \<Rightarrow> 'r \<Rightarrow> string \<Rightarrow> redis_client \<Rightarrow> string list \<Rightarrow> aliases \<Rightarrow> aliases go" where
  "aliasKeys e r ns c [] m = Ret m"
| "aliasKeys e r ns c (key # keys) (a2n, n2a, p2n) =
     (case ve_HGet e c key ''alias'' r of
        HVal alias \<Rightarrow>
          if length key < 5 then Crash
          else
            aliasKeys e r ns c keys
              (AList.update alias (drop 5 key) a2n, AList.update (drop 5 key) alias n2a, AList.update (drop 5 key) ns p2n)
      | HNil \<Rightarrow> Err (Plain ''redis: nil'')
      | HErr err \<Rightarrow> Err (Plain err))"

fun aliasTables ::
  "('c, 'r) venv \<Rightarrow> 'r \<Rightarrow> (string \<times> redis_client) list \<Rightarrow> aliases \<Rightarrow> 'c vstate \<Rightarrow> aliases go \<times> 'c vstate" where
  "aliasTables e r [] m s = (Ret m, s)"
| "aliasTables e r ((ns, c) # cs) m s =
     (case separatorOf e ''CONFIG_DB'' ns s of
        (sep, s1) \<Rightarrow>
          (case ve_Ping e c r of
             Some err \<Rightarrow> (Err (Plain err), s1)
           | None \<Rightarrow>
               (case ve_Keys e c (''PORT'' @ sep @ ''*'') r of
                  Inl err \<Rightarrow> (Err (Plain err), s1)
                | Inr keys \<Rightarrow> bindG (aliasKeys e r ns c keys m, s1) (\<lambda>m1. aliasTables e r cs m1))))"

definition GetAliasMap :: "('c, 'r) venv \<Rightarrow> 'r \<Rightarrow> 'c vstate \<Rightarrow> aliases go \<times> 'c vstate" where
  "GetAliasMap e r s =
     bindG (GetRedisClientsForDb e ''CONFIG_DB'' s)
       (\<lambda>clients. aliasTables e r (rangeOver (ve_rng e) clients) ([], [], []))"

text \<open>Queues with the PFC watchdog; ports whose table entry is for all ports are left out.\<close>

definition isGlobal :: "string \<Rightarrow> bool" where
  "isGlobal key \<longleftrightarrow> contains key ''GLOBAL'' \<or> contains key ''global''"

fun pfcwdPorts :: "nat \<Rightarrow> string list \<Rightarrow> string gomap gomap \<Rightarrow> string gomap gomap go" where
  "pfcwdPorts n [] m = Ret m"
| "pfcwdPorts n (key # keys) m =
     (if isGlobal key then pfcwdPorts n keys m
      else if length key < n then Crash
      else pfcwdPorts n keys (AList.update (drop n key) [] m))"

fun portQueues :: "string gomap \<Rightarrow> string \<Rightarrow> string \<Rightarrow> string list \<Rightarrow> string gomap \<Rightarrow> string gomap go" where
  "portQueues queueMap sep port [] qs = Ret qs"
| "portQueues queueMap sep port (i # is) qs =
     (case map_of queueMap (port @ sep @ i) of
        None \<Rightarrow> Err (Plain ''not exists in COUNTERS_QUEUE_NAME_MAP'')
      | Some oid \<Rightarrow> portQueues queueMap sep port is (AList.update (port @ sep @ i) oid qs))"

fun allPortQueues ::
  "string gomap \<Rightarrow> string \<Rightarrow> string list \<Rightarrow> (string \<times> string gomap) list \<Rightarrow> string gomap gomap \<Rightarrow> string gomap gomap go" where
  "allPortQueues queueMap sep is [] m = Ret m"
| "allPortQueues queueMap sep is ((port, qs) # ps) m =
     (case portQueues queueMap sep port is qs of
        Ret qs1 \<Rightarrow> allPortQueues queueMap sep is ps (AList.update port qs1 m)
      | Err err \<Rightarrow> Err err
      | Crash \<Rightarrow> Crash)"

definition qosKey :: "string list \<Rightarrow> string" where
  "qosKey keys = (case filter (\<lambda>k. \<not> isGlobal k) keys of [] \<Rightarrow> [] | k # _ \<Rightarrow> k)"

definition hgetG :: "hget \<Rightarrow> string go" where
  "hgetG h = (case h of HVal v \<Rightarrow> Ret v | HNil \<Rightarrow> Err (Plain ''redis: nil'') | HErr err \<Rightarrow> Err (Plain err))"

definition sumG :: "string + 'a \<Rightarrow> 'a go" where
  "sumG x = (case x of Inl err \<Rightarrow> Err (Plain err) | Inr v \<Rightarrow> Ret v)"

text \<open>
  One namespace. \<^const>\<open>None\<close> inside \<^const>\<open>Ret\<close>: the function returns nil maps without an error, whatever other
  namespaces have.
\<close>

definition pfcwdNamespace ::
  "('c, 'r) venv \<Rightarrow> 'r \<Rightarrow> string \<Rightarrow> redis_client \<Rightarrow> string gomap gomap \<Rightarrow> 'c vstate \<Rightarrow> string gomap gomap option go \<times> 'c vstate" where
  "pfcwdNamespace e r ns c m s =
     (case separatorOf e ''CONFIG_DB'' ns s of
        (sep, s1) \<Rightarrow>
          bindG (case ve_Ping e c r of Some err \<Rightarrow> Err (Plain err) | None \<Rightarrow> Ret (), s1) (\<lambda>_ s1.
          bindG (sumG (ve_Keys e c (''PFC_WD'' @ sep @ ''*'') r), s1) (\<lambda>keys s1.
          if keys = [] then (Ret None, s1)
          else
            bindG (pfcwdPorts (length (''PFC_WD'' @ sep)) keys m, s1) (\<lambda>m1 s1.
            bindG (sumG (ve_Keys e c ''PORT_QOS_MAP*'' r), s1) (\<lambda>qos s1.
            if qos = [] then (Ret None, s1)
            else
              bindG (hgetG (ve_HGet e c (qosKey qos) ''pfc_enable'' r), s1) (\<lambda>priorities s1.
              bindG (sumG (ve_HGetAll e c (''MAP_PFC_PRIORITY_TO_QUEUE'' @ sep @ ''AZURE'') r), s1) (\<lambda>toQueue s1.
              if countersQueueNameMap (vs_maps s1) = [] then (Ret None, s1)
              else
                (case separatorOf e ''COUNTERS_DB'' ns s1 of
                   (qsep, s2) \<Rightarrow>
                     bindG (allPortQueues (countersQueueNameMap (vs_maps s2)) qsep
                              (List.map_filter (map_of toQueue) (split CHR '','' priorities)) (rangeOver (ve_rng e) m1) m1, s2)
                       (\<lambda>m2 s2. (Ret (Some m2), s2))))))))))"

fun pfcwdNamespaces ::
  "('c, 'r) venv \<Rightarrow> 'r \<Rightarrow> (string \<times> redis_client) list \<Rightarrow> string gomap gomap \<Rightarrow> 'c vstate \<Rightarrow> string gomap gomap go \<times> 'c vstate" where
  "pfcwdNamespaces e r [] m s = (Ret m, s)"
| "pfcwdNamespaces e r ((ns, c) # cs) m s =
     bindG (pfcwdNamespace e r ns c m s)
       (\<lambda>res s1. case res of None \<Rightarrow> (Ret [], s1) | Some m1 \<Rightarrow> pfcwdNamespaces e r cs m1 s1)"

definition GetPfcwdMap :: "('c, 'r) venv \<Rightarrow> 'r \<Rightarrow> 'c vstate \<Rightarrow> string gomap gomap go \<times> 'c vstate" where
  "GetPfcwdMap e r s =
     bindG (GetRedisClientsForDb e ''CONFIG_DB'' s)
       (\<lambda>clients. pfcwdNamespaces e r (rangeOver (ve_rng e) clients) [])"

section \<open>Initialising the maps\<close>

definition setMaps :: "(vmaps \<Rightarrow> vmaps) \<Rightarrow> 'c vstate \<Rightarrow> 'c vstate" where
  "setMaps f s = s\<lparr>vs_maps := f (vs_maps s)\<rparr>"

text \<open>
  \<open>sync.Once\<close>: the first call reads the map and reports an error; every later call returns at once, also when the
  first one has failed. A failed read leaves a nil map. A panic ends the process.
\<close>

definition initOnce ::
  "bool \<Rightarrow> ('a \<Rightarrow> vmaps \<Rightarrow> vmaps) \<Rightarrow> 'a \<Rightarrow> ('c vstate \<Rightarrow> 'a go \<times> 'c vstate) \<Rightarrow> 'c vstate \<Rightarrow> unit go \<times> 'c vstate" where
  "initOnce fired assign nil read s =
     (if fired then (Ret (), s)
      else
        (case read s of
           (Ret m, s1) \<Rightarrow> (Ret (), setMaps (assign m) s1)
         | (Err err, s1) \<Rightarrow> (Err err, setMaps (assign nil) s1)
         | (Crash, s1) \<Rightarrow> (Crash, s1)))"

definition initCountersPortNameMap :: "('c, 'r) venv \<Rightarrow> 'r \<Rightarrow> 'c vstate \<Rightarrow> unit go \<times> 'c vstate" where
  "initCountersPortNameMap e r s =
     initOnce (portOnce (vs_maps s)) (\<lambda>m v. v\<lparr>countersPortNameMap := m, portOnce := True\<rparr>) []
       (GetCountersMap e ''COUNTERS_PORT_NAME_MAP'' r) s"

definition initCountersQueueNameMap :: "('c, 'r) venv \<Rightarrow> 'r \<Rightarrow> 'c vstate \<Rightarrow> unit go \<times> 'c vstate" where
  "initCountersQueueNameMap e r s =
     initOnce (queueOnce (vs_maps s)) (\<lambda>m v. v\<lparr>countersQueueNameMap := m, queueOnce := True\<rparr>) []
       (GetCountersMap e ''COUNTERS_QUEUE_NAME_MAP'' r) s"

definition initCountersSidMap :: "('c, 'r) venv \<Rightarrow> 'r \<Rightarrow> 'c vstate \<Rightarrow> unit go \<times> 'c vstate" where
  "initCountersSidMap e r s =
     initOnce (sidOnce (vs_maps s)) (\<lambda>m v. v\<lparr>countersSidMap := m, sidOnce := True\<rparr>) []
       (GetCountersMap e ''COUNTERS_SRV6_NAME_MAP'' r) s"

definition initCountersAclRuleMap :: "('c, 'r) venv \<Rightarrow> 'r \<Rightarrow> 'c vstate \<Rightarrow> unit go \<times> 'c vstate" where
  "initCountersAclRuleMap e r s =
     initOnce (aclOnce (vs_maps s)) (\<lambda>m v. v\<lparr>countersAclRuleMap := m, aclOnce := True\<rparr>) []
       (GetCountersMap e ''ACL_COUNTER_RULE_MAP'' r) s"

definition initCountersFabricPortNameMap :: "('c, 'r) venv \<Rightarrow> 'r \<Rightarrow> 'c vstate \<Rightarrow> unit go \<times> 'c vstate" where
  "initCountersFabricPortNameMap e r s =
     initOnce (fabricOnce (vs_maps s)) (\<lambda>m v. v\<lparr>countersFabricPortNameMap := m, fabricOnce := True\<rparr>) []
       (GetFabricCountersMap e ''COUNTERS_FABRIC_PORT_NAME_MAP'' r) s"

definition initAliasMap :: "('c, 'r) venv \<Rightarrow> 'r \<Rightarrow> 'c vstate \<Rightarrow> unit go \<times> 'c vstate" where
  "initAliasMap e r s =
     initOnce (aliasOnce (vs_maps s))
       (\<lambda>(a2n, n2a, p2n) v. v\<lparr>alias2nameMap := a2n, name2aliasMap := n2a, port2namespaceMap := p2n, aliasOnce := True\<rparr>)
       ([], [], []) (GetAliasMap e r) s"

definition initCountersPfcwdNameMap :: "('c, 'r) venv \<Rightarrow> 'r \<Rightarrow> 'c vstate \<Rightarrow> unit go \<times> 'c vstate" where
  "initCountersPfcwdNameMap e r s =
     initOnce (pfcwdOnce (vs_maps s)) (\<lambda>m v. v\<lparr>countersPfcwdNameMap := m, pfcwdOnce := True\<rparr>) [] (GetPfcwdMap e r) s"

text \<open>
  Priority groups are named \<^verbatim>\<open>Ethernet64:7\<close>. A name of another form stops the loop with an error, and what was put
  into the map before stays.
\<close>

fun pgNames :: "(string \<times> string) list \<Rightarrow> string gomap gomap \<Rightarrow> bool \<times> string gomap gomap" where
  "pgNames [] m = (True, m)"
| "pgNames ((pg, oid) # pgs) m =
     (case split CHR '':'' pg of
        [port, i] \<Rightarrow>
          pgNames pgs (AList.update port (AList.update i oid (case map_of m port of None \<Rightarrow> [] | Some is \<Rightarrow> is)) m)
      | _ \<Rightarrow> (False, m))"

definition initCountersPGNameMap :: "('c, 'r) venv \<Rightarrow> 'r \<Rightarrow> 'c vstate \<Rightarrow> unit go \<times> 'c vstate" where
  "initCountersPGNameMap e r s =
     (if pgOnce (vs_maps s) then (Ret (), s)
      else
        (case GetCountersMap e ''COUNTERS_PG_NAME_MAP'' r s of
           (Err err, s1) \<Rightarrow> (Err err, setMaps (\<lambda>v. v\<lparr>pgOnce := True\<rparr>) s1)
         | (Crash, s1) \<Rightarrow> (Crash, s1)
         | (Ret pgOidMap, s1) \<Rightarrow>
             (case pgNames (rangeOver (ve_rng e) pgOidMap) (countersPGNameMap (vs_maps s1)) of
                (ok, m) \<Rightarrow>
                  (if ok then Ret () else Err (Plain ''invalid pg name''),
                   setMaps (\<lambda>v. v\<lparr>countersPGNameMap := m, pgOnce := True\<rparr>) s1))))"

definition initDebugNameSwitchStatMap :: "('c, 'r) venv \<Rightarrow> 'r \<Rightarrow> 'c vstate \<Rightarrow> unit go \<times> 'c vstate" where
  "initDebugNameSwitchStatMap e r s =
     initOnce (countersDebugNameSwitchStatMap (vs_maps s) \<noteq> [] \<and> \<not> ve_unitTest e)
       (\<lambda>m v. v\<lparr>countersDebugNameSwitchStatMap := m\<rparr>) [] (getSwitchStatMap e ''COUNTERS_DEBUG_NAME_SWITCH_STAT_MAP'' r) s"

definition queueTypeName :: "string \<Rightarrow> string" where
  "queueTypeName t =
     (if t = ''SAI_QUEUE_TYPE_UNICAST'' then ''UC'' else if t = ''SAI_QUEUE_TYPE_MULTICAST'' then ''MC'' else ''Unknown'')"

definition GetCountersQueueTypeMap :: "('c, 'r) venv \<Rightarrow> 'r \<Rightarrow> 'c vstate \<Rightarrow> string gomap go \<times> 'c vstate" where
  "GetCountersQueueTypeMap e r s =
     bindG (GetCountersMap e ''COUNTERS_QUEUE_TYPE_MAP'' r s)
       (\<lambda>types s1.
          bindG (if countersQueueNameMap (vs_maps s1) = [] then initCountersQueueNameMap e r s1 else (Ret (), s1))
            (\<lambda>_ s2.
               (Ret (foldl (\<lambda>m (q, oid). case map_of types oid of None \<Rightarrow> m | Some t \<Rightarrow> AList.update q (queueTypeName t) m)
                       [] (rangeOver (ve_rng e) (countersQueueNameMap (vs_maps s2)))), s2)))"

definition ClearMappings :: "('c, 'r) venv \<Rightarrow> 'c vstate \<Rightarrow> 'c vstate" where
  "ClearMappings e s =
     (if \<not> ve_unitTest e then s
      else
        setMaps (\<lambda>v. v\<lparr>countersPortNameMap := [], alias2nameMap := [], countersFabricPortNameMap := [],
                     countersQueueNameMap := [], countersAclRuleMap := [], portOnce := False, queueOnce := False,
                     pgOnce := False, sidOnce := False, aclOnce := False, aliasOnce := False, pfcwdOnce := False,
                     fabricOnce := False\<rparr>) s)"

text \<open>Both return copies; an error of the initialisation is ignored.\<close>

definition AliasToPortNameMap :: "('c, 'r) venv \<Rightarrow> 'r \<Rightarrow> 'c vstate \<Rightarrow> string gomap go \<times> 'c vstate" where
  "AliasToPortNameMap e r s =
     (case initAliasMap e r s of (Crash, s1) \<Rightarrow> (Crash, s1) | (_, s1) \<Rightarrow> (Ret (alias2nameMap (vs_maps s1)), s1))"

definition PortToAliasNameMap :: "('c, 'r) venv \<Rightarrow> 'r \<Rightarrow> 'c vstate \<Rightarrow> string gomap go \<times> 'c vstate" where
  "PortToAliasNameMap e r s =
     (case initAliasMap e r s of (Crash, s1) \<Rightarrow> (Crash, s1) | (_, s1) \<Rightarrow> (Ret (name2aliasMap (vs_maps s1)), s1))"

section \<open>From virtual paths to tables\<close>

definition zeroPath :: tablePath where
  "zeroPath =
     \<lparr>dbNamespace = [], dbName = [], tableName = [], tableKey = [], delimitor = [], field = [], jsonValue = [],
      protoValue = [], index = 0, tp_operation = opAdd, jsonTableName = [], jsonTableKey = [], jsonDelimitor = [],
      jsonField = []\<rparr>"

definition buildTablePath ::
  "string \<Rightarrow> string \<Rightarrow> string \<Rightarrow> string \<Rightarrow> string \<Rightarrow> string \<Rightarrow> string \<Rightarrow> string \<Rightarrow> string \<Rightarrow> tablePath" where
  "buildTablePath ns db table key sep fld jTable jKey jField =
     zeroPath\<lparr>dbNamespace := ns, dbName := db, tableName := table, tableKey := key, delimitor := sep, field := fld,
              jsonTableName := jTable, jsonTableKey := jKey, jsonField := jField\<rparr>"

definition getVendorPortName :: "vmaps \<Rightarrow> string \<Rightarrow> string" where
  "getVendorPortName m port = (case map_of (name2aliasMap m) port of Some alias \<Rightarrow> alias | None \<Rightarrow> port)"

definition getSonicPortName :: "vmaps \<Rightarrow> string \<Rightarrow> string" where
  "getSonicPortName m port = (case map_of (alias2nameMap m) port of Some name \<Rightarrow> name | None \<Rightarrow> port)"

definition getPortNamespace :: "vmaps \<Rightarrow> string \<Rightarrow> string go" where
  "getPortNamespace m port =
     (case map_of (port2namespaceMap m) port of Some ns \<Rightarrow> Ret ns | None \<Rightarrow> Err (Plain ''does not have namespace associated''))"

text \<open>The tables of one object; the separator is the one of its namespace.\<close>

definition onTable ::
  "('c, 'r) venv \<Rightarrow> string \<Rightarrow> string \<Rightarrow> string \<Rightarrow> string \<Rightarrow> string \<Rightarrow> string \<Rightarrow> string \<Rightarrow> 'c vstate \<Rightarrow> tablePath go \<times> 'c vstate" where
  "onTable e db table ns oid fld jKey jField s =
     (case separatorOf e db ns s of (sep, s1) \<Rightarrow> (Ret (buildTablePath ns db table oid sep fld [] jKey jField), s1))"

definition portTable ::
  "('c, 'r) venv \<Rightarrow> string \<Rightarrow> string \<Rightarrow> string \<Rightarrow> string \<Rightarrow> string \<Rightarrow> string \<Rightarrow> string \<Rightarrow> 'c vstate \<Rightarrow> tablePath go \<times> 'c vstate" where
  "portTable e db table port oid fld jKey jField s =
     bindG (getPortNamespace (vs_maps s) port, s) (\<lambda>ns. onTable e db table ns oid fld jKey jField)"

definition oidOf :: "string gomap \<Rightarrow> string \<Rightarrow> string go" where
  "oidOf m name = (case map_of m name of Some oid \<Rightarrow> Ret oid | None \<Rightarrow> Err (Plain ''not a valid sonic interface''))"

text \<open>One or all ports; \<open>vendor\<close> says whether the ports have their vendor names.\<close>

definition portStats ::
  "('c, 'r) venv \<Rightarrow> bool \<Rightarrow> string \<Rightarrow> string \<Rightarrow> string \<Rightarrow> string option \<Rightarrow> 'c vstate \<Rightarrow> tablePath list go \<times> 'c vstate" where
  "portStats e vendor db table key fld s =
     (let m = vs_maps s; f = (case fld of None \<Rightarrow> [] | Some f \<Rightarrow> f) in
      if hasSuffix key ''*'' then
        mapS (\<lambda>(port, oid). portTable e db table port oid f (if vendor then getVendorPortName m port else port) f)
          (rangeOver (ve_rng e) (countersPortNameMap m)) s
      else
        (let name = (if vendor then getSonicPortName m key else key) in
         bindG (oidOf (countersPortNameMap m) name, s)
           (\<lambda>oid s1. bindG (portTable e db table name oid f [] [] s1) (\<lambda>tp s2. (Ret [tp], s2)))))"

definition v2rEthPortStats :: "('c, 'r) venv \<Rightarrow> string list \<Rightarrow> 'c vstate \<Rightarrow> tablePath list go \<times> 'c vstate" where
  "v2rEthPortStats e paths s =
     (case paths of db # table # key # _ \<Rightarrow> portStats e True db table key None s | _ \<Rightarrow> (Crash, s))"

definition v2rEthPortFieldStats :: "('c, 'r) venv \<Rightarrow> string list \<Rightarrow> 'c vstate \<Rightarrow> tablePath list go \<times> 'c vstate" where
  "v2rEthPortFieldStats e paths s =
     (case paths of db # table # key # f # _ \<Rightarrow> portStats e True db table key (Some f) s | _ \<Rightarrow> (Crash, s))"

definition v2rPortPhyAttrStats :: "('c, 'r) venv \<Rightarrow> string list \<Rightarrow> 'c vstate \<Rightarrow> tablePath list go \<times> 'c vstate" where
  "v2rPortPhyAttrStats e paths s =
     (case paths of db # table # key # _ \<Rightarrow> portStats e False db table key None s | _ \<Rightarrow> (Crash, s))"

definition v2rPortPhyAttrFieldStats :: "('c, 'r) venv \<Rightarrow> string list \<Rightarrow> 'c vstate \<Rightarrow> tablePath list go \<times> 'c vstate" where
  "v2rPortPhyAttrFieldStats e paths s =
     (case paths of db # table # key # f # _ \<Rightarrow> portStats e False db table key (Some f) s | _ \<Rightarrow> (Crash, s))"

text \<open>Fabric ports and switch statistics have their namespace in the name, after a minus sign.\<close>

definition nameNamespace :: "string \<Rightarrow> string" where
  "nameNamespace port = (case split CHR ''-'' port of _ # ns # _ \<Rightarrow> ns | _ \<Rightarrow> [])"

definition namedStats :: "('c, 'r) venv \<Rightarrow> string gomap \<Rightarrow> string list \<Rightarrow> 'c vstate \<Rightarrow> tablePath list go \<times> 'c vstate" where
  "namedStats e m paths s =
     (case paths of
        db # table # key # _ \<Rightarrow>
          if hasSuffix key ''*'' then
            mapS (\<lambda>(port, oid). onTable e db table (nameNamespace port) oid [] port []) (rangeOver (ve_rng e) m) s
          else
            bindG (oidOf m key, s)
              (\<lambda>oid s1. bindG (onTable e db table (nameNamespace key) oid [] [] [] s1) (\<lambda>tp s2. (Ret [tp], s2)))
      | _ \<Rightarrow> (Crash, s))"

definition v2rFabricPortStats :: "('c, 'r) venv \<Rightarrow> string list \<Rightarrow> 'c vstate \<Rightarrow> tablePath list go \<times> 'c vstate" where
  "v2rFabricPortStats e paths s = namedStats e (countersFabricPortNameMap (vs_maps s)) paths s"

definition v2rSwitchPacketIntegrityDrop :: "('c, 'r) venv \<Rightarrow> string list \<Rightarrow> 'c vstate \<Rightarrow> tablePath list go \<times> 'c vstate" where
  "v2rSwitchPacketIntegrityDrop e paths s = namedStats e (countersDebugNameSwitchStatMap (vs_maps s)) paths s"

text \<open>SIDs and ACL rules are in the default namespace; a single one has a prefix, which is not part of the name.\<close>

definition prefixedStats ::
  "('c, 'r) venv \<Rightarrow> string \<Rightarrow> string gomap \<Rightarrow> string list \<Rightarrow> 'c vstate \<Rightarrow> tablePath list go \<times> 'c vstate" where
  "prefixedStats e prefix m paths s =
     (case paths of
        db # table # key # _ \<Rightarrow>
          if hasSuffix key ''*'' then
            mapS (\<lambda>(name, oid). onTable e db table GetDbDefaultNamespace oid [] name []) (rangeOver (ve_rng e) m) s
          else if \<not> hasPrefix key prefix then (Err (Plain ''is not a valid format''), s)
          else
            (case map_of m (drop (length prefix) key) of
               None \<Rightarrow> (Err (Plain ''does not exist in counter oid map''), s)
             | Some oid \<Rightarrow>
                 bindG (onTable e db table GetDbDefaultNamespace oid [] [] [] s) (\<lambda>tp s1. (Ret [tp], s1)))
      | _ \<Rightarrow> (Crash, s))"

definition v2rSRv6SidStats :: "('c, 'r) venv \<Rightarrow> string list \<Rightarrow> 'c vstate \<Rightarrow> tablePath list go \<times> 'c vstate" where
  "v2rSRv6SidStats e paths s = prefixedStats e ''SID:'' (countersSidMap (vs_maps s)) paths s"

definition v2rAclRuleStats :: "('c, 'r) venv \<Rightarrow> string list \<Rightarrow> 'c vstate \<Rightarrow> tablePath list go \<times> 'c vstate" where
  "v2rAclRuleStats e paths s = prefixedStats e ''ACL_RULE:'' (countersAclRuleMap (vs_maps s)) paths s"

text \<open>Queues are named by port, separator and number; a name without separator is an index out of range.\<close>

definition secondName :: "string list \<Rightarrow> string go" where
  "secondName names = (case names of _ # n # _ \<Rightarrow> Ret n | _ \<Rightarrow> Crash)"

definition firstName :: "string list \<Rightarrow> string go" where
  "firstName names = (case names of n # _ \<Rightarrow> Ret n | [] \<Rightarrow> Crash)"

definition pfcwdQueue ::
  "('c, 'r) venv \<Rightarrow> string \<Rightarrow> string \<Rightarrow> string \<Rightarrow> string \<Rightarrow> string option \<Rightarrow> vmaps \<Rightarrow> string \<times> string \<Rightarrow> tablePath go" where
  "pfcwdQueue e db table ns sep alias m qo =
     (case qo of
        (que, oid) \<Rightarrow>
          (let names = splitStr que sep in
           thenG (firstName names) (\<lambda>n0.
           thenG (secondName names) (\<lambda>n1.
             Ret (buildTablePath ns db table oid sep [] []
                   (join sep [case alias of Some a \<Rightarrow> a | None \<Rightarrow> getVendorPortName m n0, n1]) []))))) "

definition v2rEthPortPfcwdStats :: "('c, 'r) venv \<Rightarrow> string list \<Rightarrow> 'c vstate \<Rightarrow> tablePath list go \<times> 'c vstate" where
  "v2rEthPortPfcwdStats e paths s =
     (let m = vs_maps s in
      case paths of
        db # table # key # _ \<Rightarrow>
          if hasSuffix key ''*'' then
            bindG (mapS (\<lambda>(port, queues) s1.
                     bindG (getPortNamespace m port, s1) (\<lambda>ns s2.
                     case separatorOf e db ns s2 of
                       (sep, s3) \<Rightarrow> (mapG (pfcwdQueue e db table ns sep None m) (rangeOver (ve_rng e) queues), s3)))
                    (rangeOver (ve_rng e) (countersPfcwdNameMap m)) s)
              (\<lambda>tpss s1. (Ret (concat tpss), s1))
          else
            (let name = getSonicPortName m key in
             bindG (getPortNamespace m name, s) (\<lambda>ns s1.
             bindG (oidOf (countersPortNameMap m) name, s1) (\<lambda>_ s2.
             case separatorOf e db ns s2 of
               (sep, s3) \<Rightarrow>
                 (case map_of (countersPfcwdNameMap m) name of
                    None \<Rightarrow> (Ret [], s3)
                  | Some queues \<Rightarrow> (mapG (pfcwdQueue e db table ns sep (Some key) m) (rangeOver (ve_rng e) queues), s3)))))
      | _ \<Rightarrow> (Crash, s))"

text \<open>The counters of a queue, and its watermark from another table under the name of this one.\<close>

definition watermarkField :: string where
  "watermarkField = ''SAI_QUEUE_STAT_SHARED_WATERMARK_BYTES''"

definition queuePaths :: "string \<Rightarrow> string \<Rightarrow> string \<Rightarrow> string \<Rightarrow> string \<Rightarrow> string \<Rightarrow> tablePath list" where
  "queuePaths ns db table oid sep que =
     [buildTablePath ns db table oid sep [] [] que [],
      buildTablePath ns db ''PERIODIC_WATERMARKS'' oid sep watermarkField table (join sep [que, ''periodic'']) watermarkField]"

definition v2rEthPortQueStats :: "('c, 'r) venv \<Rightarrow> string list \<Rightarrow> 'c vstate \<Rightarrow> tablePath list go \<times> 'c vstate" where
  "v2rEthPortQueStats e paths s =
     (case paths of
        db # table # key # _ \<Rightarrow>
          (case separatorOf e db [] s of
             (sep, s1) \<Rightarrow>
               (let m = vs_maps s1; queues = rangeOver (ve_rng e) (countersQueueNameMap m) in
                if hasSuffix key ''*'' then
                  (thenG (mapG (\<lambda>(que, oid).
                       thenG (firstName (splitStr que sep)) (\<lambda>n0.
                       thenG (getPortNamespace m n0) (\<lambda>ns.
                       thenG (secondName (splitStr que sep)) (\<lambda>n1.
                         Ret (queuePaths ns db table oid sep (join sep [getVendorPortName m n0, n1])))))) queues)
                    (\<lambda>tpss. Ret (concat tpss)), s1)
                else
                  (let name = getSonicPortName m key in
                   (thenG (getPortNamespace m name) (\<lambda>ns.
                    thenG (mapG (\<lambda>(que, oid).
                        thenG (firstName (splitStr que sep)) (\<lambda>n0.
                        if name \<noteq> n0 then Ret []
                        else thenG (secondName (splitStr que sep)) (\<lambda>n1.
                          Ret (queuePaths ns db table oid sep (join sep [key, n1]))))) queues)
                      (\<lambda>tpss. Ret (concat tpss))), s1))))
      | _ \<Rightarrow> (Crash, s))"

definition v2rEthPortPGPeriodicWMs :: "('c, 'r) venv \<Rightarrow> string list \<Rightarrow> 'c vstate \<Rightarrow> tablePath list go \<times> 'c vstate" where
  "v2rEthPortPGPeriodicWMs e paths s =
     (case paths of
        db # table # key # _ \<Rightarrow>
          (case separatorOf e db [] s of
             (sep, s1) \<Rightarrow>
               (let m = vs_maps s1;
                    pgs = (\<lambda>ns port groups. map (\<lambda>(i, oid). buildTablePath ns db table oid sep [] [] (join sep [port, i]) [])
                                             (rangeOver (ve_rng e) groups)) in
                if hasSuffix key ''*'' then
                  (thenG (mapG (\<lambda>(port, groups).
                       thenG (getPortNamespace m port) (\<lambda>ns. Ret (pgs ns (getVendorPortName m port) groups)))
                      (rangeOver (ve_rng e) (countersPGNameMap m)))
                    (\<lambda>tpss. Ret (concat tpss)), s1)
                else
                  (let port = getSonicPortName m key in
                   (thenG (getPortNamespace m port) (\<lambda>ns.
                    case map_of (countersPGNameMap m) port of
                      None \<Rightarrow> Err (Plain ''No priority groups associated with'')
                    | Some groups \<Rightarrow> Ret (pgs ns key groups)), s1))))
      | _ \<Rightarrow> (Crash, s))"

definition v2rEthPortQueueWMs :: "('c, 'r) venv \<Rightarrow> string list \<Rightarrow> 'c vstate \<Rightarrow> tablePath list go \<times> 'c vstate" where
  "v2rEthPortQueueWMs e paths s =
     (case paths of
        db # table # key # _ \<Rightarrow>
          (case separatorOf e db [] s of
             (sep, s1) \<Rightarrow>
               (let m = vs_maps s1; queues = rangeOver (ve_rng e) (countersQueueNameMap m) in
                if hasSuffix key ''*'' then
                  (mapG (\<lambda>(que, oid).
                     thenG (firstName (splitStr que sep)) (\<lambda>n0.
                     thenG (getPortNamespace m n0) (\<lambda>ns. Ret (buildTablePath ns db table oid sep [] [] que [])))) queues, s1)
                else
                  (let port = getSonicPortName m key in
                   (thenG (getPortNamespace m port) (\<lambda>ns.
                    thenG (mapG (\<lambda>(que, oid).
                        thenG (firstName (splitStr que sep)) (\<lambda>n0.
                        Ret (if n0 \<noteq> port then [] else [buildTablePath ns db table oid sep [] [] que []]))) queues)
                      (\<lambda>tpss. Ret (concat tpss))), s1))))
      | _ \<Rightarrow> (Crash, s))"

section \<open>The table of virtual paths\<close>

datatype v2rTranslate =
    EthPortStats | EthPortFieldStats | EthPortQueStats | EthPortPfcwdStats | FabricPortStats | EthPortPGPeriodicWMs
  | EthPortQueueWMs | SwitchPacketIntegrityDrop | SRv6SidStats | AclRuleStats | PortPhyAttrStats | PortPhyAttrFieldStats

definition transFunc :: "('c, 'r) venv \<Rightarrow> v2rTranslate \<Rightarrow> string list \<Rightarrow> 'c vstate \<Rightarrow> tablePath list go \<times> 'c vstate" where
  "transFunc e f =
     (case f of
        EthPortStats \<Rightarrow> v2rEthPortStats e
      | EthPortFieldStats \<Rightarrow> v2rEthPortFieldStats e
      | EthPortQueStats \<Rightarrow> v2rEthPortQueStats e
      | EthPortPfcwdStats \<Rightarrow> v2rEthPortPfcwdStats e
      | FabricPortStats \<Rightarrow> v2rFabricPortStats e
      | EthPortPGPeriodicWMs \<Rightarrow> v2rEthPortPGPeriodicWMs e
      | EthPortQueueWMs \<Rightarrow> v2rEthPortQueueWMs e
      | SwitchPacketIntegrityDrop \<Rightarrow> v2rSwitchPacketIntegrityDrop e
      | SRv6SidStats \<Rightarrow> v2rSRv6SidStats e
      | AclRuleStats \<Rightarrow> v2rAclRuleStats e
      | PortPhyAttrStats \<Rightarrow> v2rPortPhyAttrStats e
      | PortPhyAttrFieldStats \<Rightarrow> v2rPortPhyAttrFieldStats e)"

definition pathTransFuncTbl :: "(string list \<times> v2rTranslate) list" where
  "pathTransFuncTbl =
     [([''COUNTERS_DB'', ''COUNTERS'', ''Ethernet*''], EthPortStats),
      ([''COUNTERS_DB'', ''COUNTERS'', ''Ethernet*'', ''*''], EthPortFieldStats),
      ([''COUNTERS_DB'', ''COUNTERS'', ''Ethernet*'', ''Queues''], EthPortQueStats),
      ([''COUNTERS_DB'', ''COUNTERS'', ''Ethernet*'', ''Pfcwd''], EthPortPfcwdStats),
      ([''COUNTERS_DB'', ''COUNTERS'', ''PORT*''], FabricPortStats),
      ([''COUNTERS_DB'', ''PERIODIC_WATERMARKS'', ''Ethernet*'', ''PriorityGroups''], EthPortPGPeriodicWMs),
      ([''COUNTERS_DB'', ''USER_WATERMARKS'', ''Ethernet*'', ''Queues''], EthPortQueueWMs),
      ([''COUNTERS_DB'', ''PERSISTENT_WATERMARKS'', ''Ethernet*'', ''Queues''], EthPortQueueWMs),
      ([''COUNTERS_DB'', ''RATES'', ''Ethernet*''], EthPortStats),
      ([''COUNTERS_DB'', ''RATES'', ''Ethernet*'', ''*''], EthPortFieldStats),
      ([''COUNTERS_DB'', ''COUNTERS'', ''SWITCH*''], SwitchPacketIntegrityDrop),
      ([''COUNTERS_DB'', ''COUNTERS'', ''SID*''], SRv6SidStats),
      ([''COUNTERS_DB'', ''COUNTERS'', ''ACL_RULE*''], AclRuleStats),
      ([''COUNTERS_DB'', ''PORT_PHY_ATTR'', ''Ethernet*''], PortPhyAttrStats),
      ([''COUNTERS_DB'', ''PORT_PHY_ATTR'', ''Ethernet*'', ''*''], PortPhyAttrFieldStats)]"

definition v2rTrie :: "v2rTranslate Trie" where
  "v2rTrie = populate pathTransFuncTbl"

definition lookupV2R :: "('c, 'r) venv \<Rightarrow> string list \<Rightarrow> 'c vstate \<Rightarrow> tablePath list go \<times> 'c vstate" where
  "lookupV2R e paths s =
     (case Trie_Find (ve_rng e) v2rTrie paths of
        Some f \<Rightarrow> transFunc e f paths s
      | None \<Rightarrow> (Err (Plain ''not found in virtual path tree''), s))"

section \<open>Lemmas: maps\<close>

lemma range_order_distinct:
  assumes "range_order rng" and "distinct xs"
  shows "distinct (rng xs)"
  using assms unfolding range_order_def by (metis card_distinct distinct_card)

lemma set_map_filter: "set (List.map_filter f xs) = {y. \<exists>x\<in>set xs. f x = Some y}"
  by (induction xs) (auto simp: map_filter_simps split: option.split)

lemma fst_map_filter:
  "map fst (List.map_filter (\<lambda>k. map_option (Pair k) (m k)) ks) = filter (\<lambda>k. m k \<noteq> None) ks"
  by (induction ks) (auto simp: map_filter_simps split: option.split)

lemma rangeOver_set:
  assumes "range_order rng" and "gomap_ok m"
  shows "set (rangeOver rng m) = set m"
proof -
  have "set (rng (map fst m)) = fst ` set m" using assms(1) by (simp add: range_order_def)
  then have "(k, v) \<in> set (rangeOver rng m) \<longleftrightarrow> (k, v) \<in> set m" for k v
    using assms(2) by (force simp: rangeOver_def set_map_filter)
  then show ?thesis by auto
qed

lemma rangeOver_ok: "range_order rng \<Longrightarrow> gomap_ok m \<Longrightarrow> gomap_ok (rangeOver rng m)"
  by (simp add: rangeOver_def fst_map_filter range_order_distinct)

lemma rangeOver_length:
  assumes "range_order rng" and "gomap_ok m"
  shows "length (rangeOver rng m) = length m"
proof -
  have "distinct (rangeOver rng m)" "distinct m"
    using rangeOver_ok [OF assms] assms(2) by (simp_all add: distinct_map)
  with rangeOver_set [OF assms] show ?thesis by (metis distinct_card)
qed

lemma map_of_same: "gomap_ok m \<Longrightarrow> gomap_ok n \<Longrightarrow> set m = set n \<Longrightarrow> map_of m = map_of n"
  by (rule ext, metis map_of_eq_None_iff map_of_eq_Some_iff not_None_eq)

lemma map_of_foldl_update:
  "map_of (foldl (\<lambda>m (k, v). AList.update k v m) a xs) = map_of a ++ map_of (rev xs)"
  by (induction xs arbitrary: a) (auto simp: update_conv' map_add_def split: option.split)

lemma foldl_update_ok: "gomap_ok a \<Longrightarrow> gomap_ok (foldl (\<lambda>m (k, v). AList.update k v m) a xs)"
  by (induction xs arbitrary: a) (auto simp: distinct_update)

lemma addmap_map_of:
  assumes "range_order rng" and "gomap_ok b"
  shows "map_of (addmap rng a b) = map_of a ++ map_of b"
proof -
  have "map_of (rev (rangeOver rng b)) = map_of b"
    by (rule map_of_same) (use rangeOver_ok [OF assms] rangeOver_set [OF assms] assms(2) in \<open>simp_all add: rev_map [symmetric]\<close>)
  then show ?thesis by (simp add: addmap_def map_of_foldl_update)
qed

section \<open>Lemmas: separators\<close>

text \<open>Once the database configuration is read, asking for a separator changes nothing.\<close>

definition ready :: "'c vstate \<Rightarrow> bool" where
  "ready s \<longleftrightarrow> sonic_db_init (vs_cfg s)"

definition sepOf :: "('c, 'r) venv \<Rightarrow> string \<Rightarrow> string \<Rightarrow> 'c vstate \<Rightarrow> string" where
  "sepOf e db ns s = fst (separatorOf e db ns s)"

lemma separatorOf_ready: "ready s \<Longrightarrow> separatorOf e db ns s = (sepOf e db ns s, s)"
  by (auto simp: sepOf_def separatorOf_def GetTableKeySeparator_def GetDbSeparator_def ready_def setVCfg_def
      split: sum.splits)

lemma mapS_pure: "(\<And>x. x \<in> set xs \<Longrightarrow> f x s = (g x, s)) \<Longrightarrow> mapS f xs s = (mapG g xs, s)"
proof (induction xs)
  case (Cons x xs)
  then show ?case by (cases "g x"; cases "mapG g xs") auto
qed simp

lemma onTable_ready: "ready s \<Longrightarrow> onTable e db table ns oid f jk jf s =
    (Ret (buildTablePath ns db table oid (sepOf e db ns s) f [] jk jf), s)"
  by (simp add: onTable_def separatorOf_ready)

lemma portTable_ready:
  "ready s \<Longrightarrow> portTable e db table port oid f jk jf s =
     (thenG (getPortNamespace (vs_maps s) port)
        (\<lambda>ns. Ret (buildTablePath ns db table oid (sepOf e db ns s) f [] jk jf)), s)"
  by (cases "getPortNamespace (vs_maps s) port") (auto simp: portTable_def onTable_ready)

section \<open>Lemmas: the table of virtual paths\<close>

text \<open>Which function a virtual path leads to.\<close>

definition v2rSpec :: "string list \<Rightarrow> v2rTranslate option" where
  "v2rSpec keys =
     (case keys of
        [db, table, key] \<Rightarrow>
          if db \<noteq> ''COUNTERS_DB'' then None
          else if hasPrefix key ''Ethernet'' then
            (if table = ''COUNTERS'' \<or> table = ''RATES'' then Some EthPortStats
             else if table = ''PORT_PHY_ATTR'' then Some PortPhyAttrStats else None)
          else if table \<noteq> ''COUNTERS'' then None
          else if hasPrefix key ''PORT'' then Some FabricPortStats
          else if hasPrefix key ''SWITCH'' then Some SwitchPacketIntegrityDrop
          else if hasPrefix key ''SID'' then Some SRv6SidStats
          else if hasPrefix key ''ACL_RULE'' then Some AclRuleStats
          else None
      | [db, table, key, fld] \<Rightarrow>
          if db \<noteq> ''COUNTERS_DB'' \<or> \<not> hasPrefix key ''Ethernet'' then None
          else if table = ''COUNTERS'' then
            Some (if fld = ''Queues'' then EthPortQueStats else if fld = ''Pfcwd'' then EthPortPfcwdStats else EthPortFieldStats)
          else if table = ''RATES'' then Some EthPortFieldStats
          else if table = ''PORT_PHY_ATTR'' then Some PortPhyAttrFieldStats
          else if table = ''PERIODIC_WATERMARKS'' \<and> fld = ''PriorityGroups'' then Some EthPortPGPeriodicWMs
          else if (table = ''USER_WATERMARKS'' \<or> table = ''PERSISTENT_WATERMARKS'') \<and> fld = ''Queues'' then Some EthPortQueueWMs
          else None
      | _ \<Rightarrow> None)"

lemma find_rng:
  assumes "range_order rng" and "\<And>x y. x \<in> set xs \<Longrightarrow> y \<in> set xs \<Longrightarrow> P x \<Longrightarrow> P y \<Longrightarrow> x = y"
  shows "find P (rng xs) = find P xs"
proof (cases "find P xs")
  case None
  then have "\<not> (\<exists>x. x \<in> set (rng xs) \<and> P x)" by (simp add: range_order_set [OF assms(1)] find_None_iff)
  then have "find P (rng xs) = None" by (simp add: find_None_iff)
  with None show ?thesis by simp
next
  case (Some x)
  then have x: "x \<in> set xs" "P x" using find_in by fastforce+
  moreover from x obtain y where y: "find P (rng xs) = Some y"
    using range_order_set [OF assms(1)] by (metis find_None_iff option.exhaust)
  moreover from y have "y \<in> set xs" "P y" using find_in [OF y] range_order_set [OF assms(1)] by auto
  ultimately show ?thesis using Some assms(2) by simp
qed

lemma rng_Nil: "range_order rng \<Longrightarrow> rng [] = []"
  unfolding range_order_def by (metis length_0_conv list.size(3))

text \<open>The paths below \<^verbatim>\<open>COUNTERS_DB\<close>, and below each of its tables.\<close>

definition tableNames :: "string list" where
  "tableNames = [''COUNTERS'', ''PERIODIC_WATERMARKS'', ''USER_WATERMARKS'', ''PERSISTENT_WATERMARKS'', ''RATES'', ''PORT_PHY_ATTR'']"

lemma heads_table: "heads pathTransFuncTbl = [''COUNTERS_DB'']" "heads (below ''COUNTERS_DB'' pathTransFuncTbl) = tableNames"
  by code_simp+

lemma below_COUNTERS: "below ''COUNTERS'' (below ''COUNTERS_DB'' pathTransFuncTbl) =
    [([''Ethernet*''], EthPortStats), ([''Ethernet*'', ''*''], EthPortFieldStats), ([''Ethernet*'', ''Queues''], EthPortQueStats),
     ([''Ethernet*'', ''Pfcwd''], EthPortPfcwdStats), ([''PORT*''], FabricPortStats), ([''SWITCH*''], SwitchPacketIntegrityDrop),
     ([''SID*''], SRv6SidStats), ([''ACL_RULE*''], AclRuleStats)]"
  by code_simp

lemma below_others:
  "below ''PERIODIC_WATERMARKS'' (below ''COUNTERS_DB'' pathTransFuncTbl) = [([''Ethernet*'', ''PriorityGroups''], EthPortPGPeriodicWMs)]"
  "below ''USER_WATERMARKS'' (below ''COUNTERS_DB'' pathTransFuncTbl) = [([''Ethernet*'', ''Queues''], EthPortQueueWMs)]"
  "below ''PERSISTENT_WATERMARKS'' (below ''COUNTERS_DB'' pathTransFuncTbl) = [([''Ethernet*'', ''Queues''], EthPortQueueWMs)]"
  "below ''RATES'' (below ''COUNTERS_DB'' pathTransFuncTbl) =
     [([''Ethernet*''], EthPortStats), ([''Ethernet*'', ''*''], EthPortFieldStats)]"
  "below ''PORT_PHY_ATTR'' (below ''COUNTERS_DB'' pathTransFuncTbl) =
     [([''Ethernet*''], PortPhyAttrStats), ([''Ethernet*'', ''*''], PortPhyAttrFieldStats)]"
  by code_simp+

lemma pick_exact: "k \<in> set (heads es) \<Longrightarrow> pick rng es k = Some k"
  by (simp add: pick_def)

lemma pick_plain:
  assumes "range_order rng" and "filter (\<lambda>w. hasSuffix w ''*'') (heads es) = []"
  shows "pick rng es k = (if k \<in> set (heads es) then Some k else None)"
  using rng_Nil [OF assms(1)] by (simp add: pick_def assms(2))

text \<open>The name that a key leads to, for tables where no two wildcards cover the same key.\<close>

lemma pick_wild:
  assumes "range_order rng" and "heads es = ws" and "filter (\<lambda>w. hasSuffix w ''*'') ws = vs"
    and "\<And>x y. x \<in> set vs \<Longrightarrow> y \<in> set vs \<Longrightarrow> keyCovers x k \<Longrightarrow> keyCovers y k \<Longrightarrow> x = y"
  shows "pick rng es k = (if k \<in> set ws then Some k else find (\<lambda>w. keyCovers w k) vs)"
  using find_rng [OF assms(1,4)] by (simp add: pick_def assms(2,3))

lemma covers_take: "keyCovers w k \<Longrightarrow> n < length w \<Longrightarrow> take n k = take n w"
proof -
  assume "keyCovers w k" "n < length w"
  then have "take (length w - 1) k = take (length w - 1) w" by (simp add: keyCovers_def hasPrefix_def butlast_conv_take)
  then have "take n (take (length w - 1) k) = take n (take (length w - 1) w)" by simp
  moreover from \<open>n < length w\<close> have "min n (length w - 1) = n" by simp
  ultimately show ?thesis by simp
qed

lemma counters_disjoint:
  assumes "x \<in> set [''Ethernet*'', ''PORT*'', ''SWITCH*'', ''SID*'', ''ACL_RULE*'']"
    and "y \<in> set [''Ethernet*'', ''PORT*'', ''SWITCH*'', ''SID*'', ''ACL_RULE*'']" and "keyCovers x k" and "keyCovers y k"
  shows "x = y"
proof -
  have "2 < length x" "2 < length y" using assms(1,2) by auto
  with assms(3,4) have "take 2 x = take 2 y" using covers_take by metis
  moreover have "\<forall>x\<in>set [''Ethernet*'', ''PORT*'', ''SWITCH*'', ''SID*'', ''ACL_RULE*''].
      \<forall>y\<in>set [''Ethernet*'', ''PORT*'', ''SWITCH*'', ''SID*'', ''ACL_RULE*'']. take 2 x = take 2 y \<longrightarrow> x = y" by code_simp
  ultimately show ?thesis using assms(1,2) by blast
qed

lemma covers_star [simp]: "keyCovers ''*'' k"
  by (simp add: keyCovers_def hasPrefix_def)

lemma covers_names:
  "keyCovers ''Ethernet*'' k = hasPrefix k ''Ethernet''" "keyCovers ''PORT*'' k = hasPrefix k ''PORT''"
  "keyCovers ''SWITCH*'' k = hasPrefix k ''SWITCH''" "keyCovers ''SID*'' k = hasPrefix k ''SID''"
  "keyCovers ''ACL_RULE*'' k = hasPrefix k ''ACL_RULE''"
  by (simp_all add: keyCovers_def)

lemma ending_leaf [simp]: "ending [([], f)] = Some f"
  by (simp add: ending_def)

lemma match_leaf:
  assumes "range_order rng"
  shows "matchPath rng [([], f)] ks = (if ks = [] then Some f else None)"
proof (cases ks)
  case (Cons k ks')
  have "heads [([] :: string list, f)] = []" by (simp add: heads_def)
  with Cons pick_plain [OF assms, of "[([], f)]" k] show ?thesis by simp
qed (simp add: ending_def)

text \<open>Tables of Ethernet ports only: \<open>es\<close> are the paths below the port.\<close>

lemma pick_ethernet:
  assumes "range_order rng" and "heads es = [''Ethernet*'']"
  shows "pick rng es k = (if hasPrefix k ''Ethernet'' then Some ''Ethernet*'' else None)"
proof -
  have "pick rng es k = (if k \<in> set [''Ethernet*''] then Some k else find (\<lambda>w. keyCovers w k) [''Ethernet*''])"
    by (rule pick_wild [OF assms]) (simp_all add: hasSuffix_def)
  then show ?thesis by (auto simp: covers_names hasPrefix_def)
qed

lemma pick_field:
  assumes "range_order rng" and "heads es = ws" and "filter (\<lambda>w. hasSuffix w ''*'') ws = [''*'']"
  shows "pick rng es f = Some (if f \<in> set ws then f else ''*'')"
proof -
  have "pick rng es f = (if f \<in> set ws then Some f else find (\<lambda>w. keyCovers w f) [''*''])"
    by (rule pick_wild [OF assms]) auto
  then show ?thesis by simp
qed

lemma match_ethernet:
  assumes "range_order rng" and "heads es = [''Ethernet*'']" and "ending es = None"
  shows "matchPath rng es ks =
    (case ks of [] \<Rightarrow> None | k # ks' \<Rightarrow> if hasPrefix k ''Ethernet'' then matchPath rng (below ''Ethernet*'' es) ks' else None)"
  using pick_ethernet [OF assms(1,2)] assms(3) by (cases ks) auto

lemma match_fields:
  assumes "range_order rng"
  shows "matchPath rng [([], g), ([''*''], h)] ks = (case ks of [] \<Rightarrow> Some g | [f] \<Rightarrow> Some h | _ \<Rightarrow> None)"
proof (cases ks)
  case (Cons f ks')
  let ?es = "[([], g), ([''*''], h)]"
  have "heads ?es = [''*'']" by (simp add: heads_def)
  from pick_field [OF assms this, of f] have "pick rng ?es f = Some ''*''" by (auto simp: hasSuffix_def)
  with Cons show ?thesis by (simp add: below_def match_leaf [OF assms] split: list.split)
qed (simp add: ending_def)

lemma match_one:
  assumes "range_order rng" and "\<not> hasSuffix x ''*''"
  shows "matchPath rng [([x], h)] ks = (case ks of [f] \<Rightarrow> if f = x then Some h else None | _ \<Rightarrow> None)"
proof (cases ks)
  case (Cons f ks')
  have "heads [([x], h)] = [x]" by (simp add: heads_def)
  with pick_plain [OF assms(1), of "[([x], h)]" f] assms(2) have "pick rng [([x], h)] f = (if f = x then Some f else None)" by simp
  with Cons show ?thesis by (simp add: below_def match_leaf [OF assms(1)] split: list.split)
qed (simp add: ending_def)

lemma match_counters_ethernet:
  assumes "range_order rng"
  shows "matchPath rng [([], a), ([''*''], b), ([''Queues''], c), ([''Pfcwd''], d)] ks =
    (case ks of [] \<Rightarrow> Some a | [f] \<Rightarrow> Some (if f = ''Queues'' then c else if f = ''Pfcwd'' then d else b) | _ \<Rightarrow> None)"
proof (cases ks)
  case (Cons f ks')
  let ?es = "[([], a), ([''*''], b), ([''Queues''], c), ([''Pfcwd''], d)]" and ?ws = "[''*'', ''Queues'', ''Pfcwd'']"
  have "heads ?es = ?ws" by (simp add: heads_def)
  from pick_field [OF assms this, of f] have "pick rng ?es f = Some (if f \<in> set ?ws then f else ''*'')" by (auto simp: hasSuffix_def)
  with Cons show ?thesis by (simp add: below_def match_leaf [OF assms] ending_def split: list.split)
qed (simp add: ending_def)

lemma below_ethernet:
  "below ''Ethernet*'' [([''Ethernet*''], a), ([''Ethernet*'', ''*''], b)] = [([], a), ([''*''], b)]"
  "below ''Ethernet*'' [([''Ethernet*'', x], a)] = [([x], a)]"
  by (simp_all add: below_def)

lemma heads_ethernet:
  "heads [([''Ethernet*''], a), ([''Ethernet*'', ''*''], b)] = [''Ethernet*'']" "heads [([''Ethernet*'', x], a)] = [''Ethernet*'']"
  "ending [([''Ethernet*''], a), ([''Ethernet*'', ''*''], b)] = None" "ending [([''Ethernet*'', x], a)] = None"
  by (simp_all add: heads_def ending_def)

lemma match_COUNTERS:
  assumes "range_order rng"
  shows "matchPath rng (below ''COUNTERS'' (below ''COUNTERS_DB'' pathTransFuncTbl)) ks =
           v2rSpec (''COUNTERS_DB'' # ''COUNTERS'' # ks)"
proof (cases ks)
  case Nil
  then show ?thesis by (simp add: below_COUNTERS ending_def v2rSpec_def)
next
  case (Cons k ks')
  let ?es = "below ''COUNTERS'' (below ''COUNTERS_DB'' pathTransFuncTbl)"
  let ?ws = "[''Ethernet*'', ''PORT*'', ''SWITCH*'', ''SID*'', ''ACL_RULE*'']"
  have "pick rng ?es k = (if k \<in> set ?ws then Some k else find (\<lambda>w. keyCovers w k) ?ws)"
  proof (rule pick_wild [OF assms])
    show "heads ?es = ?ws" by code_simp
    show "filter (\<lambda>w. hasSuffix w ''*'') ?ws = ?ws" by code_simp
  qed (rule counters_disjoint)
  also have "\<dots> = find (\<lambda>w. keyCovers w k) ?ws"
  proof (cases "k \<in> set ?ws")
    case True
    have "\<forall>k\<in>set ?ws. find (\<lambda>w. keyCovers w k) ?ws = Some k" by code_simp
    from bspec [OF this True] show ?thesis unfolding if_P [OF True] by (rule sym)
  qed simp
  finally have pick: "pick rng ?es k = find (\<lambda>w. keyCovers w k) ?ws" .
  have below: "below ''Ethernet*'' ?es = [([], EthPortStats), ([''*''], EthPortFieldStats), ([''Queues''], EthPortQueStats), ([''Pfcwd''], EthPortPfcwdStats)]"
    "below ''PORT*'' ?es = [([], FabricPortStats)]" "below ''SWITCH*'' ?es = [([], SwitchPacketIntegrityDrop)]"
    "below ''SID*'' ?es = [([], SRv6SidStats)]" "below ''ACL_RULE*'' ?es = [([], AclRuleStats)]"
    by code_simp+
  show ?thesis
    unfolding Cons matchPath.simps pick
    by (simp add: covers_names below match_leaf [OF assms] match_counters_ethernet [OF assms] v2rSpec_def split: list.split)
qed

text \<open>A path below a table of Ethernet ports has one or two names.\<close>

lemma short_path_cases:
  obtains (none) "ks = []" | (port) k where "ks = [k]" | (fld) k f where "ks = [k, f]" | (long) a b c r where "ks = a # b # c # r"
  by (metis list.exhaust)

lemma v2rSpec_short: "v2rSpec [] = None" "v2rSpec [db] = None" "v2rSpec [db, t] = None" "v2rSpec (db # t # a # b # c # r) = None"
  by (simp_all add: v2rSpec_def)

lemma match_others:
  assumes r: "range_order rng"
  shows "matchPath rng (below ''PERIODIC_WATERMARKS'' (below ''COUNTERS_DB'' pathTransFuncTbl)) ks = v2rSpec (''COUNTERS_DB'' # ''PERIODIC_WATERMARKS'' # ks)"
    and "matchPath rng (below ''USER_WATERMARKS'' (below ''COUNTERS_DB'' pathTransFuncTbl)) ks = v2rSpec (''COUNTERS_DB'' # ''USER_WATERMARKS'' # ks)"
    and "matchPath rng (below ''PERSISTENT_WATERMARKS'' (below ''COUNTERS_DB'' pathTransFuncTbl)) ks = v2rSpec (''COUNTERS_DB'' # ''PERSISTENT_WATERMARKS'' # ks)"
    and "matchPath rng (below ''RATES'' (below ''COUNTERS_DB'' pathTransFuncTbl)) ks = v2rSpec (''COUNTERS_DB'' # ''RATES'' # ks)"
    and "matchPath rng (below ''PORT_PHY_ATTR'' (below ''COUNTERS_DB'' pathTransFuncTbl)) ks = v2rSpec (''COUNTERS_DB'' # ''PORT_PHY_ATTR'' # ks)"
proof -
  have star: "\<not> hasSuffix ''PriorityGroups'' ''*''" "\<not> hasSuffix ''Queues'' ''*''" by code_simp+
  note two = below_others match_ethernet [OF r heads_ethernet(1,3)] below_ethernet match_fields [OF r]
  note one = below_others match_ethernet [OF r heads_ethernet(2,4)] below_ethernet
  show "matchPath rng (below ''PERIODIC_WATERMARKS'' (below ''COUNTERS_DB'' pathTransFuncTbl)) ks = v2rSpec (''COUNTERS_DB'' # ''PERIODIC_WATERMARKS'' # ks)"
    unfolding one match_one [OF r star(1)] by (cases ks rule: short_path_cases) (simp_all add: v2rSpec_def)
  show "matchPath rng (below ''USER_WATERMARKS'' (below ''COUNTERS_DB'' pathTransFuncTbl)) ks = v2rSpec (''COUNTERS_DB'' # ''USER_WATERMARKS'' # ks)"
    unfolding one match_one [OF r star(2)] by (cases ks rule: short_path_cases) (simp_all add: v2rSpec_def)
  show "matchPath rng (below ''PERSISTENT_WATERMARKS'' (below ''COUNTERS_DB'' pathTransFuncTbl)) ks = v2rSpec (''COUNTERS_DB'' # ''PERSISTENT_WATERMARKS'' # ks)"
    unfolding one match_one [OF r star(2)] by (cases ks rule: short_path_cases) (simp_all add: v2rSpec_def)
  show "matchPath rng (below ''RATES'' (below ''COUNTERS_DB'' pathTransFuncTbl)) ks = v2rSpec (''COUNTERS_DB'' # ''RATES'' # ks)"
    unfolding two by (cases ks rule: short_path_cases) (simp_all add: v2rSpec_def)
  show "matchPath rng (below ''PORT_PHY_ATTR'' (below ''COUNTERS_DB'' pathTransFuncTbl)) ks = v2rSpec (''COUNTERS_DB'' # ''PORT_PHY_ATTR'' # ks)"
    unfolding two by (cases ks rule: short_path_cases) (simp_all add: v2rSpec_def)
qed

lemma match_table:
  assumes "range_order rng" and "t \<in> set tableNames"
  shows "matchPath rng (below t (below ''COUNTERS_DB'' pathTransFuncTbl)) ks = v2rSpec (''COUNTERS_DB'' # t # ks)"
proof -
  have "t = ''COUNTERS'' \<or> t = ''PERIODIC_WATERMARKS'' \<or> t = ''USER_WATERMARKS'' \<or> t = ''PERSISTENT_WATERMARKS'' \<or> t = ''RATES''
      \<or> t = ''PORT_PHY_ATTR''" using assms(2) unfolding tableNames_def by simp
  then show ?thesis by (elim disjE) (simp_all only: match_others [OF assms(1)] match_COUNTERS [OF assms(1)])
qed

lemma v2rSpec_other:
  assumes "db \<noteq> ''COUNTERS_DB'' \<or> t \<notin> set tableNames"
  shows "v2rSpec (db # t # ks) = None"
  using assms by (cases ks rule: short_path_cases) (auto simp: v2rSpec_def tableNames_def)

lemma match_v2r:
  assumes "range_order rng"
  shows "matchPath rng pathTransFuncTbl keys = v2rSpec keys"
proof (cases keys)
  case Nil
  then show ?thesis by (simp add: ending_def pathTransFuncTbl_def v2rSpec_def)
next
  case (Cons db ks)
  let ?es = "below ''COUNTERS_DB'' pathTransFuncTbl"
  have db: "pick rng pathTransFuncTbl db = (if db = ''COUNTERS_DB'' then Some db else None)"
    using pick_plain [OF assms, of pathTransFuncTbl db] by (simp add: heads_table hasSuffix_def)
  show ?thesis
  proof (cases ks)
    case Nil
    have "ending ?es = None" by code_simp
    with Cons Nil db show ?thesis by (simp add: v2rSpec_def)
  next
    case (Cons t ks')
    have t: "pick rng ?es t = (if t \<in> set tableNames then Some t else None)"
      using pick_plain [OF assms, of ?es t] by (simp add: heads_table hasSuffix_def tableNames_def)
    have "matchPath rng (below t ?es) ks' = v2rSpec (''COUNTERS_DB'' # t # ks')" if "t \<in> set tableNames"
      by (rule match_table [OF assms that])
    then show ?thesis unfolding \<open>keys = db # ks\<close> Cons matchPath.simps db using t v2rSpec_other [of db t ks'] by auto
  qed
qed

section \<open>Lemmas: ports and their names\<close>

lemma list_all2_left: "list_all2 P xs ys \<Longrightarrow> x \<in> set xs \<Longrightarrow> \<exists>y\<in>set ys. P x y"
  by (induction rule: list_all2_induct) auto

lemma list_all2_right: "list_all2 P xs ys \<Longrightarrow> y \<in> set ys \<Longrightarrow> \<exists>x\<in>set xs. P x y"
  by (induction rule: list_all2_induct) auto

definition portPath :: "('c, 'r) venv \<Rightarrow> string \<Rightarrow> string \<Rightarrow> 'c vstate \<Rightarrow> string \<Rightarrow> string \<Rightarrow> string \<Rightarrow> tablePath go" where
  "portPath e db table s jKey port oid =
     thenG (getPortNamespace (vs_maps s) port)
       (\<lambda>ns. Ret (buildTablePath ns db table oid (sepOf e db ns s) [] [] jKey []))"

lemma all_ports:
  assumes "ready s" and "hasSuffix key ''*''"
  shows "v2rEthPortStats e [db, table, key] s =
    (mapG (\<lambda>(port, oid). portPath e db table s (getVendorPortName (vs_maps s) port) port oid)
       (rangeOver (ve_rng e) (countersPortNameMap (vs_maps s))), s)"
  unfolding v2rEthPortStats_def portStats_def Let_def
  using assms by (auto simp: portTable_ready portPath_def intro!: mapS_pure)

lemma one_port:
  assumes "ready s" and "\<not> hasSuffix key ''*''" and "getSonicPortName (vs_maps s) key = port"
    and "map_of (countersPortNameMap (vs_maps s)) port = Some oid"
  shows "v2rEthPortStats e [db, table, key] s = (thenG (portPath e db table s [] port oid) (\<lambda>tp. Ret [tp]), s)"
  using assms
  by (cases "getPortNamespace (vs_maps s) port")
    (simp_all add: v2rEthPortStats_def portStats_def oidOf_def portTable_ready portPath_def)

lemma portPath_Ret:
  "portPath e db table s jKey port oid = Ret tp \<longleftrightarrow>
     (\<exists>ns. map_of (port2namespaceMap (vs_maps s)) port = Some ns \<and>
           tp = buildTablePath ns db table oid (sepOf e db ns s) [] [] jKey [])"
  by (auto simp: portPath_def thenG_Ret_iff getPortNamespace_def split: option.splits)

lemma buildTablePath_simps [simp]:
  "tableKey (buildTablePath ns db table key sep fld jt jk jf) = key"
  "dbNamespace (buildTablePath ns db table key sep fld jt jk jf) = ns"
  "jsonTableKey (buildTablePath ns db table key sep fld jt jk jf) = jk"
  "(buildTablePath ns db table key sep fld jt jk jf)\<lparr>jsonTableKey := jk'\<rparr> = buildTablePath ns db table key sep fld jt jk' jf"
  by (simp_all add: buildTablePath_def)

section \<open>Lemmas: names with a namespace\<close>

lemma split_namespace: "CHR ''-'' \<notin> set k \<Longrightarrow> split CHR ''-'' (k @ CHR ''-'' # ns) = k # split CHR ''-'' ns"
  by (induction k) auto

lemma split_plain: "c \<notin> set k \<Longrightarrow> split c k = [k]"
  by (induction k) auto

lemma nameNamespace_withNamespace:
  "CHR ''-'' \<notin> set k \<Longrightarrow> CHR ''-'' \<notin> set ns \<Longrightarrow> nameNamespace (withNamespace ns k) = ns"
  by (auto simp: nameNamespace_def withNamespace_def split_namespace split_plain)

lemma withNamespace_inj:
  assumes "CHR ''-'' \<notin> set k" "CHR ''-'' \<notin> set k'" "withNamespace ns k = withNamespace ns' k'"
  shows "k = k' \<and> ns = ns'"
proof -
  have "takeWhile (\<lambda>c. c \<noteq> CHR ''-'') (withNamespace ns k) = k" if "CHR ''-'' \<notin> set k" for ns k
  proof -
    have "\<forall>c\<in>set k. c \<noteq> CHR ''-''" using that by auto
    then show ?thesis by (simp add: withNamespace_def takeWhile_append2 takeWhile_eq_all_conv)
  qed
  with assms have "k = k'" by metis
  with assms(3) show ?thesis by (auto simp: withNamespace_def split: if_splits)
qed

text \<open>What one table contributes under its new names.\<close>

lemma renamed_map_of:
  fixes f :: "string \<Rightarrow> string"
  assumes "range_order rng" and "gomap_ok fv" and "\<And>k k'. k \<in> fst ` set fv \<Longrightarrow> k' \<in> fst ` set fv \<Longrightarrow> f k = f k' \<Longrightarrow> k = k'"
    and "map_of fv k = Some v"
  shows "map_of (foldl (\<lambda>a (k, v). AList.update (f k) v a) [] (rangeOver rng fv)) (f k) = Some v"
proof -
  let ?xs = "rangeOver rng fv"
  have xs: "gomap_ok ?xs" "set ?xs = set fv" by (rule rangeOver_ok rangeOver_set; fact)+
  have "foldl (\<lambda>a (k, v). AList.update (f k) v a) m ys = foldl (\<lambda>a (k, v). AList.update k v a) m (map (\<lambda>(k, v). (f k, v)) ys)"
    for m :: "'a gomap" and ys by (induction ys arbitrary: m) auto
  from this [of "[]" ?xs]
  have "map_of (foldl (\<lambda>a (k, v). AList.update (f k) v a) [] ?xs) = map_of (rev (map (\<lambda>(k, v). (f k, v)) ?xs))"
    by (simp only: map_of_foldl_update) simp
  moreover have "distinct (map fst (rev (map (\<lambda>(k, v). (f k, v)) ?xs)))"
  proof -
    have "inj_on f (set (map fst ?xs))" using assms(3) xs(2) by (auto intro!: inj_onI)
    then have "distinct (map f (map fst ?xs))" using xs(1) by (simp add: distinct_map del: map_map)
    moreover have "map fst (map (\<lambda>(k, v). (f k, v)) ?xs) = map f (map fst ?xs)" by auto
    ultimately show ?thesis by (metis distinct_rev rev_map)
  qed
  moreover have "(f k, v) \<in> set (rev (map (\<lambda>(k, v). (f k, v)) ?xs))"
    using map_of_SomeD [OF assms(4)] xs(2) by force
  ultimately show ?thesis by (simp only: map_of_is_SomeI)
qed

text \<open>Redis answers \<open>HGetAll\<close> with a map.\<close>

definition hgetallOk :: "('c, 'r) venv \<Rightarrow> 'r \<Rightarrow> bool" where
  "hgetallOk e r \<longleftrightarrow> (\<forall>c t fv. ve_HGetAll e c t r = Inr fv \<longrightarrow> gomap_ok fv)"

definition renamed :: "('c, 'r) venv \<Rightarrow> (string \<Rightarrow> string) \<Rightarrow> string gomap \<Rightarrow> string gomap" where
  "renamed e f fv = foldl (\<lambda>a (k, v). AList.update (f k) v a) [] (rangeOver (ve_rng e) fv)"

lemma renamed_ok: "gomap_ok (renamed e f fv)"
proof -
  have "gomap_ok m \<Longrightarrow> gomap_ok (foldl (\<lambda>a (k, v). AList.update (f k) v a) m xs)" for m :: "string gomap" and xs
    by (induction xs arbitrary: m) (auto simp: distinct_update)
  then show ?thesis by (simp add: renamed_def)
qed

lemma renamed_dom:
  assumes "range_order (ve_rng e)" and "gomap_ok fv"
  shows "fst ` set (renamed e f fv) = f ` fst ` set fv"
proof -
  have upd: "fst ` set (AList.update k v m) = insert k (fst ` set m)" for k v and m :: "string gomap"
    using arg_cong [OF update_keys [of k v m], of set] by (auto split: if_splits)
  have "fst ` set (foldl (\<lambda>a (k, v). AList.update (f k) v a) m xs) = fst ` set m \<union> f ` fst ` set xs" for m :: "string gomap" and xs
    by (induction xs arbitrary: m) (simp_all add: upd case_prod_beta)
  from this [of "[]"] show ?thesis by (simp add: renamed_def rangeOver_set [OF assms])
qed

lemma readTables_Cons:
  assumes "range_order (ve_rng e)" and "ve_HGetAll e c t r = Inr fv"
  shows "readTables e t f r ((ns, c) # cs) m = readTables e t f r cs (addmap (ve_rng e) m (renamed e (f ns) fv))"
  by (simp add: assms(2) renamed_def)

lemma readTables_keeps:
  assumes "readTables e t f r cs m0 = Ret m" and "range_order (ve_rng e)" and "hgetallOk e r"
    and "\<And>ns c fv k. (ns, c) \<in> set cs \<Longrightarrow> ve_HGetAll e c t r = Inr fv \<Longrightarrow> k \<in> fst ` set fv \<Longrightarrow> f ns k \<noteq> x"
  shows "map_of m x = map_of m0 x"
  using assms(1,4)
proof (induction cs arbitrary: m0)
  case (Cons nc cs)
  obtain ns c where nc: "nc = (ns, c)" by (cases nc)
  from Cons.prems(1) obtain fv where fv: "ve_HGetAll e c t r = Inr fv" by (auto simp: nc split: sum.splits)
  have "gomap_ok fv" using assms(3) fv unfolding hgetallOk_def by blast
  have "x \<notin> fst ` set (renamed e (f ns) fv)"
    using Cons.prems(2) [of ns c fv] fv by (auto simp: nc renamed_dom [OF assms(2) \<open>gomap_ok fv\<close>])
  then have "map_of (renamed e (f ns) fv) x = None" by (simp add: map_of_eq_None_iff)
  then have "map_of (addmap (ve_rng e) m0 (renamed e (f ns) fv)) x = map_of m0 x"
    by (simp add: addmap_map_of [OF assms(2) renamed_ok] map_add_def)
  moreover have "map_of m x = map_of (addmap (ve_rng e) m0 (renamed e (f ns) fv)) x"
  proof (rule Cons.IH)
    show "readTables e t f r cs (addmap (ve_rng e) m0 (renamed e (f ns) fv)) = Ret m"
      using Cons.prems(1) by (simp add: nc readTables_Cons [OF assms(2) fv] del: readTables.simps)
  qed (rule Cons.prems(2) [OF list.set_intros(2)])
  ultimately show ?case by simp
qed simp

lemma readTables_has:
  assumes "readTables e t f r cs m0 = Ret m" and "range_order (ve_rng e)" and "hgetallOk e r" and "distinct (map fst cs)"
    and inj: "\<And>ns c fv k ns' c' fv' k'. (ns, c) \<in> set cs \<Longrightarrow> ve_HGetAll e c t r = Inr fv \<Longrightarrow> k \<in> fst ` set fv \<Longrightarrow>
      (ns', c') \<in> set cs \<Longrightarrow> ve_HGetAll e c' t r = Inr fv' \<Longrightarrow> k' \<in> fst ` set fv' \<Longrightarrow> f ns k = f ns' k' \<Longrightarrow> k = k' \<and> ns = ns'"
    and "(ns, c) \<in> set cs" and "ve_HGetAll e c t r = Inr fv" and "map_of fv k = Some v"
  shows "map_of m (f ns k) = Some v"
  using assms(1,4-6)
proof (induction cs arbitrary: m0)
  case (Cons nc cs)
  obtain ns1 c1 where nc: "nc = (ns1, c1)" by (cases nc)
  from Cons.prems(1) obtain fv1 where fv1: "ve_HGetAll e c1 t r = Inr fv1" by (auto simp: nc split: sum.splits)
  let ?m1 = "addmap (ve_rng e) m0 (renamed e (f ns1) fv1)"
  have rest: "readTables e t f r cs ?m1 = Ret m"
    using Cons.prems(1) by (simp add: nc readTables_Cons [OF assms(2) fv1] del: readTables.simps)
  have k: "k \<in> fst ` set fv" using assms(8) by (metis domI dom_map_of_conv_image_fst)
  show ?case
  proof (cases "(ns, c) = nc")
    case True
    then have eq: "ns1 = ns" "c1 = c" "fv1 = fv" using nc fv1 assms(7) by auto
    have ok: "gomap_ok fv" using assms(3,7) unfolding hgetallOk_def by blast
    have "map_of (renamed e (f ns) fv) (f ns k) = Some v"
      unfolding renamed_def
      by (rule renamed_map_of [OF assms(2) ok _ assms(8)]) (use Cons.prems(3) [of ns c fv _ ns c fv] True assms(7) in auto)
    then have "map_of ?m1 (f ns k) = Some v"
      by (simp add: eq addmap_map_of [OF assms(2) renamed_ok])
    moreover have "map_of m (f ns k) = map_of ?m1 (f ns k)"
    proof (rule readTables_keeps [OF rest assms(2,3)])
      fix ns' c' fv' k'
      assume a: "(ns', c') \<in> set cs" "ve_HGetAll e c' t r = Inr fv'" "k' \<in> fst ` set fv'"
      have "ns' \<noteq> ns" using Cons.prems(2) a(1) True by force
      then show "f ns' k' \<noteq> f ns k" using Cons.prems(3) [of ns' c' fv' k' ns c fv k] a True assms(7) k by auto
    qed
    ultimately show ?thesis by simp
  next
    case False
    show ?thesis
    proof (rule Cons.IH [OF rest])
      show "distinct (map fst cs)" using Cons.prems(2) by simp
      show "(ns, c) \<in> set cs" using Cons.prems(4) False by simp
    qed (rule Cons.prems(3) [OF list.set_intros(2) _ _ list.set_intros(2)])
  qed
qed simp

lemma clients_ok: "GetRedisClientsForDb e target s = (Ret clients, s') \<Longrightarrow> gomap_ok clients"
proof -
  have "gomap_ok m \<Longrightarrow> gomap_ok (foldl (\<lambda>m ns. case redisDb s ns target of None \<Rightarrow> m | Some c \<Rightarrow> AList.update ns c m) m nss)" for m nss
    by (induction nss arbitrary: m) (auto simp: distinct_update split: option.split)
  from this [of "[]"] show "GetRedisClientsForDb e target s = (Ret clients, s') \<Longrightarrow> gomap_ok clients"
    by (auto simp: GetRedisClientsForDb_def Let_def split: prod.splits option.splits bool.splits)
qed

section \<open>An example\<close>

text \<open>Two ports, one with a vendor name; redis answers from a list of hashes.\<close>

definition swssOne :: "unit swss" where
  "swssOne =
     \<lparr>sw_stat = (\<lambda>_. False), sw_IsGlobalInit = (\<lambda>_. True), sw_InitializeGlobalConfig = (\<lambda>l. (None, l)),
      sw_IsInit = (\<lambda>_. True), sw_Initialize = (\<lambda>l. (None, l)), sw_Reset = (\<lambda>l. (None, l)),
      sw_GetNamespaces = (\<lambda>_. Inr [[]]), sw_GetDbKeys = (\<lambda>_. Inr [defaultKey]), sw_GetDbList = (\<lambda>_ _. Inr [''COUNTERS_DB'']),
      sw_GetSeparator = (\<lambda>_ _ _. Inr '':''), sw_GetDbId = (\<lambda>_ _ _. Inr 2), sw_GetDbSock = (\<lambda>_ _ _. Inr ''redis.sock''),
      sw_GetDbHostname = (\<lambda>_ _ _. Inr ''localhost''), sw_GetDbPort = (\<lambda>_ _ _. Inr 6379)\<rparr>"

definition venvEx :: "(unit, string gomap gomap option) venv" where
  "venvEx =
     \<lparr>ve_swss = swssOne, ve_Ping = (\<lambda>_ r. if r = None then Some ''down'' else None),
      ve_Keys = (\<lambda>_ pattern r. case r of None \<Rightarrow> Inl ''down'' | Some db \<Rightarrow> Inr (filter (\<lambda>k. hasPrefix k (butlast pattern)) (map fst db))),
      ve_Exists = (\<lambda>_ k r. case r of None \<Rightarrow> Inl ''down'' | Some db \<Rightarrow> Inr (k \<in> set (map fst db))),
      ve_HExists = (\<lambda>_ k f r. case r of None \<Rightarrow> Inl ''down'' | Some db \<Rightarrow> Inr (Option.bind (map_of db k) (\<lambda>h. map_of h f) \<noteq> None)),
      ve_HGet = (\<lambda>_ k f r. case r of None \<Rightarrow> HErr ''down''
                  | Some db \<Rightarrow> (case Option.bind (map_of db k) (\<lambda>h. map_of h f) of None \<Rightarrow> HNil | Some v \<Rightarrow> HVal v)),
      ve_HGetAll = (\<lambda>_ k r. case r of None \<Rightarrow> Inl ''down'' | Some db \<Rightarrow> Inr (case map_of db k of None \<Rightarrow> [] | Some h \<Rightarrow> h)),
      ve_rng = (\<lambda>ks. ks), ve_unitTest = False\<rparr>"

definition vstateEx :: "unit vstate" where
  "vstateEx =
     \<lparr>vs_cfg = \<lparr>sonic_db_init = True, dbc_lib = ()\<rparr>, vs_maps = noMaps,
      Target2RedisDb = [([], [(''COUNTERS_DB'', (''redis.sock'', 2)), (''CONFIG_DB'', (''redis.sock'', 4))])]\<rparr>"

definition portsEx :: "unit vstate" where
  "portsEx =
     setMaps (\<lambda>v. v\<lparr>countersPortNameMap := [(''Ethernet0'', ''oid:1''), (''Ethernet4'', ''oid:2'')],
                  alias2nameMap := [(''etp1'', ''Ethernet0'')], name2aliasMap := [(''Ethernet0'', ''etp1'')],
                  port2namespaceMap := [(''Ethernet0'', []), (''Ethernet4'', [])]\<rparr>) vstateEx"

lemma range_order_same: "range_order (\<lambda>ks. ks)"
  by (simp add: range_order_def)

lemma lookupV2R_spec:
  assumes "range_order (ve_rng e)" and "[] \<notin> set keys"
  shows "lookupV2R e keys s =
    (case v2rSpec keys of Some f \<Rightarrow> transFunc e f keys s | None \<Rightarrow> (Err (Plain ''not found in virtual path tree''), s))"
proof -
  have "\<forall>(p, f) \<in> set pathTransFuncTbl. [] \<notin> set p" by code_simp
  then have "stands (root v2rTrie) pathTransFuncTbl" unfolding v2rTrie_def by (rule stands_populate)
  from stands_find [OF this assms(2,1)] have "Trie_Find (ve_rng e) v2rTrie keys = v2rSpec keys"
    by (simp add: Trie_Find_def match_v2r [OF assms(1)])
  then show ?thesis by (simp add: lookupV2R_def split: option.split)
qed

section \<open>Properties\<close>

text \<open>
  C32. The trie of virtual paths leads every path without empty names to the function that its table, key and field call
  for, in whatever order Go visits the wildcards, and to an error when there is none: keys of Ethernet ports, fabric
  ports, switches, SIDs and ACL rules are told apart by their prefixes, and the queues and the PFC watchdog of a port
  are taken before the fields with the same name.
\<close>

theorem v2r_dispatch:
  assumes "range_order (ve_rng e)" and "[] \<notin> set keys"
  shows "lookupV2R e keys s =
    (case v2rSpec keys of Some f \<Rightarrow> transFunc e f keys s | None \<Rightarrow> (Err (Plain ''not found in virtual path tree''), s))"
  by (rule lookupV2R_spec [OF assms])

theorem v2r_dispatch_witness:
  "lookupV2R venvEx [''COUNTERS_DB'', ''COUNTERS'', ''Ethernet0'', ''Pfcwd''] vstateEx =
     v2rEthPortPfcwdStats venvEx [''COUNTERS_DB'', ''COUNTERS'', ''Ethernet0'', ''Pfcwd''] vstateEx"
proof -
  have "range_order (ve_rng venvEx)" by (simp add: venvEx_def range_order_same)
  from v2r_dispatch [OF this, of "[''COUNTERS_DB'', ''COUNTERS'', ''Ethernet0'', ''Pfcwd'']" vstateEx] show ?thesis
    by (simp add: v2rSpec_def hasPrefix_def transFunc_def)
qed



text \<open>
  C34. A failed read of a map is final: when the first initialisation of the port names fails, every later one succeeds
  without reading anything, whatever redis holds by then, the map stays empty, and queries for all ports succeed with no
  data at all.
\<close>

theorem init_failure_is_final:
  assumes "initCountersPortNameMap e r s = (Err err, s1)" and "range_order (ve_rng e')" and "hasSuffix key ''*''"
  shows "initCountersPortNameMap e' r' s1 = (Ret (), s1) \<and> v2rEthPortStats e' [db, table, key] s1 = (Ret [], s1)"
proof -
  have s1: "portOnce (vs_maps s1)" "countersPortNameMap (vs_maps s1) = []"
    using assms(1) by (auto simp: initCountersPortNameMap_def initOnce_def setMaps_def split: if_splits prod.splits go.splits)
  moreover have "rangeOver (ve_rng e') ([] :: string gomap) = []"
    using rng_Nil [OF assms(2)] by (simp add: rangeOver_def map_filter_simps)
  ultimately show ?thesis using assms(3)
    by (simp add: initCountersPortNameMap_def initOnce_def v2rEthPortStats_def portStats_def)
qed

theorem init_failure_is_final_witness:
  "\<exists>s1. initCountersPortNameMap venvEx None vstateEx = (Err (Plain ''down''), s1) \<and>
        initCountersPortNameMap venvEx (Some [(''COUNTERS_PORT_NAME_MAP'', [(''Ethernet0'', ''oid:1'')])]) s1 = (Ret (), s1) \<and>
        v2rEthPortStats venvEx [''COUNTERS_DB'', ''COUNTERS'', ''Ethernet*''] s1 = (Ret [], s1)"
proof -
  have "fst (initCountersPortNameMap venvEx None vstateEx) = Err (Plain ''down'')" by code_simp
  then obtain s1 where s1: "initCountersPortNameMap venvEx None vstateEx = (Err (Plain ''down''), s1)" by (metis prod.collapse)
  have star: "hasSuffix ''Ethernet*'' ''*''" by code_simp
  have rng: "range_order (ve_rng venvEx)" by (simp add: venvEx_def range_order_same)
  from init_failure_is_final [OF s1 rng star] s1 show ?thesis by blast
qed

text \<open>
  C35. Fabric ports of several ASICs keep their namespaces: after the map of fabric ports was read, the port of a namespace
  is found under its name with the namespace appended, with its object identifier and in the database of its namespace,
  when neither port names nor the namespace contain a minus sign.
\<close>

theorem fabric_port_found:
  assumes "range_order (ve_rng e)" and "hgetallOk e r" and "\<not> fabricOnce (vs_maps s)"
    and "initCountersFabricPortNameMap e r s = (Ret (), s1)"
    and "GetRedisClientsForDb e ''COUNTERS_DB'' s = (Ret clients, s0)"
    and "\<forall>(ns, c) \<in> set clients. \<forall>fv. ve_HGetAll e c ''COUNTERS_FABRIC_PORT_NAME_MAP'' r = Inr fv \<longrightarrow>
           (\<forall>k \<in> fst ` set fv. CHR ''-'' \<notin> set k)"
    and "(ns, c) \<in> set clients" and "CHR ''-'' \<notin> set ns"
    and "ve_HGetAll e c ''COUNTERS_FABRIC_PORT_NAME_MAP'' r = Inr fv" and "map_of fv port = Some oid"
    and "\<not> hasSuffix (withNamespace ns port) ''*''"
  shows "\<exists>tp s2. v2rFabricPortStats e [db, table, withNamespace ns port] s1 = (Ret [tp], s2) \<and>
           dbNamespace tp = ns \<and> tableKey tp = oid \<and> dbName tp = db \<and> tableName tp = table"
proof -
  let ?cs = "rangeOver (ve_rng e) clients"
  have cs: "set ?cs = set clients" "gomap_ok ?cs"
    using rangeOver_set [OF assms(1)] rangeOver_ok [OF assms(1)] clients_ok [OF assms(5)] by auto
  from assms(3,4,5) obtain m where m: "readTables e ''COUNTERS_FABRIC_PORT_NAME_MAP'' withNamespace r ?cs [] = Ret m"
    "countersFabricPortNameMap (vs_maps s1) = m"
    by (auto simp: initCountersFabricPortNameMap_def initOnce_def GetFabricCountersMap_def countersMap_def setMaps_def
        split: go.splits prod.splits)
  have nodash: "CHR ''-'' \<notin> set k"
    if "(ns', c') \<in> set ?cs" "ve_HGetAll e c' ''COUNTERS_FABRIC_PORT_NAME_MAP'' r = Inr fv'" "k \<in> fst ` set fv'" for ns' c' fv' k
    using assms(6) that cs(1) by fastforce
  have "map_of m (withNamespace ns port) = Some oid"
  proof (rule readTables_has [OF m(1) assms(1,2) cs(2) _ _ assms(9,10)])
    show "(ns, c) \<in> set ?cs" using assms(7) cs(1) by simp
  qed (rule withNamespace_inj; (erule (2) nodash | assumption))
  moreover have "CHR ''-'' \<notin> set port"
    by (rule nodash [OF _ assms(9)]) (use assms(7,10) cs(1) in \<open>auto simp: rev_image_eqI dest: map_of_SomeD\<close>)
  ultimately show ?thesis
    using assms(8,11) m(2)
    by (auto simp: v2rFabricPortStats_def namedStats_def oidOf_def onTable_def nameNamespace_withNamespace buildTablePath_def
        split: prod.split)
qed

theorem fabric_port_found_witness:
  "\<exists>tp s1 s2. initCountersFabricPortNameMap venvEx (Some [(''COUNTERS_FABRIC_PORT_NAME_MAP'', [(''PORT0'', ''oid:9'')])]) vstateEx = (Ret (), s1) \<and>
     v2rFabricPortStats venvEx [''COUNTERS_DB'', ''COUNTERS'', ''PORT0''] s1 = (Ret [tp], s2) \<and> tableKey tp = ''oid:9''"
proof -
  let ?r = "Some [(''COUNTERS_FABRIC_PORT_NAME_MAP'', [(''PORT0'', ''oid:9'')])]" and ?c = "(''redis.sock'', 2 :: int)"
  have "fst (initCountersFabricPortNameMap venvEx ?r vstateEx) = Ret ()" by code_simp
  then obtain s1 where s1: "initCountersFabricPortNameMap venvEx ?r vstateEx = (Ret (), s1)" by (metis prod.collapse)
  have "fst (GetRedisClientsForDb venvEx ''COUNTERS_DB'' vstateEx) = Ret [([], ?c)]" by code_simp
  then obtain s0 where s0: "GetRedisClientsForDb venvEx ''COUNTERS_DB'' vstateEx = (Ret [([], ?c)], s0)" by (metis prod.collapse)
  have ok: "hgetallOk venvEx ?r" by (auto simp: hgetallOk_def venvEx_def)
  have rng: "range_order (ve_rng venvEx)" by (simp add: venvEx_def range_order_same)
  have hget: "ve_HGetAll venvEx ?c ''COUNTERS_FABRIC_PORT_NAME_MAP'' ?r = Inr [(''PORT0'', ''oid:9'')]" by code_simp
  have name: "withNamespace [] ''PORT0'' = ''PORT0''" "\<not> hasSuffix (withNamespace [] ''PORT0'') ''*''" "\<not> fabricOnce (vs_maps vstateEx)"
    by code_simp+
  have "\<exists>tp s2. v2rFabricPortStats venvEx [''COUNTERS_DB'', ''COUNTERS'', withNamespace [] ''PORT0''] s1 = (Ret [tp], s2) \<and>
      dbNamespace tp = [] \<and> tableKey tp = ''oid:9'' \<and> dbName tp = ''COUNTERS_DB'' \<and> tableName tp = ''COUNTERS''"
    by (rule fabric_port_found [OF rng ok name(3) s1 s0 _ _ _ hget _ name(2)]) (use hget in auto)
  with s1 name(1) show ?thesis by auto
qed


end
