(* ===== verification/Db_Client.thy ===== *)
theory Db_Client
  imports Virtual_Db Json_Client Gnmi_Server "HOL-Library.Multiset"
begin

text \<open>
  The data client of the redis databases (\<^verbatim>\<open>sonic_data_client/db_client.go\<close>): finding the tables of a path, reading
  them, Get, and the two poll loops. Redis is the parameter of \<^verbatim>\<open>Virtual_Db\<close>; a read sees one state of it.

  A message on the queue is a record of the fields of \<open>spb.Value\<close> that are set. The clock is a list of readings: each
  message takes the next one, and 0 when there is none. The keys of \<open>pathG2S\<close> are pointers, so each path of a request
  is an entry of its own, and the map is the list of its entries; the order of \<open>range\<close> over it is an argument.
\<close>

section \<open>Messages\<close>

record QValue =
  qv_Prefix :: "Path option"
  qv_Path :: "Path option"
  qv_Timestamp :: int
  qv_Val :: TypedValue
  qv_SyncResponse :: bool
  qv_Fatal :: string
  qv_Delete :: "Path option list"
  qv_Notification :: "Notification option"

definition zeroValue :: QValue where
  "zeroValue =
     \<lparr>qv_Prefix = None, qv_Path = None, qv_Timestamp = 0, qv_Val = NilVal, qv_SyncResponse = False, qv_Fatal = [],
      qv_Delete = [], qv_Notification = None\<rparr>"

definition Value_GetTimestamp :: "QValue \<Rightarrow> int" where
  "Value_GetTimestamp v = (case qv_Notification v of Some n \<Rightarrow> n_Timestamp n | None \<Rightarrow> qv_Timestamp v)"

definition Value_Compare :: "QValue \<Rightarrow> QValue \<Rightarrow> int" where
  "Value_Compare v w =
     (if Value_GetTimestamp v > Value_GetTimestamp w then 1
      else if Value_GetTimestamp v = Value_GetTimestamp w then 0
      else -1)"

datatype SubscribeResponse =
    SyncResp
  | UpdateResp int "Path option" "Update list" "Path option list"
  | NotificationResp Notification

definition ValToResp :: "QValue \<Rightarrow> string + SubscribeResponse" where
  "ValToResp v =
     (if qv_SyncResponse v then Inr SyncResp
      else if qv_Fatal v \<noteq> [] then Inl (qv_Fatal v)
      else
        (case qv_Notification v of
           Some n \<Rightarrow> Inr (NotificationResp n)
         | None \<Rightarrow>
             if qv_Delete v \<noteq> [] then Inr (UpdateResp (Value_GetTimestamp v) (qv_Prefix v) [] (qv_Delete v))
             else
               Inr (UpdateResp (Value_GetTimestamp v) (qv_Prefix v) [\<lparr>upd_path = qv_Path v, upd_val = qv_Val v\<rparr>] [])))"

definition syncMsg :: "int \<Rightarrow> QValue" where
  "syncMsg t = zeroValue\<lparr>qv_Timestamp := t, qv_SyncResponse := True\<rparr>"

definition updateMsg :: "Path option \<Rightarrow> Path option \<Rightarrow> TypedValue \<Rightarrow> int \<Rightarrow> QValue" where
  "updateMsg prefix path v t = zeroValue\<lparr>qv_Prefix := prefix, qv_Path := path, qv_Timestamp := t, qv_Val := v\<rparr>"

definition deleteMsg :: "Path option \<Rightarrow> Path option \<Rightarrow> int \<Rightarrow> QValue" where
  "deleteMsg prefix path t =
     zeroValue\<lparr>qv_Prefix := prefix, qv_Timestamp := t, qv_Val := StringVal [],
       qv_Delete := [path]\<rparr>"

definition putFatalMsg :: "string \<Rightarrow> int \<Rightarrow> QValue" where
  "putFatalMsg msg t = zeroValue\<lparr>qv_Timestamp := t, qv_Fatal := msg\<rparr>"

section \<open>Clients\<close>

text \<open>One client for every database that has an address; \<open>OTHERS\<close> is none. Databases without an address are skipped.\<close>

fun clientsOf ::
  "(string \<Rightarrow> 'c dbconfig \<Rightarrow> string \<times> string option \<times> 'c dbconfig) \<Rightarrow> (string \<times> int) list \<Rightarrow> redis_client gomap
   \<Rightarrow> 'c dbconfig \<Rightarrow> redis_client gomap \<times> 'c dbconfig" where
  "clientsOf addrOf [] m cfg = (m, cfg)"
| "clientsOf addrOf ((db, dbn) # dbs) m cfg =
     (if db = ''OTHERS'' then clientsOf addrOf dbs m cfg
      else
        (case addrOf db cfg of
           (_, Some _, cfg1) \<Rightarrow> clientsOf addrOf dbs m cfg1
         | (addr, None, cfg1) \<Rightarrow> clientsOf addrOf dbs (AList.update db (addr, dbn) m) cfg1))"

fun clientsOfNamespaces ::
  "('c, 'r) venv \<Rightarrow> (string \<Rightarrow> string \<Rightarrow> 'c dbconfig \<Rightarrow> string \<times> string option \<times> 'c dbconfig) \<Rightarrow> string list \<Rightarrow> 'c vstate \<Rightarrow> 'c vstate" where
  "clientsOfNamespaces e addrOf [] s = s"
| "clientsOfNamespaces e addrOf (ns # nss) s =
     (case clientsOf (\<lambda>db. addrOf db ns) (rangeOver (ve_rng e) Target_value) [] (vs_cfg s) of
        (m, cfg) \<Rightarrow>
          clientsOfNamespaces e addrOf nss ((setVCfg cfg s)\<lparr>Target2RedisDb := AList.update ns m (Target2RedisDb s)\<rparr>))"

definition initRedisDbClients :: "('c, 'r) venv \<Rightarrow> 'c vstate \<Rightarrow> 'c vstate" where
  "initRedisDbClients e s =
     (case GetDbAllNamespaces (ve_swss e) (vs_cfg s) of
        (_, Some _, cfg) \<Rightarrow> setVCfg cfg s
      | (nss, None, cfg) \<Rightarrow> clientsOfNamespaces e (GetDbSock (ve_swss e)) nss (setVCfg cfg s))"

definition useRedisTcpClient :: "('c, 'r) venv \<Rightarrow> bool \<Rightarrow> 'c vstate \<Rightarrow> 'c vstate" where
  "useRedisTcpClient e useRedisLocalTcpPort s =
     (if \<not> useRedisLocalTcpPort then s
      else
        (case GetDbAllNamespaces (ve_swss e) (vs_cfg s) of
           (_, Some _, cfg) \<Rightarrow> setVCfg cfg s
         | (nss, None, cfg) \<Rightarrow> clientsOfNamespaces e (GetDbTcpAddr (ve_swss e)) nss (setVCfg cfg s)))"

section \<open>Paths\<close>

definition IsTargetDb :: "('c, 'r) venv \<Rightarrow> string \<Rightarrow> 'c vstate \<Rightarrow> (string \<times> bool \<times> string \<times> bool) \<times> 'c vstate" where
  "IsTargetDb e target s =
     (case CheckDbMultiNamespace (ve_swss e) (vs_cfg s) of
        (isMultiNamespace, _, cfg) \<Rightarrow>
          (let targetname = split CHR ''/'' target; db = hd targetname;
               nsExist = (isMultiNamespace \<and> length targetname > 1)
           in (if length targetname > 2 then (db, False, GetDbDefaultNamespace, False)
               else (db, db \<in> set (map fst Target_value), if nsExist then targetname ! 1 else GetDbDefaultNamespace, nsExist),
               setVCfg cfg s)))"

text \<open>A path without elements has none, whatever the prefix has.\<close>

definition fullElems :: "Path option \<Rightarrow> Path \<Rightarrow> PathElem list" where
  "fullElems prefix path = (if path_elem path = [] then [] else pathElems prefix @ path_elem path)"

text \<open>The maps a path of COUNTERS\_DB needs: four must be there, an error of the others is only logged.\<close>

definition logged :: "unit go \<times> 's \<Rightarrow> unit go \<times> 's" where
  "logged r = (case r of (Crash, s) \<Rightarrow> (Crash, s) | (_, s) \<Rightarrow> (Ret (), s))"

definition initMaps :: "('c, 'r) venv \<Rightarrow> 'r \<Rightarrow> 'c vstate \<Rightarrow> unit go \<times> 'c vstate" where
  "initMaps e r s =
     bindG (initCountersPortNameMap e r s) (\<lambda>_ s.
     bindG (initCountersQueueNameMap e r s) (\<lambda>_ s.
     bindG (initCountersPGNameMap e r s) (\<lambda>_ s.
     bindG (initAliasMap e r s) (\<lambda>_ s.
     bindG (logged (initCountersPfcwdNameMap e r s)) (\<lambda>_ s.
     bindG (logged (initCountersFabricPortNameMap e r s)) (\<lambda>_ s.
     bindG (logged (initDebugNameSwitchStatMap e r s)) (\<lambda>_ s.
     bindG (logged (initCountersSidMap e r s)) (\<lambda>_ s.
     logged (initCountersAclRuleMap e r s)))))))))"

definition exists1 :: "string + bool \<Rightarrow> bool go" where
  "exists1 r = (case r of Inl _ \<Rightarrow> Err (Plain ''redis Exists op failed for'') | Inr b \<Rightarrow> Ret b)"

text \<open>What the elements after the table are: a key, a field, a key of two parts, or a key and a field.\<close>

definition placeKey :: "('c, 'r) venv \<Rightarrow> redis_client \<Rightarrow> 'r \<Rightarrow> tablePath \<Rightarrow> string list \<Rightarrow> tablePath go" where
  "placeKey e c r tp elems =
     (case elems of
        [t] \<Rightarrow>
          (case ve_Keys e c (t @ ''*'') r of
             Inl _ \<Rightarrow> Err (Plain ''redis Keys op failed for'')
           | Inr _ \<Rightarrow> Ret (tp\<lparr>tableKey := []\<rparr>))
      | [t, k] \<Rightarrow>
          thenG (exists1 (ve_Exists e c (t @ delimitor tp @ k) r))
            (\<lambda>keyExists.
               if keyExists then Ret (tp\<lparr>tableKey := k\<rparr>)
               else if dbName tp = ''APPL_DB'' then
                 (case ve_HExists e c t k r of
                    Inl _ \<Rightarrow> Err (Plain ''redis HExists op failed for'')
                  | Inr fieldExists \<Rightarrow> Ret (if fieldExists then tp\<lparr>field := k\<rparr> else tp\<lparr>tableKey := k\<rparr>))
               else Ret (tp\<lparr>field := k\<rparr>))
      | [t, k, f] \<Rightarrow>
          (let key = k @ delimitor tp @ f in
           thenG (exists1 (ve_Exists e c (t @ delimitor tp @ key) r))
             (\<lambda>keyExists. Ret (if keyExists then tp\<lparr>tableKey := key\<rparr> else tp\<lparr>tableKey := k, field := f\<rparr>)))
      | [t, k, k2, f] \<Rightarrow> Ret (tp\<lparr>tableKey := k @ delimitor tp @ k2, field := f\<rparr>)
      | _ \<Rightarrow> Err (Plain ''Invalid db table Path''))"

definition checkKey :: "('c, 'r) venv \<Rightarrow> redis_client \<Rightarrow> 'r \<Rightarrow> tablePath \<Rightarrow> tablePath go" where
  "checkKey e c r tp =
     (if dbName tp \<noteq> ''APPL_DB'' \<and> tableKey tp \<noteq> [] \<and>
         ve_Exists e c (tableName tp @ delimitor tp @ tableKey tp) r \<noteq> Inr True
      then Err (Plain ''No valid entry found on'')
      else Ret tp)"

definition populateDbtablePath ::
  "('c, 'r) venv \<Rightarrow> Path option \<Rightarrow> Path option \<Rightarrow> 'r \<Rightarrow> 'c vstate \<Rightarrow> tablePath list go \<times> 'c vstate" where
  "populateDbtablePath e prefix path r s =
     (case IsTargetDb e (case prefix of None \<Rightarrow> [] | Some p \<Rightarrow> path_target p) s of
        ((db, valid, targetNs, nsExist), s0) \<Rightarrow>
          if \<not> valid then (Err (Plain ''Invalid target dbName''), s0)
          else
            (case GetDbNamespaceFromTarget (ve_swss e) targetNs (vs_cfg s0) of
               ((_, _, Some _), cfg) \<Rightarrow> (Err (Plain ''Failed to get namespace''), setVCfg cfg s0)
             | ((_, False, None), cfg) \<Rightarrow> (Err (Plain ''Invalid target dbNameSpace''), setVCfg cfg s0)
             | ((ns, True, None), cfg) \<Rightarrow>
                 bindG (if db = ''COUNTERS_DB'' then initMaps e r (setVCfg cfg s0) else (Ret (), setVCfg cfg s0))
                   (\<lambda>_ s1.
                      case path of
                        None \<Rightarrow> (Crash, s1)
                      | Some p \<Rightarrow>
                          (case separatorOf e db ns s1 of
                             (sep, s2) \<Rightarrow>
                               (let elems = map elem_name (fullElems prefix p) in
                                case lookupV2R e (db # elems) s2 of
                                  (Ret tps, s3) \<Rightarrow>
                                    (if nsExist then (Err (Plain ''namespace is not supported for V2R Dataset''), s3)
                                     else (Ret tps, s3))
                                | (Crash, s3) \<Rightarrow> (Crash, s3)
                                | (Err _, s3) \<Rightarrow>
                                    (case redisDb s3 ns db of
                                       None \<Rightarrow> (Err (Plain ''Redis Client not present for dbName''), s3)
                                     | Some c \<Rightarrow>
                                         (thenG (placeKey e c r
                                            (zeroPath\<lparr>dbNamespace := ns, dbName := db,
                                               tableName := (case elems of [] \<Rightarrow> [] | t # _ \<Rightarrow> t), delimitor := sep\<rparr>) elems)
                                            (\<lambda>tp. thenG (checkKey e c r tp) (\<lambda>tp. Ret [tp])), s3)))))))"

type_synonym pathG2S = "(Path option \<times> tablePath list) list"

definition populateAllDbtablePath ::
  "('c, 'r) venv \<Rightarrow> Path option \<Rightarrow> Path option list \<Rightarrow> 'r \<Rightarrow> 'c vstate \<Rightarrow> pathG2S go \<times> 'c vstate" where
  "populateAllDbtablePath e prefix paths r s =
     mapS (\<lambda>p s. bindG (populateDbtablePath e prefix p r s) (\<lambda>tps s1. (Ret (p, tps), s1))) paths s"

record DbClient =
  dc_prefix :: "Path option"
  dc_pathG2S :: pathG2S

definition NewDbClient ::
  "('c, 'r) venv \<Rightarrow> bool \<Rightarrow> Path option list \<Rightarrow> Path option \<Rightarrow> 'r \<Rightarrow> 'c vstate \<Rightarrow> DbClient go \<times> 'c vstate" where
  "NewDbClient e useRedisLocalTcpPort paths prefix r s =
     bindG (populateAllDbtablePath e prefix paths r (useRedisTcpClient e useRedisLocalTcpPort s))
       (\<lambda>m s1. (Ret \<lparr>dc_prefix = prefix, dc_pathG2S = m\<rparr>, s1))"

section \<open>Reading\<close>

definition strings :: "(string list \<Rightarrow> string list) \<Rightarrow> string gomap \<Rightarrow> json gomap" where
  "strings rng mfv = foldl (\<lambda>m (f, v). AList.update f (JStr v) m) [] (rangeOver rng mfv)"

definition DbClient_makeJSON_redis ::
  "(string list \<Rightarrow> string list) \<Rightarrow> json gomap \<Rightarrow> string option \<Rightarrow> string option \<Rightarrow> string gomap \<Rightarrow> json gomap" where
  "DbClient_makeJSON_redis rng msi key op mfv =
     (case (key, op) of
        (None, None) \<Rightarrow> foldl (\<lambda>m (f, v). AList.update f (JStr v) m) msi (rangeOver rng mfv)
      | (None, Some o') \<Rightarrow> AList.update o' (JObj (strings rng mfv)) msi
      | (Some k, None) \<Rightarrow> AList.update k (JObj (strings rng mfv)) msi
      | (Some k, Some o') \<Rightarrow> AList.update k (JObj [(o', JObj (strings rng mfv))]) msi)"

text \<open>
  The fields of one hash, under the name for the JSON data, without a key, or under the second part of its redis key.
\<close>

definition hashToMsi ::
  "('c, 'r) venv \<Rightarrow> tablePath \<Rightarrow> bool \<Rightarrow> string option \<Rightarrow> string \<Rightarrow> string gomap \<Rightarrow> json gomap \<Rightarrow> json gomap go" where
  "hashToMsi e tp useKey op dbkey fv msi =
     (if jsonTableKey tp \<noteq> [] then Ret (DbClient_makeJSON_redis (ve_rng e) msi (Some (jsonTableKey tp)) op fv)
      else if tableKey tp \<noteq> [] \<and> \<not> useKey \<or> tableName tp = dbkey
      then Ret (DbClient_makeJSON_redis (ve_rng e) msi None op fv)
      else
        (case splitN2 dbkey (delimitor tp) of
           _ # key # _ \<Rightarrow> Ret (DbClient_makeJSON_redis (ve_rng e) msi (Some key) op fv)
         | _ \<Rightarrow> Err (Plain ''failed split from delimitor'')))"

fun hashesToMsi ::
  "('c, 'r) venv \<Rightarrow> redis_client \<Rightarrow> 'r \<Rightarrow> tablePath \<Rightarrow> bool \<Rightarrow> string option \<Rightarrow> string list \<Rightarrow> json gomap \<Rightarrow> json gomap go" where
  "hashesToMsi e c r tp useKey op [] msi = Ret msi"
| "hashesToMsi e c r tp useKey op (dbkey # dbkeys) msi =
     (case ve_HGetAll e c dbkey r of
        Inl err \<Rightarrow> Err (Plain err)
      | Inr fv \<Rightarrow> thenG (hashToMsi e tp useKey op dbkey fv msi) (hashesToMsi e c r tp useKey op dbkeys))"

text \<open>Calls on a client that is not there dereference a nil pointer.\<close>

definition TableData2Msi ::
  "('c, 'r) venv \<Rightarrow> tablePath \<Rightarrow> bool \<Rightarrow> string option \<Rightarrow> json gomap \<Rightarrow> 'r \<Rightarrow> 'c vstate \<Rightarrow> json gomap go" where
  "TableData2Msi e tp useKey op msi r s =
     (case redisDb s (dbNamespace tp) (dbName tp) of
        None \<Rightarrow> Crash
      | Some c \<Rightarrow>
          (case (if tableKey tp = [] then
                   ve_Keys e c
                     (if dbName tp = ''COUNTERS_DB'' \<and> \<not> countersDbHasTableKeys (tableName tp) then tableName tp
                      else tableName tp @ delimitor tp @ ''*'') r
                 else Inr [tableName tp @ delimitor tp @ tableKey tp]) of
             Inl _ \<Rightarrow> Err (Plain ''redis Keys failed for'')
           | Inr dbkeys \<Rightarrow>
               if jsonField tp \<noteq> [] \<and> jsonTableKey tp \<noteq> [] then
                 (case dbkeys of
                    [] \<Rightarrow> Crash
                  | key # _ \<Rightarrow>
                      (case ve_HGet e c key (field tp) r of
                         HVal v \<Rightarrow>
                           Ret (DbClient_makeJSON_redis (ve_rng e) msi (Some (jsonTableKey tp)) op [(jsonField tp, v)])
                       | _ \<Rightarrow> Ret msi))
               else hashesToMsi e c r tp useKey op dbkeys msi))"

text \<open>For APPL\_DB: keys without data are left out, and the names for the JSON data are not used.\<close>

definition appHashToMsi ::
  "('c, 'r) venv \<Rightarrow> tablePath \<Rightarrow> bool \<Rightarrow> string option \<Rightarrow> string \<Rightarrow> string gomap \<Rightarrow> json gomap \<Rightarrow> json gomap go" where
  "appHashToMsi e tp useKey op dbkey fv msi =
     (if tableKey tp \<noteq> [] \<and> \<not> useKey \<or> tableName tp = dbkey
      then Ret (DbClient_makeJSON_redis (ve_rng e) msi None op fv)
      else
        (case splitN2 dbkey (delimitor tp) of
           _ # key # _ \<Rightarrow> Ret (DbClient_makeJSON_redis (ve_rng e) msi (Some key) op fv)
         | _ \<Rightarrow> Err (Plain ''failed split from delimitor'')))"

fun appHashesToMsi ::
  "('c, 'r) venv \<Rightarrow> redis_client \<Rightarrow> 'r \<Rightarrow> tablePath \<Rightarrow> bool \<Rightarrow> string option \<Rightarrow> string list \<Rightarrow> json gomap \<Rightarrow> json gomap go" where
  "appHashesToMsi e c r tp useKey op [] msi = Ret msi"
| "appHashesToMsi e c r tp useKey op (dbkey # dbkeys) msi =
     (case ve_HGetAll e c dbkey r of
        Inl err \<Rightarrow> Err (Plain err)
      | Inr [] \<Rightarrow> appHashesToMsi e c r tp useKey op dbkeys msi
      | Inr fv \<Rightarrow> thenG (appHashToMsi e tp useKey op dbkey fv msi) (appHashesToMsi e c r tp useKey op dbkeys))"

definition AppDBTableData2Msi ::
  "('c, 'r) venv \<Rightarrow> tablePath \<Rightarrow> bool \<Rightarrow> string option \<Rightarrow> json gomap \<Rightarrow> 'r \<Rightarrow> 'c vstate \<Rightarrow> json gomap go" where
  "AppDBTableData2Msi e tp useKey op msi r s =
     (case redisDb s (dbNamespace tp) (dbName tp) of
        None \<Rightarrow> Crash
      | Some c \<Rightarrow>
          (case (if tableKey tp = [] then ve_Keys e c (tableName tp @ delimitor tp @ ''*'') r
                 else Inr [tableName tp @ delimitor tp @ tableKey tp]) of
             Inl _ \<Rightarrow> Err (Plain ''redis Keys failed for'')
           | Inr dbkeys \<Rightarrow> appHashesToMsi e c r tp useKey op dbkeys msi))"

text \<open>The map holds strings only, so the encoder cannot fail and no number has to be written again.\<close>

definition Msi2TypedValue :: "json gomap \<Rightarrow> TypedValue" where
  "Msi2TypedValue msi = JsonIetfVal (emitJSON id msi)"

definition hashKey :: "tablePath \<Rightarrow> string" where
  "hashKey tp = (if tableKey tp \<noteq> [] then tableName tp @ delimitor tp @ tableKey tp else tableName tp)"

text \<open>A path to a field gives its value; the other tables are collected in one map.\<close>

fun collectTables ::
  "('c, 'r) venv \<Rightarrow> tablePath list \<Rightarrow> json gomap \<Rightarrow> 'r \<Rightarrow> 'c vstate \<Rightarrow> TypedValue go" where
  "collectTables e [] msi r s = Ret (Msi2TypedValue msi)"
| "collectTables e (tp # tps) msi r s =
     (if jsonField tp = [] \<and> field tp \<noteq> [] then
        (case redisDb s (dbNamespace tp) (dbName tp) of
           None \<Rightarrow> Crash
         | Some c \<Rightarrow>
             (case ve_HGet e c (hashKey tp) (field tp) r of
                HVal v \<Rightarrow> Ret (StringVal v)
              | HNil \<Rightarrow> Err (Plain ''redis: nil'')
              | HErr err \<Rightarrow> Err (Plain err)))
      else thenG (TableData2Msi e tp False None msi r s) (\<lambda>msi1. collectTables e tps msi1 r s))"

definition DbClient_tableData2TypedValue ::
  "('c, 'r) venv \<Rightarrow> tablePath list \<Rightarrow> 'r \<Rightarrow> 'c vstate \<Rightarrow> TypedValue go" where
  "DbClient_tableData2TypedValue e tblPaths r s = collectTables e tblPaths [] r s"

text \<open>The result \<^term>\<open>Ret None\<close> is \<open>nil, nil, false\<close>: there is no data.\<close>

fun appCollectTables ::
  "('c, 'r) venv \<Rightarrow> tablePath list \<Rightarrow> json gomap \<Rightarrow> bool \<Rightarrow> 'r \<Rightarrow> 'c vstate \<Rightarrow> TypedValue option go" where
  "appCollectTables e [] msi updateReceived r s = Ret (if updateReceived then Some (Msi2TypedValue msi) else None)"
| "appCollectTables e (tp # tps) msi updateReceived r s =
     (if jsonField tp = [] \<and> field tp \<noteq> [] then
        (case redisDb s (dbNamespace tp) (dbName tp) of
           None \<Rightarrow> Crash
         | Some c \<Rightarrow>
             (case ve_HGet e c (hashKey tp) (field tp) r of
                HVal v \<Rightarrow> Ret (Some (StringVal v))
              | _ \<Rightarrow> appCollectTables e tps msi updateReceived r s))
      else
        thenG (AppDBTableData2Msi e tp False None msi r s)
          (\<lambda>msi1. appCollectTables e tps msi1 (updateReceived \<or> msi1 \<noteq> []) r s))"

definition AppDBTableData2TypedValue ::
  "('c, 'r) venv \<Rightarrow> tablePath list \<Rightarrow> 'r \<Rightarrow> 'c vstate \<Rightarrow> TypedValue option go" where
  "AppDBTableData2TypedValue e tblPaths r s = appCollectTables e tblPaths [] False r s"

section \<open>Get and polling\<close>

definition DbClient_Get ::
  "('c, 'r) venv \<Rightarrow> (pathG2S \<Rightarrow> pathG2S) \<Rightarrow> DbClient \<Rightarrow> int \<Rightarrow> 'r \<Rightarrow> 'c vstate \<Rightarrow> Value list go" where
  "DbClient_Get e order c ts r s =
     mapG (\<lambda>(path, tps). thenG (DbClient_tableData2TypedValue e tps r s)
             (\<lambda>v. Ret \<lparr>val_Path = path, val_Val = v, val_Timestamp = ts\<rparr>)) (order (dc_pathG2S c))"

text \<open>
  A poll is the order in which \<open>range\<close> visits the paths, with the state of redis during it. The loop ends when the
  channel is closed (no more polls), with an error, or with a panic; what it has put on the queue stays there.
\<close>

datatype poll_end = PollClosed | PollError svc_error | PollPanic

fun pollPaths ::
  "('c, 'r) venv \<Rightarrow> Path option \<Rightarrow> pathG2S \<Rightarrow> int list \<Rightarrow> 'r \<Rightarrow> 'c vstate \<Rightarrow> QValue list \<times> int list \<times> poll_end option" where
  "pollPaths e prefix [] clock r s = ([syncMsg (case clock of [] \<Rightarrow> 0 | t # _ \<Rightarrow> t)], tl clock, None)"
| "pollPaths e prefix ((path, tps) # ps) clock r s =
     (case DbClient_tableData2TypedValue e tps r s of
        Err err \<Rightarrow> ([], clock, Some (PollError err))
      | Crash \<Rightarrow> ([], clock, Some PollPanic)
      | Ret v \<Rightarrow>
          (case pollPaths e prefix ps (tl clock) r s of
             (q, rest, stop) \<Rightarrow> (updateMsg prefix path v (case clock of [] \<Rightarrow> 0 | t # _ \<Rightarrow> t) # q, rest, stop)))"

fun PollRun ::
  "('c, 'r) venv \<Rightarrow> DbClient \<Rightarrow> ((pathG2S \<Rightarrow> pathG2S) \<times> 'r) list \<Rightarrow> int list \<Rightarrow> 'c vstate \<Rightarrow> QValue list \<times> poll_end" where
  "PollRun e c [] clock s = ([], PollClosed)"
| "PollRun e c ((order, r) # polls) clock s =
     (case pollPaths e (dc_prefix c) (order (dc_pathG2S c)) clock r s of
        (q, _, Some stop) \<Rightarrow> (q, stop)
      | (q, rest, None) \<Rightarrow> (case PollRun e c polls rest s of (q1, stop) \<Rightarrow> (q @ q1, stop)))"

text \<open>
  The loop for APPL\_DB remembers which paths had data, under the text of the path (\<open>pathText\<close>, the printed message),
  and reports the ones that have none any more as deleted, once.
\<close>

fun appPollPaths ::
  "('c, 'r) venv \<Rightarrow> (Path option \<Rightarrow> string) \<Rightarrow> Path option \<Rightarrow> pathG2S \<Rightarrow> int list \<Rightarrow> 'r \<Rightarrow> 'c vstate \<Rightarrow> bool gomap
   \<Rightarrow> QValue list \<times> int list \<times> bool gomap \<times> poll_end option" where
  "appPollPaths e pathText prefix [] clock r s prev =
     ([syncMsg (case clock of [] \<Rightarrow> 0 | t # _ \<Rightarrow> t)], tl clock, prev, None)"
| "appPollPaths e pathText prefix ((path, tps) # ps) clock r s prev =
     (case AppDBTableData2TypedValue e tps r s of
        Err err \<Rightarrow> ([], clock, prev, Some (PollError err))
      | Crash \<Rightarrow> ([], clock, prev, Some PollPanic)
      | Ret None \<Rightarrow>
          if map_of prev (pathText path) = Some True then
            (case appPollPaths e pathText prefix ps (tl clock) r s (AList.update (pathText path) False prev) of
               (q, rest) \<Rightarrow> (deleteMsg prefix path (case clock of [] \<Rightarrow> 0 | t # _ \<Rightarrow> t) # q, rest))
          else appPollPaths e pathText prefix ps clock r s prev
      | Ret (Some v) \<Rightarrow>
          (case appPollPaths e pathText prefix ps (tl clock) r s (AList.update (pathText path) True prev) of
             (q, rest) \<Rightarrow> (updateMsg prefix path v (case clock of [] \<Rightarrow> 0 | t # _ \<Rightarrow> t) # q, rest)))"

fun appPolls ::
  "('c, 'r) venv \<Rightarrow> (Path option \<Rightarrow> string) \<Rightarrow> DbClient \<Rightarrow> ((pathG2S \<Rightarrow> pathG2S) \<times> 'r) list \<Rightarrow> int list \<Rightarrow> 'c vstate
   \<Rightarrow> bool gomap \<Rightarrow> QValue list \<times> poll_end" where
  "appPolls e pathText c [] clock s prev = ([], PollClosed)"
| "appPolls e pathText c ((order, r) # polls) clock s prev =
     (case appPollPaths e pathText (dc_prefix c) (order (dc_pathG2S c)) clock r s prev of
        (q, _, _, Some stop) \<Rightarrow> (q, stop)
      | (q, rest, prev1, None) \<Rightarrow> (case appPolls e pathText c polls rest s prev1 of (q1, stop) \<Rightarrow> (q @ q1, stop)))"

definition AppDBPollRun ::
  "('c, 'r) venv \<Rightarrow> (Path option \<Rightarrow> string) \<Rightarrow> DbClient \<Rightarrow> ((pathG2S \<Rightarrow> pathG2S) \<times> 'r) list \<Rightarrow> int list \<Rightarrow> 'c vstate
   \<Rightarrow> QValue list \<times> poll_end" where
  "AppDBPollRun e pathText c polls clock s = appPolls e pathText c polls clock s []"

section \<open>The type of values\<close>

text \<open>
  What the client sends for a table: an object of strings, or of objects of strings, with each key once.
\<close>

fun isStr :: "json \<Rightarrow> bool" where
  "isStr (JStr _) = True"
| "isStr _ = False"

definition strMap :: "json gomap \<Rightarrow> bool" where
  "strMap m \<longleftrightarrow> gomap_ok m \<and> list_all (isStr \<circ> snd) m"

fun strOrMap :: "json \<Rightarrow> bool" where
  "strOrMap (JStr _) = True"
| "strOrMap (JObj m) = strMap m"
| "strOrMap _ = False"

definition tableMap :: "json gomap \<Rightarrow> bool" where
  "tableMap m \<longleftrightarrow> gomap_ok m \<and> list_all (strOrMap \<circ> snd) m"

lemma list_all_update:
  assumes "list_all (P \<circ> snd) m" and "P v"
  shows "list_all (P \<circ> snd) (AList.update k v m)"
  using assms by (induction m) auto

lemma strMap_Nil [simp]: "strMap []" and tableMap_Nil [simp]: "tableMap []"
  by (simp_all add: strMap_def tableMap_def)

lemma strMap_update [simp]: "strMap m \<Longrightarrow> strMap (AList.update k (JStr v) m)"
  by (simp add: strMap_def list_all_update)

lemma tableMap_update [simp]: "tableMap m \<Longrightarrow> strOrMap v \<Longrightarrow> tableMap (AList.update k v m)"
  by (simp add: tableMap_def list_all_update)

lemma foldl_keeps: "P m \<Longrightarrow> (\<And>m x. x \<in> set xs \<Longrightarrow> P m \<Longrightarrow> P (f m x)) \<Longrightarrow> P (foldl f m xs)"
  by (induction xs arbitrary: m) auto

lemma strings_strMap [simp]: "strMap (strings rng mfv)"
  unfolding strings_def by (rule foldl_keeps) auto

lemma makeJSON_tableMap:
  assumes "tableMap msi"
  shows "tableMap (DbClient_makeJSON_redis rng msi key None mfv)"
proof (cases key)
  case None
  have "tableMap (foldl (\<lambda>m (f, v). AList.update f (JStr v) m) msi (rangeOver rng mfv))"
    by (rule foldl_keeps) (use assms in auto)
  then show ?thesis using None by (simp add: DbClient_makeJSON_redis_def)
next
  case (Some k)
  then show ?thesis using assms by (simp add: DbClient_makeJSON_redis_def)
qed

lemma hashToMsi_tableMap: "tableMap msi \<Longrightarrow> hashToMsi e tp useKey None dbkey fv msi = Ret msi' \<Longrightarrow> tableMap msi'"
  by (auto simp: hashToMsi_def makeJSON_tableMap split: if_splits list.splits)

lemma hashesToMsi_tableMap:
  "tableMap msi \<Longrightarrow> hashesToMsi e c r tp useKey None dbkeys msi = Ret msi' \<Longrightarrow> tableMap msi'"
  by (induction dbkeys arbitrary: msi) (auto simp: thenG_Ret_iff split: sum.splits dest: hashToMsi_tableMap)

lemma TableData2Msi_tableMap:
  "tableMap msi \<Longrightarrow> TableData2Msi e tp useKey None msi r s = Ret msi' \<Longrightarrow> tableMap msi'"
  by (auto simp: TableData2Msi_def makeJSON_tableMap split: option.splits sum.splits if_splits list.splits hget.splits
      dest: hashesToMsi_tableMap)

lemma appHashToMsi_tableMap: "tableMap msi \<Longrightarrow> appHashToMsi e tp useKey None dbkey fv msi = Ret msi' \<Longrightarrow> tableMap msi'"
  by (auto simp: appHashToMsi_def makeJSON_tableMap split: if_splits list.splits)

lemma appHashesToMsi_tableMap:
  "tableMap msi \<Longrightarrow> appHashesToMsi e c r tp useKey None dbkeys msi = Ret msi' \<Longrightarrow> tableMap msi'"
  by (induction dbkeys arbitrary: msi)
    (auto simp: thenG_Ret_iff split: sum.splits list.splits dest: appHashToMsi_tableMap)

lemma AppDBTableData2Msi_tableMap:
  "tableMap msi \<Longrightarrow> AppDBTableData2Msi e tp useKey None msi r s = Ret msi' \<Longrightarrow> tableMap msi'"
  by (auto simp: AppDBTableData2Msi_def split: option.splits sum.splits dest: appHashesToMsi_tableMap)

text \<open>What is written for such a map is read back as the same map, with its keys in order.\<close>

definition sortedMap :: "json gomap \<Rightarrow> json gomap" where
  "sortedMap m = map (\<lambda>k. (k, the (map_of m k))) (sorted_keys m)"

lemma sortedMap_map_of: "gomap_ok m \<Longrightarrow> map_of (sortedMap m) = map_of m"
proof
  fix k assume "gomap_ok m"
  show "map_of (sortedMap m) k = map_of m k"
  proof (cases "map_of m k")
    case None
    then have "k \<notin> set (sorted_keys m)" by (simp add: map_of_eq_None_iff)
    then show ?thesis using None by (auto simp: sortedMap_def map_of_map_restrict restrict_map_def)
  next
    case (Some v)
    then have "k \<in> set (sorted_keys m)" by (auto dest: map_of_SomeD intro: image_eqI [of _ _ "(k, v)"])
    then show ?thesis using Some by (auto simp: sortedMap_def map_of_map_restrict restrict_map_def)
  qed
qed

lemma sortedMap_keys: "gomap_ok m \<Longrightarrow> gomap_ok (sortedMap m)"
  by (simp add: sortedMap_def sorted_keys_def comp_def)

lemma sortedMap_all:
  assumes "gomap_ok m" and "list_all (P \<circ> snd) m"
  shows "list_all (P \<circ> snd) (sortedMap m)"
proof -
  have "P (the (map_of m k))" if "k \<in> fst ` set m" for k
  proof -
    from that obtain v where "(k, v) \<in> set m" by force
    then show ?thesis using assms by (auto simp: list_all_iff)
  qed
  then show ?thesis by (auto simp: sortedMap_def list_all_iff)
qed

lemma sortMaps_obj: "gomap_ok m \<Longrightarrow> sortMaps id (JObj m) = JObj (sortedMap (map (\<lambda>(k, v). (k, sortMaps id v)) m))"
  by (simp add: sortedMap_def comp_def case_prod_unfold Let_def)

lemma sortMaps_strOrMap: "strOrMap v \<Longrightarrow> strOrMap (sortMaps id v)"
proof (cases v)
  case (JObj m)
  moreover assume "strOrMap v"
  ultimately have m: "gomap_ok m" "list_all (isStr \<circ> snd) m" by (simp_all add: strMap_def)
  then have "map (\<lambda>(k, v). (k, sortMaps id v)) m = m"
    by (auto simp: list_all_iff intro!: map_idI elim!: isStr.elims)
  then show ?thesis using m JObj sortedMap_all [OF m] sortedMap_keys [OF m(1)] by (simp add: sortMaps_obj strMap_def del: sortMaps.simps)
qed simp_all

lemma tableMap_emit:
  assumes "tableMap m"
  obtains m' where "sortMaps id (JObj m) = JObj m'" "tableMap m'" "map_of m' = map_option (sortMaps id) \<circ> map_of m"
proof
  let ?n = "map (\<lambda>(k, v). (k, sortMaps id v)) m"
  have m: "gomap_ok m" "list_all (strOrMap \<circ> snd) m" using assms by (simp_all add: tableMap_def)
  then have n: "gomap_ok ?n" "list_all (strOrMap \<circ> snd) ?n"
    by (auto simp: comp_def case_prod_unfold list_all_iff sortMaps_strOrMap)
  show "sortMaps id (JObj m) = JObj (sortedMap ?n)" by (rule sortMaps_obj [OF m(1)])
  show "tableMap (sortedMap ?n)" using sortedMap_all [OF n] sortedMap_keys [OF n(1)] by (simp add: tableMap_def)
  show "map_of (sortedMap ?n) = map_option (sortMaps id) \<circ> map_of m"
    by (simp add: sortedMap_map_of [OF n(1)] map_of_map)
qed

lemma strOrMap_wf: "strOrMap v \<Longrightarrow> wfJson v"
  by (cases v) (auto simp: strMap_def list_all_iff elim!: isStr.elims)

lemma tableMap_wf: "tableMap m \<Longrightarrow> wfJson (JObj m)"
  by (auto simp: tableMap_def list_all_iff strOrMap_wf)

lemma Msi2TypedValue_typed:
  assumes "tableMap m"
  obtains t m' where "Msi2TypedValue m = JsonIetfVal t" "parseJson t = Some (JObj m')" "tableMap m'"
    "map_of m' = map_option (sortMaps id) \<circ> map_of m"
proof -
  from tableMap_emit [OF assms] obtain m' where m': "sortMaps id (JObj m) = JObj m'" "tableMap m'"
    "map_of m' = map_option (sortMaps id) \<circ> map_of m" .
  show thesis
    by (rule that [of "emitJSON id m" m'])
      (use m' parse_marshal [OF tableMap_wf [OF m'(2)]] in \<open>simp_all add: Msi2TypedValue_def emitJSON_def del: sortMaps.simps\<close>)
qed

text \<open>A path to a field has a string as its value, every other one a table.\<close>

definition fieldPath :: "tablePath \<Rightarrow> bool" where
  "fieldPath tp \<longleftrightarrow> jsonField tp = [] \<and> field tp \<noteq> []"

definition typedFor :: "tablePath list \<Rightarrow> TypedValue \<Rightarrow> bool" where
  "typedFor tps v \<longleftrightarrow>
     (if \<exists>tp \<in> set tps. fieldPath tp then \<exists>t. v = StringVal t
      else \<exists>t m. v = JsonIetfVal t \<and> parseJson t = Some (JObj m) \<and> tableMap m)"

lemma collectTables_typed:
  "tableMap msi \<Longrightarrow> collectTables e tps msi r s = Ret v \<Longrightarrow> typedFor tps v"
proof (induction tps arbitrary: msi)
  case Nil
  from Msi2TypedValue_typed [OF Nil(1)] obtain t m where "Msi2TypedValue msi = JsonIetfVal t" "parseJson t = Some (JObj m)"
    "tableMap m" by blast
  moreover from this(1) have "v = JsonIetfVal t" using Nil(2) by simp
  ultimately show ?case by (simp add: typedFor_def)
next
  case (Cons tp tps)
  show ?case
  proof (cases "fieldPath tp")
    case True
    then show ?thesis using Cons.prems by (auto simp: typedFor_def fieldPath_def split: option.splits hget.splits)
  next
    case False
    then obtain msi1 where run: "TableData2Msi e tp False None msi r s = Ret msi1" "collectTables e tps msi1 r s = Ret v"
      using Cons.prems by (auto simp: fieldPath_def thenG_Ret_iff)
    have "typedFor tps v" by (rule Cons.IH [OF TableData2Msi_tableMap [OF Cons.prems(1) run(1)] run(2)])
    then show ?thesis using False by (auto simp: typedFor_def)
  qed
qed

lemma appCollectTables_typed:
  "tableMap msi \<Longrightarrow> appCollectTables e tps msi b r s = Ret (Some v) \<Longrightarrow>
     (\<exists>t. v = StringVal t) \<or> (\<exists>t m. v = JsonIetfVal t \<and> parseJson t = Some (JObj m) \<and> tableMap m)"
proof (induction tps arbitrary: msi b)
  case Nil
  then have "v = Msi2TypedValue msi" by (simp split: if_splits)
  moreover from Msi2TypedValue_typed [OF Nil(1)] obtain t m where "Msi2TypedValue msi = JsonIetfVal t"
    "parseJson t = Some (JObj m)" "tableMap m" by blast
  ultimately show ?case by simp
next
  case (Cons tp tps)
  show ?case
  proof (cases "fieldPath tp")
    case True
    then consider t where "v = StringVal t" | "appCollectTables e tps msi b r s = Ret (Some v)"
      using Cons.prems(2) by (auto simp: fieldPath_def split: option.splits hget.splits)
    then show ?thesis by cases (simp, rule Cons.IH [OF Cons.prems(1)])
  next
    case False
    then obtain msi1 b1 where run: "AppDBTableData2Msi e tp False None msi r s = Ret msi1"
      "appCollectTables e tps msi1 b1 r s = Ret (Some v)"
      using Cons.prems by (auto simp: fieldPath_def thenG_Ret_iff)
    show ?thesis by (rule Cons.IH [OF AppDBTableData2Msi_tableMap [OF Cons.prems(1) run(1)] run(2)])
  qed
qed

section \<open>Paths keep their elements\<close>

lemma exists1_Ret: "exists1 x = Ret b \<longleftrightarrow> x = Inr b"
  by (auto simp: exists1_def split: sum.splits)

lemma placeKey_elems:
  assumes "placeKey e c r tp elems = Ret tp'" and "\<forall>x \<in> set elems. x \<noteq> []" and "tableKey tp = []" and "field tp = []"
    and "elems = tableName tp # ks"
  shows "tableName tp' = tableName tp \<and> delimitor tp' = delimitor tp \<and> dbName tp' = dbName tp \<and>
         dbNamespace tp' = dbNamespace tp \<and> jsonField tp' = jsonField tp \<and> jsonTableKey tp' = jsonTableKey tp \<and>
         concat (tableName tp # map ((@) (delimitor tp)) ks) =
           hashKey tp' @ (if field tp' = [] then [] else delimitor tp @ field tp')"
proof -
  consider "ks = []" | k where "ks = [k]" | k f where "ks = [k, f]" | k k2 f where "ks = [k, k2, f]"
    using assms(1,5) unfolding placeKey_def by (auto split: list.splits)
  then show ?thesis
  proof cases
    case 1
    then have "tp' = tp\<lparr>tableKey := []\<rparr>" using assms(1,5) by (auto simp: placeKey_def split: sum.splits)
    then show ?thesis using 1 assms(4) by (simp add: hashKey_def)
  next
    case 2
    then have "tp' = tp\<lparr>tableKey := k\<rparr> \<or> tp' = tp\<lparr>field := k\<rparr>"
      using assms(1,5) by (auto simp: placeKey_def thenG_Ret_iff split: sum.splits if_splits)
    then show ?thesis using 2 assms by (elim disjE) (simp_all add: hashKey_def)
  next
    case 3
    then have "tp' = tp\<lparr>tableKey := k @ delimitor tp @ f\<rparr> \<or> tp' = tp\<lparr>tableKey := k, field := f\<rparr>"
      using assms(1,5) by (auto simp: placeKey_def thenG_Ret_iff Let_def split: if_splits)
    then show ?thesis using 3 assms by (elim disjE) (simp_all add: hashKey_def)
  next
    case 4
    then have "tp' = tp\<lparr>tableKey := k @ delimitor tp @ k2, field := f\<rparr>" using assms(1,5) by (simp add: placeKey_def)
    then show ?thesis using 4 assms by (simp add: hashKey_def)
  qed
qed

section \<open>Polling\<close>

text \<open>What a client that follows the messages knows: the last value of every path that was not deleted since.\<close>

definition applyMsg :: "(Path option \<Rightarrow> TypedValue option) \<Rightarrow> QValue \<Rightarrow> (Path option \<Rightarrow> TypedValue option)" where
  "applyMsg view v =
     (if qv_SyncResponse v then view
      else if qv_Delete v \<noteq> [] then (\<lambda>p. if p \<in> set (qv_Delete v) then None else view p)
      else view(qv_Path v := Some (qv_Val v)))"

definition follow :: "QValue list \<Rightarrow> Path option \<Rightarrow> TypedValue option" where
  "follow q = foldl applyMsg (\<lambda>_. None) q"

lemma applyMsg_simps [simp]:
  "applyMsg view (syncMsg t) = view"
  "applyMsg view (updateMsg prefix path v t) = view(path := Some v)"
  "applyMsg view (deleteMsg prefix path t) = view(path := None)"
  by (auto simp: applyMsg_def syncMsg_def updateMsg_def deleteMsg_def zeroValue_def)

text \<open>A path is known to the client exactly when the loop remembers that it had data.\<close>

definition tracked :: "(Path option \<Rightarrow> string) \<Rightarrow> Path option set \<Rightarrow> bool gomap \<Rightarrow> (Path option \<Rightarrow> TypedValue option) \<Rightarrow> bool" where
  "tracked pathText P prev view \<longleftrightarrow> (\<forall>p \<in> P. (map_of prev (pathText p) = Some True) = (view p \<noteq> None))"

lemma appPollPaths_view:
  assumes "appPollPaths e pathText prefix ps clock r s prev = (q, rest, prev', None)"
    and "distinct (map fst ps)" and "inj_on pathText P" and "set (map fst ps) \<subseteq> P" and "tracked pathText P prev view"
  shows "tracked pathText P prev' (foldl applyMsg view q) \<and>
         (\<forall>(p, tps) \<in> set ps. AppDBTableData2TypedValue e tps r s = Ret (foldl applyMsg view q p)) \<and>
         (\<forall>p. p \<notin> set (map fst ps) \<longrightarrow> foldl applyMsg view q p = view p)"
  using assms
proof (induction ps arbitrary: clock prev view q rest prev')
  case Nil
  then show ?case by auto
next
  case (Cons pt ps)
  obtain p tps where pt: "pt = (p, tps)" by (cases pt)
  let ?t = "case clock of [] \<Rightarrow> 0 | t # _ \<Rightarrow> t"
  have p: "p \<notin> set (map fst ps)" "p \<in> P" "distinct (map fst ps)" "set (map fst ps) \<subseteq> P" using Cons.prems(2,4) pt by auto
  have tr: "tracked pathText P (AList.update (pathText p) b prev) (view(p := x))" if "b = (x \<noteq> None)" for b x
    using Cons.prems(3,5) p(2) that by (auto simp: tracked_def inj_on_def)
  obtain o1 where read: "AppDBTableData2TypedValue e tps r s = Ret o1" using Cons.prems(1) pt by (auto split: go.splits)
  have step: "tracked pathText P prev' (foldl applyMsg view' q') \<and>
       (\<forall>(p, tps) \<in> set ps. AppDBTableData2TypedValue e tps r s = Ret (foldl applyMsg view' q' p)) \<and>
       (\<forall>p. p \<notin> set (map fst ps) \<longrightarrow> foldl applyMsg view' q' p = view' p)"
    if "appPollPaths e pathText prefix ps clock' r s prev1 = (q', rest, prev', None)" "tracked pathText P prev1 view'"
    for clock' prev1 q' view'
    using Cons.IH [OF that(1) p(3) Cons.prems(3) p(4) that(2)] .
  show ?case
  proof (cases o1)
    case None
    show ?thesis
    proof (cases "map_of prev (pathText p) = Some True")
      case True
      then obtain q' where q': "appPollPaths e pathText prefix ps (tl clock) r s (AList.update (pathText p) False prev) = (q', rest, prev', None)"
        "q = deleteMsg prefix p ?t # q'"
        using Cons.prems(1) pt read None by (auto split: prod.splits)
      show ?thesis using step [OF q'(1) tr [of False None]] p(1) pt read None q'(2) by auto
    next
      case False
      then have q': "appPollPaths e pathText prefix ps clock r s prev = (q, rest, prev', None)"
        using Cons.prems(1) pt read None by auto
      have "view p = None" using False Cons.prems(5) p(2) by (auto simp: tracked_def)
      then show ?thesis using step [OF q' Cons.prems(5)] p(1) pt read None by auto
    qed
  next
    case (Some v)
    then obtain q' where q': "appPollPaths e pathText prefix ps (tl clock) r s (AList.update (pathText p) True prev) = (q', rest, prev', None)"
      "q = updateMsg prefix p v ?t # q'"
      using Cons.prems(1) pt read by (auto split: prod.splits)
    show ?thesis using step [OF q'(1) tr [of True "Some v"]] p(1) pt read Some q'(2) by auto
  qed
qed

lemma appPollPaths_stop:
  "appPollPaths e pathText prefix ps clock r s prev = (q, rest, prev', stop) \<Longrightarrow> stop \<noteq> Some PollClosed"
  by (induction e pathText prefix ps clock r s prev arbitrary: q rest prev' stop rule: appPollPaths.induct)
    (auto split: go.splits option.splits if_splits prod.splits)

lemma appPolls_view:
  assumes "appPolls e pathText c polls clock s prev = (q, PollClosed)" and "polls \<noteq> []"
    and "distinct (map fst (dc_pathG2S c))" and "inj_on pathText (set (map fst (dc_pathG2S c)))"
    and "\<forall>(order, r) \<in> set polls. mset (order (dc_pathG2S c)) = mset (dc_pathG2S c)"
    and "tracked pathText (set (map fst (dc_pathG2S c))) prev view"
  shows "\<forall>(p, tps) \<in> set (dc_pathG2S c).
           AppDBTableData2TypedValue e tps (snd (last polls)) s = Ret (foldl applyMsg view q p)"
  using assms
proof (induction polls arbitrary: clock prev q view)
  case (Cons poll polls)
  obtain order r where poll: "poll = (order, r)" by (cases poll)
  let ?m = "dc_pathG2S c"
  have perm: "mset (order ?m) = mset ?m" using Cons.prems(5) poll by auto
  have same: "set (order ?m) = set ?m" "distinct (map fst (order ?m))"
    using mset_eq_setD [OF perm] mset_eq_imp_distinct_iff [of "map fst (order ?m)" "map fst ?m"] perm Cons.prems(3) by simp_all
  obtain q0 rest prev1 q1 where run: "appPollPaths e pathText (dc_prefix c) (order ?m) clock r s prev = (q0, rest, prev1, None)"
    "appPolls e pathText c polls rest s prev1 = (q1, PollClosed)" "q = q0 @ q1"
  proof -
    obtain q0 rest prev1 stop where run: "appPollPaths e pathText (dc_prefix c) (order ?m) clock r s prev = (q0, rest, prev1, stop)"
      by (metis prod_cases4)
    have "stop \<noteq> Some PollClosed" using run by (rule appPollPaths_stop)
    with run Cons.prems(1) poll that show thesis by (cases stop) (auto split: prod.splits)
  qed
  have sub: "set (map fst (order ?m)) \<subseteq> set (map fst ?m)" using same by auto
  from appPollPaths_view [OF run(1) same(2) Cons.prems(4) sub Cons.prems(6)]
  have one: "tracked pathText (set (map fst ?m)) prev1 (foldl applyMsg view q0)"
    "\<forall>(p, tps) \<in> set ?m. AppDBTableData2TypedValue e tps r s = Ret (foldl applyMsg view q0 p)"
    using same by auto
  show ?case
  proof (cases polls)
    case Nil
    then show ?thesis using one(2) run poll by simp
  next
    case (Cons _ _)
    then have ne: "polls \<noteq> []" by simp
    have "\<forall>(order, r) \<in> set polls. mset (order ?m) = mset ?m" using Cons.prems(5) by simp
    from Cons.IH [OF run(2) ne Cons.prems(3,4) this one(1)] show ?thesis using run(3) ne poll by simp
  qed
qed simp

section \<open>Wildcard queries\<close>

lemma range_order_single: "range_order rng \<Longrightarrow> rng [x] = [x]"
proof -
  assume "range_order rng"
  then have "distinct (rng [x])" "set (rng [x]) = {x}" using range_orderD [of rng "[x]"] range_order_distinct [of rng "[x]"] by auto
  then show ?thesis by (cases "rng [x]"; cases "tl (rng [x])") auto
qed

lemma strings_single: "range_order rng \<Longrightarrow> strings rng [(f, v)] = [(f, JStr v)]"
  by (simp add: strings_def rangeOver_def range_order_single map_filter_simps)

text \<open>The JSON data of tables of which one field was asked for: the fields that are there, under the names of the tables.\<close>

definition putField :: "('c, 'r) venv \<Rightarrow> 'r \<Rightarrow> 'c vstate \<Rightarrow> json gomap \<Rightarrow> tablePath \<Rightarrow> json gomap" where
  "putField e r s msi tp =
     (case ve_HGet e (the (redisDb s (dbNamespace tp) (dbName tp))) (hashKey tp) (field tp) r of
        HVal v \<Rightarrow> AList.update (jsonTableKey tp) (JObj [(jsonField tp, JStr v)]) msi
      | _ \<Rightarrow> msi)"

definition namedField :: "'c vstate \<Rightarrow> tablePath \<Rightarrow> bool" where
  "namedField s tp \<longleftrightarrow>
     jsonField tp \<noteq> [] \<and> jsonTableKey tp \<noteq> [] \<and> tableKey tp \<noteq> [] \<and> redisDb s (dbNamespace tp) (dbName tp) \<noteq> None"

lemma collect_named:
  assumes "range_order (ve_rng e)" and "\<forall>tp \<in> set tps. namedField s tp"
  shows "collectTables e tps msi r s = Ret (Msi2TypedValue (foldl (putField e r s) msi tps))"
  using assms(2)
proof (induction tps arbitrary: msi)
  case (Cons tp tps)
  then obtain c where tp: "jsonField tp \<noteq> []" "jsonTableKey tp \<noteq> []" "tableKey tp \<noteq> []"
    "redisDb s (dbNamespace tp) (dbName tp) = Some c" by (auto simp: namedField_def)
  then have "TableData2Msi e tp False None msi r s = Ret (putField e r s msi tp)"
    by (simp add: TableData2Msi_def putField_def hashKey_def DbClient_makeJSON_redis_def strings_single [OF assms(1)] split: hget.splits)
  then show ?case using Cons tp by simp
qed simp

lemma putField_tableMap: "tableMap msi \<Longrightarrow> tableMap (putField e r s msi tp)"
  by (auto simp: putField_def strMap_def split: hget.splits)

lemma putField_other: "k \<noteq> jsonTableKey tp \<Longrightarrow> map_of (putField e r s msi tp) k = map_of msi k"
  by (auto simp: putField_def split: hget.splits)

lemma putFields_map_of:
  assumes "distinct (map jsonTableKey tps)"
  shows "map_of (foldl (putField e r s) msi tps) k =
    (case find (\<lambda>tp. jsonTableKey tp = k) tps of
       None \<Rightarrow> map_of msi k
     | Some tp \<Rightarrow>
         (case ve_HGet e (the (redisDb s (dbNamespace tp) (dbName tp))) (hashKey tp) (field tp) r of
            HVal v \<Rightarrow> Some (JObj [(jsonField tp, JStr v)]) | _ \<Rightarrow> map_of msi k))"
  using assms
proof (induction tps arbitrary: msi)
  case (Cons tp tps)
  show ?case
  proof (cases "jsonTableKey tp = k")
    case True
    then have "find (\<lambda>tp. jsonTableKey tp = k) tps = None" using Cons.prems by (auto simp: find_None_iff) (metis imageI)
    then show ?thesis using Cons True by (auto simp: putField_def split: hget.splits)
  next
    case False
    then have "map_of (putField e r s msi tp) k = map_of msi k" using putField_other [of k tp] by metis
    then show ?thesis using Cons False by (simp split: option.splits hget.splits)
  qed
qed simp

lemma named_json:
  assumes "range_order (ve_rng e)" and "\<forall>tp \<in> set tps. namedField s tp" and "distinct (map jsonTableKey tps)"
  obtains t m where "DbClient_tableData2TypedValue e tps r s = Ret (JsonIetfVal t)" "parseJson t = Some (JObj m)"
    "\<And>k. map_of m k = (case find (\<lambda>tp. jsonTableKey tp = k) tps of None \<Rightarrow> None
      | Some tp \<Rightarrow> (case ve_HGet e (the (redisDb s (dbNamespace tp) (dbName tp))) (hashKey tp) (field tp) r of
           HVal v \<Rightarrow> Some (JObj [(jsonField tp, JStr v)]) | _ \<Rightarrow> None))"
proof -
  let ?msi = "foldl (putField e r s) [] tps"
  have "tableMap ?msi" by (rule foldl_keeps) (simp_all add: putField_tableMap)
  then obtain t m where t: "Msi2TypedValue ?msi = JsonIetfVal t" "parseJson t = Some (JObj m)"
    "map_of m = map_option (sortMaps id) \<circ> map_of ?msi" by (rule Msi2TypedValue_typed)
  have read: "DbClient_tableData2TypedValue e tps r s = Ret (JsonIetfVal t)"
    unfolding DbClient_tableData2TypedValue_def collect_named [OF assms(1,2)] t(1) ..
  have sorted: "sortMaps id (JObj [(f, JStr v)]) = JObj [(f, JStr v)]" for f v by (simp add: sorted_keys_def)
  have "map_of m k = (case find (\<lambda>tp. jsonTableKey tp = k) tps of None \<Rightarrow> None
      | Some tp \<Rightarrow> (case ve_HGet e (the (redisDb s (dbNamespace tp) (dbName tp))) (hashKey tp) (field tp) r of
           HVal v \<Rightarrow> Some (JObj [(jsonField tp, JStr v)]) | _ \<Rightarrow> None))" for k
    unfolding t(3) comp_apply putFields_map_of [OF assms(3)]
    by (simp add: sorted del: sortMaps.simps split: option.splits hget.splits)
  with read t(2) show thesis by (rule that)
qed

lemma all_port_fields:
  assumes "ready s" and "hasSuffix key ''*''"
  shows "v2rEthPortFieldStats e [db, table, key, f] s =
    (mapG (\<lambda>(port, oid). thenG (getPortNamespace (vs_maps s) port)
         (\<lambda>ns. Ret (buildTablePath ns db table oid (sepOf e db ns s) f [] (getVendorPortName (vs_maps s) port) f)))
       (rangeOver (ve_rng e) (countersPortNameMap (vs_maps s))), s)"
  unfolding v2rEthPortFieldStats_def portStats_def Let_def
  using assms by (auto simp: portTable_ready intro!: mapS_pure)

lemma IsTargetDb_plain:
  assumes "ready s" and "CHR ''/'' \<notin> set db"
  shows "IsTargetDb e db s = ((db, db \<in> set (map fst Target_value), GetDbDefaultNamespace, False), s)"
proof -
  have "split CHR ''/'' db = [db]" using assms(2) by simp
  moreover have "snd (snd (CheckDbMultiNamespace (ve_swss e) (vs_cfg s))) = vs_cfg s" using assms(1) 
    by (simp add: CheckDbMultiNamespace_def ready_def split: sum.splits)
  ultimately show ?thesis by (auto simp: IsTargetDb_def setVCfg_def split: prod.splits)
qed

lemma populate_virtual:
  assumes "range_order (ve_rng e)" and "ready s" and "initMaps e r s = (Ret (), s')" and "ready s'"
    and "path_target pre = ''COUNTERS_DB''" and "path_elem p \<noteq> []"
    and "[] \<notin> set (map elem_name (path_elem pre @ path_elem p))"
    and "v2rSpec (''COUNTERS_DB'' # map elem_name (path_elem pre @ path_elem p)) = Some f"
    and "transFunc e f (''COUNTERS_DB'' # map elem_name (path_elem pre @ path_elem p)) s' = (Ret tps, s')"
  shows "populateDbtablePath e (Some pre) (Some p) r s = (Ret tps, s')"
proof -
  have "IsTargetDb e ''COUNTERS_DB'' s = ((''COUNTERS_DB'', True, GetDbDefaultNamespace, False), s)"
    using IsTargetDb_plain [OF assms(2), of "''COUNTERS_DB''" e] by (simp add: Target_value_def)
  then show ?thesis
    using assms by (simp add: populateDbtablePath_def GetDbNamespaceFromTarget_def setVCfg_def separatorOf_ready fullElems_def lookupV2R_spec pathElems_def)
qed

lemma join_concat: "join sep (x # xs) = concat (x # map ((@) sep) xs)"
  by (induction xs arbitrary: x) auto

lemma IsTargetDb_name:
  assumes "IsTargetDb e t s = ((db, valid, ns, ex), s0)"
  shows "db = hd (split CHR ''/'' t)" and "valid \<Longrightarrow> db \<noteq> []"
proof -
  have "\<forall>db \<in> set (map fst Target_value). db \<noteq> []" by code_simp
  then have "db \<in> set (map fst Target_value) \<Longrightarrow> db \<noteq> []" by blast
  moreover have "db = hd (split CHR ''/'' t) \<and> (valid \<longrightarrow> db \<in> set (map fst Target_value))"
    using assms by (cases "CheckDbMultiNamespace (ve_swss e) (vs_cfg s)")
      (auto simp: IsTargetDb_def Let_def simp del: set_map split: if_splits)
  ultimately show "db = hd (split CHR ''/'' t)" and "valid \<Longrightarrow> db \<noteq> []" by blast+
qed

lemma populate_real:
  assumes "populateDbtablePath e (Some pre) (Some p) r s = (Ret tps, s')" and "range_order (ve_rng e)"
    and "\<forall>x \<in> set (fullElems (Some pre) p). elem_name x \<noteq> []"
    and "v2rSpec (hd (split CHR ''/'' (path_target pre)) # map elem_name (fullElems (Some pre) p)) = None"
  obtains ns c sep tp0 tp where "tps = [tp]" "redisDb s' ns (dbName tp0) = Some c"
    "dbNamespace tp0 = ns" "tableKey tp0 = []" "field tp0 = []" "delimitor tp0 = sep"
    "placeKey e c r tp0 (map elem_name (fullElems (Some pre) p)) = Ret tp" "checkKey e c r tp = Ret tp"
    "map elem_name (fullElems (Some pre) p) = tableName tp0 # tl (map elem_name (fullElems (Some pre) p))"
proof -
  let ?elems = "map elem_name (fullElems (Some pre) p)" and ?db = "hd (split CHR ''/'' (path_target pre))"
  obtain db0 valid targetNs nsExist s0 where target0: "IsTargetDb e (path_target pre) s = ((db0, valid, targetNs, nsExist), s0)"
    by (metis prod.exhaust)
  note target = target0 [unfolded IsTargetDb_name(1) [OF target0]]
  have valid: valid using assms(1) target by (cases valid) (simp_all add: populateDbtablePath_def)
  then have keys: "[] \<notin> set (?db # ?elems)" using IsTargetDb_name [OF target0] assms(3) by auto
  obtain ns ok err cfg where ns0: "GetDbNamespaceFromTarget (ve_swss e) targetNs (vs_cfg s0) = ((ns, ok, err), cfg)"
    by (metis prod.exhaust)
  have "ok" "err = None"
    using assms(1) target valid ns0 by (cases ok; cases err; simp add: populateDbtablePath_def)+
  with ns0 have ns: "GetDbNamespaceFromTarget (ve_swss e) targetNs (vs_cfg s0) = ((ns, True, None), cfg)" by simp
  obtain s1 where s1: "(if ?db = ''COUNTERS_DB'' then initMaps e r (setVCfg cfg s0) else (Ret (), setVCfg cfg s0)) = (Ret (), s1)"
    using assms(1) target valid ns by (auto simp: populateDbtablePath_def bindG_Ret_iff split: if_splits)
  obtain sep s2 where sep: "separatorOf e ?db ns s1 = (sep, s2)" by (cases "separatorOf e ?db ns s1")
  have look: "lookupV2R e (?db # ?elems) s2 = (Err (Plain ''not found in virtual path tree''), s2)"
    using lookupV2R_spec [OF assms(2) keys, of s2] assms(4) by simp
  let ?tp = "zeroPath\<lparr>dbNamespace := ns, dbName := ?db, tableName := (case ?elems of [] \<Rightarrow> [] | t # _ \<Rightarrow> t), delimitor := sep\<rparr>"
  obtain c where c: "redisDb s2 ns ?db = Some c" "s' = s2"
    "thenG (placeKey e c r ?tp ?elems) (\<lambda>tp. thenG (checkKey e c r tp) (\<lambda>tp. Ret [tp])) = Ret tps"
  proof -
    have run: "(case redisDb s2 ns ?db of
        None \<Rightarrow> (Err (Plain ''Redis Client not present for dbName''), s2)
      | Some c \<Rightarrow> (thenG (placeKey e c r ?tp ?elems) (\<lambda>tp. thenG (checkKey e c r tp) (\<lambda>tp. Ret [tp])), s2)) = (Ret tps, s')"
      using assms(1) by (simp add: populateDbtablePath_def target valid ns s1 sep look Let_def)
    then obtain c where "redisDb s2 ns ?db = Some c" by (cases "redisDb s2 ns ?db") simp_all
    with run show thesis by (intro that [of c]) simp_all
  qed
  then obtain tp tp1 where tp: "placeKey e c r ?tp ?elems = Ret tp" "checkKey e c r tp = Ret tp1" "tps = [tp1]"
    by (auto simp: thenG_Ret_iff)
  have "tp1 = tp" using tp(2) by (auto simp: checkKey_def split: if_splits)
  moreover have "?elems \<noteq> []" using tp(1) by (auto simp: placeKey_def)
  then have "?elems = tableName ?tp # tl ?elems" by (cases ?elems) simp_all
  ultimately show thesis using tp c by (intro that [OF _ _ _ _ _ _ tp(1)]) (simp_all add: zeroPath_def)
qed

lemma buildTablePath_fields [simp]:
  "dbName (buildTablePath ns db table key sep fld jTable jKey jField) = db"
  "tableName (buildTablePath ns db table key sep fld jTable jKey jField) = table"
  "delimitor (buildTablePath ns db table key sep fld jTable jKey jField) = sep"
  "field (buildTablePath ns db table key sep fld jTable jKey jField) = fld"
  "jsonField (buildTablePath ns db table key sep fld jTable jKey jField) = jField"
  by (simp_all add: buildTablePath_def)

lemma field_spec:
  "f \<notin> {''Queues'', ''Pfcwd''} \<Longrightarrow> v2rSpec [''COUNTERS_DB'', ''COUNTERS'', ''Ethernet*'', f] = Some EthPortFieldStats"
  by (simp add: v2rSpec_def hasPrefix_def)

lemma vendor_names_distinct:
  assumes "range_order rng" and "gomap_ok m" and "inj_on g (fst ` set m)" and "set (rangeOver rng m) = set m"
    and "\<And>x. x \<in> set m \<Longrightarrow> h x = g (fst x)"
  shows "distinct (map h (rangeOver rng m))"
proof -
  have "map h (rangeOver rng m) = map g (map fst (rangeOver rng m))" using assms(4,5) by simp
  moreover have "distinct (map fst (rangeOver rng m))" by (rule rangeOver_ok [OF assms(1,2)])
  moreover have "inj_on g (set (map fst (rangeOver rng m)))" using assms(3,4) by simp
  ultimately show ?thesis by (simp only: distinct_map)
qed

lemma find_distinct: "distinct (map h xs) \<Longrightarrow> x \<in> set xs \<Longrightarrow> find (\<lambda>y. h y = h x) xs = Some x"
  by (induction xs) force+

text \<open>The table of one port in a query for a field of all ports.\<close>

definition fieldTable :: "('c, 'r) venv \<Rightarrow> 'c vstate \<Rightarrow> string \<Rightarrow> (string \<Rightarrow> string) \<Rightarrow> string \<times> string \<Rightarrow> tablePath" where
  "fieldTable e s f nsOf =
     (\<lambda>(port, oid). buildTablePath (nsOf port) ''COUNTERS_DB'' ''COUNTERS'' oid (sepOf e ''COUNTERS_DB'' (nsOf port) s) f []
        (getVendorPortName (vs_maps s) port) f)"

lemma fieldTables_translated:
  assumes "range_order (ve_rng e)" and "ready s" and "gomap_ok (countersPortNameMap (vs_maps s))"
    and "\<forall>(port, oid) \<in> set (countersPortNameMap (vs_maps s)). oid \<noteq> [] \<and> getVendorPortName (vs_maps s) port \<noteq> [] \<and>
           map_of (port2namespaceMap (vs_maps s)) port = Some (nsOf port) \<and>
           redisDb s (nsOf port) ''COUNTERS_DB'' = Some (clientOf port)"
  shows "v2rEthPortFieldStats e [''COUNTERS_DB'', ''COUNTERS'', ''Ethernet*'', f] s =
    (Ret (map (fieldTable e s f nsOf) (rangeOver (ve_rng e) (countersPortNameMap (vs_maps s)))), s)"
proof -
  let ?m = "vs_maps s"
  have "thenG (getPortNamespace ?m port) (\<lambda>ns. Ret (buildTablePath ns ''COUNTERS_DB'' ''COUNTERS'' oid
      (sepOf e ''COUNTERS_DB'' ns s) f [] (getVendorPortName ?m port) f)) = Ret (fieldTable e s f nsOf (port, oid))"
    if "(port, oid) \<in> set (countersPortNameMap ?m)" for port oid
  proof -
    have "map_of (port2namespaceMap ?m) port = Some (nsOf port)" using assms(4) that by blast
    then show ?thesis by (simp add: getPortNamespace_def fieldTable_def)
  qed
  then show ?thesis using rangeOver_set [OF assms(1,3)]
    by (subst all_port_fields [OF assms(2)]) (auto simp: hasSuffix_def intro!: mapG_pure)
qed

lemma fieldTables_named:
  assumes "\<forall>(port, oid) \<in> set ports. oid \<noteq> [] \<and> getVendorPortName (vs_maps s) port \<noteq> [] \<and>
      map_of (port2namespaceMap (vs_maps s)) port = Some (nsOf port) \<and>
      redisDb s (nsOf port) ''COUNTERS_DB'' = Some (clientOf port)"
    and "f \<noteq> []" and "x \<in> set ports"
  shows "namedField s (fieldTable e s f nsOf x)"
proof -
  obtain port oid where x: "x = (port, oid)" by (cases x)
  have "oid \<noteq> []" "getVendorPortName (vs_maps s) port \<noteq> []" "redisDb s (nsOf port) ''COUNTERS_DB'' = Some (clientOf port)"
    using assms(1,3) x by blast+
  then show ?thesis using assms(2) x unfolding namedField_def by (simp add: fieldTable_def)
qed

lemma fieldTables_keys:
  assumes "\<And>k. map_of m k \<noteq> None \<Longrightarrow> \<exists>tp. find (\<lambda>tp. jsonTableKey tp = k) (map (fieldTable e s f nsOf) (rangeOver rng ports)) = Some tp"
    and "set (rangeOver rng ports) = set ports"
  shows "fst ` set m \<subseteq> getVendorPortName (vs_maps s) ` fst ` set ports"
proof
  fix k assume "k \<in> fst ` set m"
  then have "map_of m k \<noteq> None" by (simp add: map_of_eq_None_iff)
  with assms(1) obtain tp where "find (\<lambda>tp. jsonTableKey tp = k) (map (fieldTable e s f nsOf) (rangeOver rng ports)) = Some tp"
    by blast
  from find_in [OF this] have tp: "tp \<in> set (map (fieldTable e s f nsOf) (rangeOver rng ports))" "jsonTableKey tp = k" by simp_all
  then obtain port oid where port: "(port, oid) \<in> set ports" "tp = fieldTable e s f nsOf (port, oid)" using assms(2) by auto
  then have "k = getVendorPortName (vs_maps s) (fst (port, oid))" using tp(2) by (simp add: fieldTable_def)
  then show "k \<in> getVendorPortName (vs_maps s) ` fst ` set ports" using port(1) by blast
qed

section \<open>Rounds of polling\<close>

definition updatesOnly :: "QValue list \<Rightarrow> bool" where
  "updatesOnly q \<longleftrightarrow> (\<forall>v \<in> set q. \<not> qv_SyncResponse v \<and> qv_Fatal v = [] \<and> qv_Delete v = [])"

text \<open>What a poll puts on the queue: the value of every path, and then that the client is in sync.\<close>

definition pollRound ::
  "('c, 'r) venv \<Rightarrow> 'c vstate \<Rightarrow> pathG2S \<Rightarrow> (pathG2S \<Rightarrow> pathG2S) \<times> 'r \<Rightarrow> QValue list \<Rightarrow> bool" where
  "pollRound e s m poll q \<longleftrightarrow>
     (\<exists>ups t. q = ups @ [syncMsg t] \<and> updatesOnly ups \<and>
        map (\<lambda>v. (qv_Path v, Ret (qv_Val v))) ups =
          map (\<lambda>(p, tps). (p, DbClient_tableData2TypedValue e tps (snd poll) s)) (fst poll m))"

lemma updateMsg_simps [simp]:
  "qv_Path (updateMsg prefix p v t) = p" "qv_Val (updateMsg prefix p v t) = v"
  "updatesOnly (updateMsg prefix p v t # q) = updatesOnly q"
  by (simp_all add: updateMsg_def zeroValue_def updatesOnly_def)

lemma pollPaths_round:
  "case pollPaths e prefix ps clock r s of
     (q, _, None) \<Rightarrow> pollRound e s ps (id, r) q
   | (q, _, Some stop) \<Rightarrow> stop \<noteq> PollClosed \<and> updatesOnly q"
proof (induction ps arbitrary: clock)
  case Nil
  show ?case by (auto simp: pollRound_def updatesOnly_def)
next
  case (Cons pt ps)
  obtain p tps where pt: "pt = (p, tps)" by (cases pt)
  let ?t = "case clock of [] \<Rightarrow> 0 | t # _ \<Rightarrow> t"
  obtain q rest stop where q: "pollPaths e prefix ps (tl clock) r s = (q, rest, stop)" by (metis prod_cases3)
  have IH: "case stop of None \<Rightarrow> pollRound e s ps (id, r) q | Some stop \<Rightarrow> stop \<noteq> PollClosed \<and> updatesOnly q"
    using Cons.IH [of "tl clock"] q by (simp split: option.splits)
  show ?case
  proof (cases "DbClient_tableData2TypedValue e tps r s")
    case (Ret v)
    have run: "pollPaths e prefix (pt # ps) clock r s = (updateMsg prefix p v ?t # q, rest, stop)" using pt Ret q by simp
    show ?thesis
    proof (cases stop)
      case None
      then obtain ups t where ups: "q = ups @ [syncMsg t]" "updatesOnly ups"
        "map (\<lambda>v. (qv_Path v, Ret (qv_Val v))) ups = map (\<lambda>(p, tps). (p, DbClient_tableData2TypedValue e tps r s)) ps"
        using IH by (auto simp: pollRound_def)
      have "pollRound e s (pt # ps) (id, r) (updateMsg prefix p v ?t # q)"
        unfolding pollRound_def by (rule exI [of _ "updateMsg prefix p v ?t # ups"], rule exI [of _ t]) (use ups pt Ret in simp)
      then show ?thesis using run None by simp
    next
      case (Some st)
      then show ?thesis using run IH by simp
    qed
  qed (simp_all add: pt updatesOnly_def)
qed

lemma pollRound_order: "pollRound e s (order m) (id, r) q = pollRound e s m (order, r) q"
  by (simp add: pollRound_def)

lemma PollRun_rounds:
  "case PollRun e c polls clock s of
     (q, stop) \<Rightarrow> \<exists>rounds rest. q = concat rounds @ rest \<and>
       list_all2 (pollRound e s (dc_pathG2S c)) (take (length rounds) polls) rounds \<and>
       (if stop = PollClosed then length rounds = length polls \<and> rest = []
        else length rounds < length polls \<and> updatesOnly rest)"
proof (induction polls arbitrary: clock)
  case Nil
  then show ?case by simp
next
  case (Cons poll polls)
  obtain order r where poll: "poll = (order, r)" by (cases poll)
  obtain q rest stop where q: "pollPaths e (dc_prefix c) (order (dc_pathG2S c)) clock r s = (q, rest, stop)" by (metis prod_cases3)
  have round: "case stop of None \<Rightarrow> pollRound e s (dc_pathG2S c) poll q | Some stop \<Rightarrow> stop \<noteq> PollClosed \<and> updatesOnly q"
    using pollPaths_round [where e = e and prefix = "dc_prefix c" and ps = "order (dc_pathG2S c)" and clock = clock and r = r and s = s] q poll by (simp add: pollRound_order split: option.splits)
  show ?case
  proof (cases stop)
    case None
    obtain q1 st where q1: "PollRun e c polls rest s = (q1, st)" by (cases "PollRun e c polls rest s")
    with Cons.IH [of rest] obtain rounds qs where IH: "q1 = concat rounds @ qs"
      "list_all2 (pollRound e s (dc_pathG2S c)) (take (length rounds) polls) rounds"
      "if st = PollClosed then length rounds = length polls \<and> qs = [] else length rounds < length polls \<and> updatesOnly qs"
      by auto
    have run: "PollRun e c (poll # polls) clock s = (q @ q1, st)" using poll q None q1 by simp
    show ?thesis
      unfolding run prod.case by (rule exI [of _ "q # rounds"], rule exI [of _ qs]) (use IH round None in auto)
  next
    case (Some st)
    have run: "PollRun e c (poll # polls) clock s = (q, st)" using poll q Some by simp
    show ?thesis unfolding run prod.case by (rule exI [of _ "[]"], rule exI [of _ q]) (use round Some in auto)
  qed
qed

section \<open>Examples\<close>

definition appPathEx :: tablePath where
  "appPathEx = zeroPath\<lparr>dbName := ''COUNTERS_DB'', tableName := ''PORT'', tableKey := ''E0'', delimitor := '':'', field := ''mtu''\<rparr>"

definition preEx :: Path where
  "preEx = \<lparr>path_origin = [], path_target = ''CONFIG_DB'', path_elem = []\<rparr>"

definition pathEx :: Path where
  "pathEx =
     \<lparr>path_origin = [], path_target = [],
      path_elem = [\<lparr>elem_name = ''PORT'', elem_key = []\<rparr>, \<lparr>elem_name = ''E0'', elem_key = []\<rparr>, \<lparr>elem_name = ''mtu'', elem_key = []\<rparr>]\<rparr>"

lemma rng_ex: "range_order (ve_rng venvEx)"
  by (simp add: venvEx_def)

lemma populateEx:
  "populateDbtablePath venvEx (Some preEx) (Some pathEx) (Some [(''PORT:E0'', [(''mtu'', ''9100'')])]) vstateEx =
     (Ret [zeroPath\<lparr>dbName := ''CONFIG_DB'', tableName := ''PORT'', tableKey := ''E0'', delimitor := '':'', field := ''mtu''\<rparr>], vstateEx)"
proof -
  let ?r = "Some [(''PORT:E0'', [(''mtu'', ''9100'')])]"
  have ready: "ready vstateEx" by (simp add: ready_def vstateEx_def)
  have target: "IsTargetDb venvEx ''CONFIG_DB'' vstateEx = ((''CONFIG_DB'', True, GetDbDefaultNamespace, False), vstateEx)"
    using IsTargetDb_plain [OF ready, of "''CONFIG_DB''" venvEx] by (simp add: Target_value_def)
  have elems: "map elem_name (fullElems (Some preEx) pathEx) = [''PORT'', ''E0'', ''mtu'']" by code_simp
  have sep: "separatorOf venvEx ''CONFIG_DB'' [] vstateEx = ('':'', vstateEx)" by code_simp
  have look: "lookupV2R venvEx [''CONFIG_DB'', ''PORT'', ''E0'', ''mtu''] vstateEx = (Err (Plain ''not found in virtual path tree''), vstateEx)"
    using lookupV2R_spec [OF rng_ex, of "[''CONFIG_DB'', ''PORT'', ''E0'', ''mtu'']" vstateEx] by (simp add: v2rSpec_def)
  have place: "thenG (placeKey venvEx (''redis.sock'', 4) ?r (zeroPath\<lparr>dbName := ''CONFIG_DB'', tableName := ''PORT'', delimitor := '':''\<rparr>)
      [''PORT'', ''E0'', ''mtu'']) (\<lambda>tp. thenG (checkKey venvEx (''redis.sock'', 4) ?r tp) (\<lambda>tp. Ret [tp])) =
    Ret [zeroPath\<lparr>dbName := ''CONFIG_DB'', tableName := ''PORT'', tableKey := ''E0'', delimitor := '':'', field := ''mtu''\<rparr>]"
    by code_simp
  have client: "redisDb vstateEx [] ''CONFIG_DB'' = Some (''redis.sock'', 4)" by code_simp
  have "path_target preEx = ''CONFIG_DB''" by (simp add: preEx_def)
  moreover have "zeroPath\<lparr>dbNamespace := [], dbName := ''CONFIG_DB'', tableName := ''PORT'', delimitor := '':''\<rparr> =
    zeroPath\<lparr>dbName := ''CONFIG_DB'', tableName := ''PORT'', delimitor := '':''\<rparr>" by (simp add: zeroPath_def)
  moreover have "GetDbNamespaceFromTarget (ve_swss venvEx) GetDbDefaultNamespace (vs_cfg vstateEx) = (([], True, None), vs_cfg vstateEx)"
    by code_simp
  moreover have "setVCfg (vs_cfg vstateEx) vstateEx = vstateEx" by (simp add: setVCfg_def)
  ultimately show ?thesis
    by (simp add: populateDbtablePath_def target elems sep look client place Let_def)
qed

definition allPortsEx :: "unit vstate" where
  "allPortsEx =
     setMaps (\<lambda>v. v\<lparr>countersDebugNameSwitchStatMap := [(''a'', ''b'')], portOnce := True, queueOnce := True, pgOnce := True,
                  sidOnce := True, aclOnce := True, aliasOnce := True, pfcwdOnce := True, fabricOnce := True\<rparr>) portsEx"

definition allPreEx :: Path where
  "allPreEx = \<lparr>path_origin = [], path_target = ''COUNTERS_DB'', path_elem = []\<rparr>"

definition allPathEx :: Path where
  "allPathEx =
     \<lparr>path_origin = [], path_target = [],
      path_elem = [\<lparr>elem_name = ''COUNTERS'', elem_key = []\<rparr>, \<lparr>elem_name = ''Ethernet*'', elem_key = []\<rparr>, \<lparr>elem_name = ''rx'', elem_key = []\<rparr>]\<rparr>"

section \<open>Properties\<close>

text \<open>
  C36. The values that the client reads are typed by the path: a string for a path that ends in a field, and otherwise a
  text that parses as a JSON object of strings and objects of strings, with each key once.
\<close>

theorem db_value_typed:
  assumes "DbClient_tableData2TypedValue e tps r s = Ret v"
  shows "typedFor tps v"
  using collectTables_typed [OF tableMap_Nil] assms by (simp add: DbClient_tableData2TypedValue_def)

theorem db_value_typed_witness:
  "DbClient_tableData2TypedValue venvEx [zeroPath\<lparr>dbName := ''COUNTERS_DB'', tableName := ''RATES'', delimitor := '':''\<rparr>]
     (Some [(''RATES'', [(''a'', ''1'')])]) vstateEx = Ret (JsonIetfVal [CHR 0x7B, quoteC, CHR ''a'', quoteC, CHR '':'', quoteC, CHR ''1'', quoteC, CHR 0x7D]) \<and>
   typedFor [zeroPath\<lparr>dbName := ''COUNTERS_DB'', tableName := ''RATES'', delimitor := '':''\<rparr>]
     (JsonIetfVal [CHR 0x7B, quoteC, CHR ''a'', quoteC, CHR '':'', quoteC, CHR ''1'', quoteC, CHR 0x7D])"
proof -
  let ?tps = "[zeroPath\<lparr>dbName := ''COUNTERS_DB'', tableName := ''RATES'', delimitor := '':''\<rparr>]"
  have "DbClient_tableData2TypedValue venvEx ?tps (Some [(''RATES'', [(''a'', ''1'')])]) vstateEx =
      Ret (JsonIetfVal [CHR 0x7B, quoteC, CHR ''a'', quoteC, CHR '':'', quoteC, CHR ''1'', quoteC, CHR 0x7D])"
    by code_simp
  with db_value_typed [OF this] show ?thesis by simp
qed

text \<open>
  C37. A real path keeps its elements: the key of the hash and the field that a path is resolved to are together the
  elements of the path, joined by the separator of the database, in order. Outside APPL\_DB a key that was taken from the
  path exists in redis.
\<close>

theorem db_path_preserved:
  assumes "populateDbtablePath e (Some pre) (Some p) r s = (Ret tps, s')" and "range_order (ve_rng e)"
    and "\<forall>x \<in> set (fullElems (Some pre) p). elem_name x \<noteq> []"
    and "v2rSpec (hd (split CHR ''/'' (path_target pre)) # map elem_name (fullElems (Some pre) p)) = None"
  shows "\<exists>tp. tps = [tp] \<and>
    join (delimitor tp) (map elem_name (fullElems (Some pre) p)) =
      hashKey tp @ (if field tp = [] then [] else delimitor tp @ field tp) \<and>
    (dbName tp \<noteq> ''APPL_DB'' \<and> tableKey tp \<noteq> [] \<longrightarrow>
       (\<exists>c. redisDb s' (dbNamespace tp) (dbName tp) = Some c \<and> ve_Exists e c (hashKey tp) r = Inr True))"
proof -
  from populate_real [OF assms] obtain ns c sep tp0 tp where tp: "tps = [tp]" "redisDb s' ns (dbName tp0) = Some c"
    "dbNamespace tp0 = ns" "tableKey tp0 = []" "field tp0 = []" "delimitor tp0 = sep"
    "placeKey e c r tp0 (map elem_name (fullElems (Some pre) p)) = Ret tp" "checkKey e c r tp = Ret tp"
    "map elem_name (fullElems (Some pre) p) = tableName tp0 # tl (map elem_name (fullElems (Some pre) p))" .
  have "\<forall>x \<in> set (map elem_name (fullElems (Some pre) p)). x \<noteq> []" using assms(3) by simp
  from placeKey_elems [OF tp(7) this tp(4,5,9)] have same: "delimitor tp = delimitor tp0" "dbName tp = dbName tp0"
    "dbNamespace tp = dbNamespace tp0" "tableName tp = tableName tp0"
    "join (delimitor tp0) (map elem_name (fullElems (Some pre) p)) =
       hashKey tp @ (if field tp = [] then [] else delimitor tp0 @ field tp)"
    using tp(9) join_concat by metis+
  have "ve_Exists e c (hashKey tp) r = Inr True" if "dbName tp \<noteq> ''APPL_DB''" "tableKey tp \<noteq> []"
    using tp(8) that by (simp add: checkKey_def hashKey_def split: if_splits)
  with same tp(1,2,3) show ?thesis by (intro exI [of _ tp]) auto
qed

theorem db_path_preserved_witness:
  "populateDbtablePath venvEx (Some preEx) (Some pathEx) (Some [(''PORT:E0'', [(''mtu'', ''9100'')])]) vstateEx =
     (Ret [zeroPath\<lparr>dbName := ''CONFIG_DB'', tableName := ''PORT'', tableKey := ''E0'', delimitor := '':'', field := ''mtu''\<rparr>], vstateEx) \<and>
   join '':'' [''PORT'', ''E0'', ''mtu''] = ''PORT:E0:mtu''"
proof -
  let ?tp = "zeroPath\<lparr>dbName := ''CONFIG_DB'', tableName := ''PORT'', tableKey := ''E0'', delimitor := '':'', field := ''mtu''\<rparr>"
  have "\<forall>x \<in> set (fullElems (Some preEx) pathEx). elem_name x \<noteq> []" by code_simp
  moreover have "v2rSpec (hd (split CHR ''/'' (path_target preEx)) # map elem_name (fullElems (Some preEx) pathEx)) = None" by code_simp
  ultimately have "\<exists>tp. [?tp] = [tp] \<and> join (delimitor tp) (map elem_name (fullElems (Some preEx) pathEx)) =
      hashKey tp @ (if field tp = [] then [] else delimitor tp @ field tp)"
    using db_path_preserved [OF populateEx rng_ex] by blast
  moreover have "map elem_name (fullElems (Some preEx) pathEx) = [''PORT'', ''E0'', ''mtu'']" by code_simp
  ultimately show ?thesis using populateEx by (simp add: hashKey_def zeroPath_def)
qed

text \<open>
  C38. Every poll is answered with the values of all paths in the order of the map, as redis has them during that poll,
  followed by one sync message; the loop ends with the channel after the last poll, and otherwise in the middle of a round:
  an error leaves the values of the paths before it on the queue, and neither a sync nor a fatal message.
\<close>

theorem db_poll_rounds:
  "\<exists>rounds rest. fst (PollRun e c polls clock s) = concat rounds @ rest \<and>
     list_all2 (pollRound e s (dc_pathG2S c)) (take (length rounds) polls) rounds \<and>
     (if snd (PollRun e c polls clock s) = PollClosed then length rounds = length polls \<and> rest = []
      else length rounds < length polls \<and> updatesOnly rest)"
  using PollRun_rounds [where e = e and c = c and polls = polls and clock = clock and s = s] by (simp add: case_prod_unfold)

text \<open>
  C39. A client that follows the messages of a polled APPL\_DB (the last value of a path, gone when it is deleted) knows
  after the last poll exactly what redis has: a value for every path with data, and nothing for the others.
\<close>

theorem appdb_poll_view:
  assumes "AppDBPollRun e pathText c polls clock s = (q, PollClosed)" and "polls \<noteq> []"
    and "distinct (map fst (dc_pathG2S c))" and "inj_on pathText (set (map fst (dc_pathG2S c)))"
    and "\<forall>(order, r) \<in> set polls. mset (order (dc_pathG2S c)) = mset (dc_pathG2S c)"
    and "(p, tps) \<in> set (dc_pathG2S c)"
  shows "AppDBTableData2TypedValue e tps (snd (last polls)) s = Ret (follow q p)"
  using appPolls_view [OF assms(1) [unfolded AppDBPollRun_def] assms(2-5), of "\<lambda>_. None"] assms(6)
  by (auto simp: tracked_def follow_def)

theorem appdb_poll_view_witness:
  "fst (AppDBPollRun venvEx (\<lambda>_. ''p'') \<lparr>dc_prefix = None, dc_pathG2S = [(None, [appPathEx])]\<rparr>
     [(id, Some [(''PORT:E0'', [(''mtu'', ''9100'')])]), (id, Some [])] [5, 6, 7, 8] vstateEx) =
   [updateMsg None None (StringVal ''9100'') 5, syncMsg 6, deleteMsg None None 7, syncMsg 8] \<and>
   AppDBTableData2TypedValue venvEx [appPathEx] (Some []) vstateEx = Ret None"
proof -
  let ?c = "\<lparr>dc_prefix = None, dc_pathG2S = [(None, [appPathEx])]\<rparr>"
  let ?polls = "[(id :: pathG2S \<Rightarrow> pathG2S, Some [(''PORT:E0'', [(''mtu'', ''9100'')])]), (id, Some [])]"
  let ?q = "[updateMsg None None (StringVal ''9100'') 5, syncMsg 6, deleteMsg None None 7, syncMsg 8]"
  have run: "AppDBPollRun venvEx (\<lambda>_. ''p'') ?c ?polls [5, 6, 7, 8] vstateEx = (?q, PollClosed)" by code_simp
  have "AppDBTableData2TypedValue venvEx [appPathEx] (snd (last ?polls)) vstateEx = Ret (follow ?q None)"
    by (rule appdb_poll_view [OF run]) auto
  then show ?thesis using run by (simp add: follow_def)
qed

text \<open>
  C40. The field of all ports: a query for \<^verbatim>\<open>COUNTERS/Ethernet*/f\<close> is answered with a JSON object that has, under the vendor
  name of each port, the field from the hash of the port's own object identifier in the database of its namespace, when
  it is there, and nothing else.
\<close>

theorem db_wildcard_field:
  assumes "range_order (ve_rng e)" and "ready s" and "initMaps e r s = (Ret (), s')" and "ready s'"
    and "path_target pre = ''COUNTERS_DB''" and "path_elem p \<noteq> []"
    and "map elem_name (path_elem pre @ path_elem p) = [''COUNTERS'', ''Ethernet*'', f]"
    and "f \<notin> {[], ''Queues'', ''Pfcwd''}"
    and "gomap_ok (countersPortNameMap (vs_maps s'))"
    and "inj_on (getVendorPortName (vs_maps s')) (fst ` set (countersPortNameMap (vs_maps s')))"
    and "\<forall>(port, oid) \<in> set (countersPortNameMap (vs_maps s')). oid \<noteq> [] \<and> getVendorPortName (vs_maps s') port \<noteq> [] \<and>
           map_of (port2namespaceMap (vs_maps s')) port = Some (nsOf port) \<and>
           redisDb s' (nsOf port) ''COUNTERS_DB'' = Some (clientOf port)"
  shows "\<exists>tps t m. populateDbtablePath e (Some pre) (Some p) r s = (Ret tps, s') \<and>
     DbClient_tableData2TypedValue e tps r s' = Ret (JsonIetfVal t) \<and> parseJson t = Some (JObj m) \<and>
     fst ` set m \<subseteq> getVendorPortName (vs_maps s') ` fst ` set (countersPortNameMap (vs_maps s')) \<and>
     (\<forall>(port, oid) \<in> set (countersPortNameMap (vs_maps s')).
        map_of m (getVendorPortName (vs_maps s') port) =
          (case ve_HGet e (clientOf port) (''COUNTERS'' @ sepOf e ''COUNTERS_DB'' (nsOf port) s' @ oid) f r of
             HVal v \<Rightarrow> Some (JObj [(f, JStr v)])
           | _ \<Rightarrow> None))"
proof -
  let ?m = "vs_maps s'" and ?ports = "rangeOver (ve_rng e) (countersPortNameMap (vs_maps s'))"
  let ?tab = "fieldTable e s' f nsOf"
  have ports: "set ?ports = set (countersPortNameMap ?m)" by (rule rangeOver_set [OF assms(1,9)])
  have pop: "populateDbtablePath e (Some pre) (Some p) r s = (Ret (map ?tab ?ports), s')"
    by (rule populate_virtual [OF assms(1-6), where f = EthPortFieldStats, unfolded assms(7)])
      (use assms(8) fieldTables_translated [OF assms(1,4,9,11)] in \<open>auto simp: field_spec transFunc_def\<close>)
  have "f \<noteq> []" using assms(8) by simp
  then have named: "\<forall>tp \<in> set (map ?tab ?ports). namedField s' tp" using fieldTables_named [OF assms(11)] ports by auto
  have dist: "distinct (map jsonTableKey (map ?tab ?ports))"
    unfolding map_map by (rule vendor_names_distinct [OF assms(1,9,10) ports]) (simp add: fieldTable_def case_prod_unfold)
  obtain t m where read: "DbClient_tableData2TypedValue e (map ?tab ?ports) r s' = Ret (JsonIetfVal t)" "parseJson t = Some (JObj m)"
    and all: "\<And>k. map_of m k = (case find (\<lambda>tp. jsonTableKey tp = k) (map ?tab ?ports) of None \<Rightarrow> None
      | Some tp \<Rightarrow> (case ve_HGet e (the (redisDb s' (dbNamespace tp) (dbName tp))) (hashKey tp) (field tp) r of
           HVal v \<Rightarrow> Some (JObj [(jsonField tp, JStr v)]) | _ \<Rightarrow> None))"
    by (rule named_json [OF assms(1) named dist, of r]) (rule that)
  have one: "map_of m (getVendorPortName ?m port) =
      (case ve_HGet e (clientOf port) (''COUNTERS'' @ sepOf e ''COUNTERS_DB'' (nsOf port) s' @ oid) f r of
         HVal v \<Rightarrow> Some (JObj [(f, JStr v)]) | _ \<Rightarrow> None)" if port: "(port, oid) \<in> set (countersPortNameMap ?m)" for port oid
  proof -
    have "?tab (port, oid) \<in> set (map ?tab ?ports)" using port ports by auto
    from find_distinct [OF dist this]
    have "find (\<lambda>tp. jsonTableKey tp = getVendorPortName ?m port) (map ?tab ?ports) = Some (?tab (port, oid))"
      by (simp add: fieldTable_def)
    moreover have "oid \<noteq> []" "redisDb s' (nsOf port) ''COUNTERS_DB'' = Some (clientOf port)" using assms(11) port by blast+
    ultimately show ?thesis unfolding all by (simp add: fieldTable_def hashKey_def split: hget.split)
  qed
  have "fst ` set m \<subseteq> getVendorPortName ?m ` fst ` set (countersPortNameMap ?m)"
    by (rule fieldTables_keys [where rng = "ve_rng e"]) (use all ports in \<open>auto split: option.splits\<close>)
  with pop read one show ?thesis
    by (intro exI [of _ "map ?tab ?ports"] exI [of _ t] exI [of _ m] conjI) (assumption | blast)+
qed

theorem db_wildcard_field_witness:
  "\<exists>tps t m. populateDbtablePath venvEx (Some allPreEx) (Some allPathEx) (Some [(''COUNTERS:oid:2'', [(''rx'', ''7'')])]) allPortsEx =
       (Ret tps, allPortsEx) \<and>
     DbClient_tableData2TypedValue venvEx tps (Some [(''COUNTERS:oid:2'', [(''rx'', ''7'')])]) allPortsEx = Ret (JsonIetfVal t) \<and>
     parseJson t = Some (JObj m) \<and> map_of m ''etp1'' = None \<and> map_of m ''Ethernet4'' = Some (JObj [(''rx'', JStr ''7'')])"
proof -
  let ?r = "Some [(''COUNTERS:oid:2'', [(''rx'', ''7'')])]" and ?m = "vs_maps allPortsEx"
  have maps: "countersPortNameMap ?m = [(''Ethernet0'', ''oid:1''), (''Ethernet4'', ''oid:2'')]" by code_simp
  have names: "getVendorPortName ?m ''Ethernet0'' = ''etp1''" "getVendorPortName ?m ''Ethernet4'' = ''Ethernet4''" by code_simp+
  have ready: "ready allPortsEx" by code_simp
  have init: "initMaps venvEx ?r allPortsEx = (Ret (), allPortsEx)" by code_simp
  have ns: "map_of (port2namespaceMap ?m) ''Ethernet0'' = Some []" "map_of (port2namespaceMap ?m) ''Ethernet4'' = Some []"
    "redisDb allPortsEx [] ''COUNTERS_DB'' = Some (''redis.sock'', 2)" by code_simp+
  have sep: "sepOf venvEx ''COUNTERS_DB'' [] allPortsEx = '':''" by code_simp
  have get: "ve_HGet venvEx (''redis.sock'', 2) ''COUNTERS:oid:1'' ''rx'' ?r = HNil"
    "ve_HGet venvEx (''redis.sock'', 2) ''COUNTERS:oid:2'' ''rx'' ?r = HVal ''7''" by code_simp+
  have path: "path_target allPreEx = ''COUNTERS_DB''" "path_elem allPathEx \<noteq> []"
    "map elem_name (path_elem allPreEx @ path_elem allPathEx) = [''COUNTERS'', ''Ethernet*'', ''rx'']" by code_simp+
  have all: "\<exists>tps t m. populateDbtablePath venvEx (Some allPreEx) (Some allPathEx) ?r allPortsEx = (Ret tps, allPortsEx) \<and>
     DbClient_tableData2TypedValue venvEx tps ?r allPortsEx = Ret (JsonIetfVal t) \<and> parseJson t = Some (JObj m) \<and>
     fst ` set m \<subseteq> getVendorPortName ?m ` fst ` set (countersPortNameMap ?m) \<and>
     (\<forall>(port, oid) \<in> set (countersPortNameMap ?m). map_of m (getVendorPortName ?m port) =
        (case ve_HGet venvEx (''redis.sock'', 2) (''COUNTERS'' @ sepOf venvEx ''COUNTERS_DB'' [] allPortsEx @ oid) ''rx'' ?r of
           HVal v \<Rightarrow> Some (JObj [(''rx'', JStr v)]) | _ \<Rightarrow> None))"
    by (rule db_wildcard_field [OF rng_ex ready init ready path]) (simp_all add: maps names ns inj_on_def)
  then obtain tps t m where run: "populateDbtablePath venvEx (Some allPreEx) (Some allPathEx) ?r allPortsEx = (Ret tps, allPortsEx)"
    "DbClient_tableData2TypedValue venvEx tps ?r allPortsEx = Ret (JsonIetfVal t)" "parseJson t = Some (JObj m)"
    "\<forall>(port, oid) \<in> set (countersPortNameMap ?m). map_of m (getVendorPortName ?m port) =
        (case ve_HGet venvEx (''redis.sock'', 2) (''COUNTERS'' @ sepOf venvEx ''COUNTERS_DB'' [] allPortsEx @ oid) ''rx'' ?r of
           HVal v \<Rightarrow> Some (JObj [(''rx'', JStr v)]) | _ \<Rightarrow> None)" by (elim exE conjE)
  from run(4) have "map_of m ''etp1'' = None" "map_of m ''Ethernet4'' = Some (JObj [(''rx'', JStr ''7'')])"
    unfolding maps sep by (simp_all add: names get)
  with run(1-3) show ?thesis by (intro exI [of _ tps] exI [of _ t] exI [of _ m] conjI)
qed

end
