(* ===== verification/Spec2Isabelle.thy ===== *)
theory Spec2Isabelle
  imports Gnmi_Prelude Pathz_Spec Auth Pathz_Sessions Subscribe Authz_Server Mixed_Config Db_Client
begin

text \<open>
  A model of the SONiC gNMI server (the Go sources under \<^verbatim>\<open>src/\<close>) and of what makes it correct.

  \<^bold>\<open>The program.\<close> A gRPC server on a network switch. Requests are authenticated (\<^verbatim>\<open>gnmi_server/server.go\<close>,
  \<^verbatim>\<open>basicAuth.go\<close>, \<^verbatim>\<open>jwtAuth.go\<close>, \<^verbatim>\<open>clientCertAuth.go\<close>), and then Get, Set and Subscribe are handed to a data
  client (\<^verbatim>\<open>sonic_data_client\<close>) that is chosen by the origin and the target of the request. The data clients read
  redis databases, translate virtual paths, write tables, and change the configuration through a host service on
  D-Bus (\<^verbatim>\<open>sonic_service_client\<close>). The gNSI services pathz and authz rotate the policies in two phases, with
  checkpoint, upload, and commit or revert.

  \<^bold>\<open>The theories\<close>, each after those it uses:
  \<^item> \<^verbatim>\<open>Gnmi_Prelude\<close>, \<^verbatim>\<open>Gnmi_Proto\<close>, \<^verbatim>\<open>Json\<close>: what the sources use of Go (maps, strings, number formats,
    \<^verbatim>\<open>encoding/json\<close>) and of the protocol messages.
  \<^item> \<^verbatim>\<open>Pathz_Authorizer\<close>, \<^verbatim>\<open>Pathz_Spec\<close> (\<^verbatim>\<open>pathz_authorizer\<close>): the tree of rules and a specification over the
    list of rules. The compiled tree answers every request as the list does (longest path, users before groups, deny
    before permit).
  \<^item> \<^verbatim>\<open>Auth\<close> (\<^verbatim>\<open>gnmi_server/\<close> authentication, roles, revocation lists): who is let in, and when a certificate may
    write.
  \<^item> \<^verbatim>\<open>Host\<close>: files and hashes of the host, with a list of faults that the system calls take their outcome from; the
    helpers of \<^verbatim>\<open>gnsi_util.go\<close>, with the atomicity of \<open>copyFile\<close>.
  \<^item> \<^verbatim>\<open>Pathz_Server\<close>, \<^verbatim>\<open>Pathz_Sessions\<close> (\<^verbatim>\<open>gnsi_pathz.go\<close>) and \<^verbatim>\<open>Authz_Server\<close> (\<^verbatim>\<open>gnsi_authz.go\<close>): the Rotate
    RPCs over lists of received messages, and interleaved sessions as a step relation. The lemmas show what memory,
    files and database hold after success and failure, with and without faults. The server of policies sees the
    processor through the locale \<open>policy_processor\<close>, interpreted on the processor of \<^verbatim>\<open>Pathz_Authorizer\<close>.
  \<^item> \<^verbatim>\<open>Bypass\<close> (\<^verbatim>\<open>pkg/bypass\<close>): the fast path of Set; what it can change, and that updates merge.
  \<^item> \<^verbatim>\<open>Counters\<close> (\<^verbatim>\<open>common_utils\<close>): counters as 64-bit words, their copy in shared memory, interleaved calls.
  \<^item> \<^verbatim>\<open>Gnmi_Server\<close>, \<^verbatim>\<open>Subscribe\<close> (\<^verbatim>\<open>server.go\<close>, \<^verbatim>\<open>client_subscribe.go\<close>, \<^verbatim>\<open>connection_manager.go\<close>): the handlers,
    whole, with the data clients as records of operations; the connection table and the channels of a client as step
    relations.
  \<^item> \<^verbatim>\<open>Json_Client\<close>, \<^verbatim>\<open>Dbus\<close>, \<^verbatim>\<open>Db_Config\<close>: the editor of configuration checkpoints, the client of the host services,
    and the configuration of the databases.
  \<^item> \<^verbatim>\<open>Data_Client\<close>: outcomes of Go functions that return an error or panic, table paths, and the locale
    \<open>call_frame\<close> for properties that every call keeps (interpreted in \<^verbatim>\<open>Mixed_Db\<close> on the log of table operations).
  \<^item> \<^verbatim>\<open>Mixed_Db\<close>, \<^verbatim>\<open>Mixed_Config\<close> (\<^verbatim>\<open>mixed_db_client.go\<close>): reading and writing of tables with retries, and the
    protocol of a configuration change: checkpoint, edited copy, JSON patch.
  \<^item> \<^verbatim>\<open>Trie\<close>, \<^verbatim>\<open>Virtual_Db\<close> (\<^verbatim>\<open>trie.go\<close>, \<^verbatim>\<open>virtual_db.go\<close>): the trie of paths with wildcards, refined by greedy
    matching on the list of registered paths, and the translation of virtual paths of COUNTERS\_DB.
  \<^item> \<^verbatim>\<open>Db_Client\<close> (\<^verbatim>\<open>db_client.go\<close>): resolving paths to tables, reading them as typed values, Get, and the loops that
    answer polls. A client that follows the messages of a polled APPL\_DB knows what redis has.

  \<^bold>\<open>Conventions.\<close> A struct is a record, an enumeration or an interface with finitely many cases a datatype, a Go map
  an association list with distinct keys. The order of a \<open>range\<close> over a map is an argument, and the properties hold
  for every permutation. Errors are values of a sum type, an option, or of \<open>go\<close> (result, error or panic). State is
  passed explicitly. Pointers that may be nil are options. Libraries and services (redis, swss-common, D-Bus, the JWT
  and TLS libraries, YANG validation) are fields of environment records; what a property assumes of them is among its
  hypotheses, and its witness gives concrete ones.

  \<^bold>\<open>Bounds.\<close> The JSON parser takes the length of its input as fuel, which is enough (\<open>parseJson_fuel\<close>). Symbolic links
  are followed 40 times, the limit of the kernel. The retry loop of \<^verbatim>\<open>Mixed_Db\<close> has the bound of the source. All other
  loops are recursions over their data.

  \<^bold>\<open>Not modelled.\<close> Generated protocol code and mocks (\<^verbatim>\<open>proto/\<close>, \<^verbatim>\<open>gnmi_server/mocks\<close>) have no behaviour of their
  own. Command line programs (\<^verbatim>\<open>gnoi_client\<close>, \<^verbatim>\<open>gnmi_dump\<close> apart from its names of counters, \<^verbatim>\<open>dialout_server\<close>) only
  print what a server answers. Starting the server (\<^verbatim>\<open>telemetry\<close>) is flags, TLS files and signals. The stream
  subscriptions of \<^verbatim>\<open>db_client.go\<close> and \<^verbatim>\<open>mixed_db_client.go\<close> (there with the poll loop) are goroutines around
  redis notifications and timers. The translib clients and the event client wrap libraries that are not part of the sources. The dial-out client, the show
  commands, the certz service, the DPU proxy and the gNOI services are parts of their own that nothing modelled here
  depends on; they are left out for their size.
  Locks are not modelled where the sections they protect are single steps of the model; where two sections of one call can
  interleave (counters, connections, rotation sessions), the steps are explicit.
\<close>

end
